(* ===== verification/Prelude.thy ===== *)
theory Prelude
  imports Main "HOL-Library.Word" "HOL-Library.AList" "HOL-Library.Multiset"
    "HOL-Library.List_Lexorder" "HOL-Library.Char_ord" "HOL-Library.Sublist" "HOL-Library.Code_Target_Nat"
begin

text \<open>
  The vocabulary the components share: Go byte strings, nil-able slices, signed
  64-bit arithmetic written out on \<open>int\<close>, Go maps as association lists, the error
  values of the program, dynamically typed results (\<open>interface{}\<close>), and operations
  on a transaction as functions from the transaction to a result and the
  transaction afterwards.

  A Go \<open>string\<close> and a \<open>[]byte\<close> are both sequences of bytes; a \<open>char\<close> of HOL is
  exactly one byte, so both are \<open>char list\<close>. Where the code tests a slice against
  \<open>nil\<close> the model has an \<open>option\<close>, with \<open>None\<close> for \<open>nil\<close>.
\<close>

named_theorems monad_simps \<open>unfolding of the transaction combinators\<close>
named_theorems key_simps \<open>injectivity and disjointness of the storage keys\<close>
named_theorems go_simps \<open>Go arithmetic, slices and maps\<close>

type_synonym bytes = "char list"

section \<open>Slices, integers, maps\<close>

text \<open>The contents of a slice that may be \<open>nil\<close>.\<close>

definition slice :: "bytes option \<Rightarrow> bytes" where
  "slice b = (case b of None \<Rightarrow> [] | Some x \<Rightarrow> x)"

text \<open>Two's complement: the value an \<open>int64\<close> holds after exact arithmetic gave \<open>x\<close>.\<close>

definition wrap64 :: "int \<Rightarrow> int" where
  "wrap64 x = (x + 9223372036854775808) mod 18446744073709551616 - 9223372036854775808"

definition in_int64 :: "int \<Rightarrow> bool" where
  "in_int64 x \<longleftrightarrow> - 9223372036854775808 \<le> x \<and> x < 9223372036854775808"

text \<open>Saturation to \<open>int64\<close>, as \<open>time.Time.Sub\<close> does.\<close>

definition sat64 :: "int \<Rightarrow> int" where
  "sat64 x = max (- 9223372036854775808) (min 9223372036854775807 x)"

text \<open>Go's integer division truncates towards zero.\<close>

definition tdiv :: "int \<Rightarrow> int \<Rightarrow> int" where
  "tdiv a b = sgn a * sgn b * (\<bar>a\<bar> div \<bar>b\<bar>)"

text \<open>
  A Go \<open>map[string]string\<close> is an association list with distinct keys; its
  iteration order is never read off the list directly (see the range order of the
  environment).
\<close>

type_synonym gomap = "(bytes \<times> bytes) list"

definition map_put :: "bytes \<Rightarrow> bytes \<Rightarrow> gomap \<Rightarrow> gomap" where
  "map_put k v m = AList.update k v m"

definition map_del :: "bytes \<Rightarrow> gomap \<Rightarrow> gomap" where
  "map_del k m = AList.delete k m"

text \<open>A Go \<open>map[string]struct{}\<close> is a list without duplicates.\<close>

definition set_put :: "bytes \<Rightarrow> bytes list \<Rightarrow> bytes list" where
  "set_put x s = (if x \<in> set s then s else s @ [x])"

definition set_del :: "bytes \<Rightarrow> bytes list \<Rightarrow> bytes list" where
  "set_del x s = filter (\<lambda>y. y \<noteq> x) s"

section \<open>Errors and results\<close>

text \<open>
  The error values: Badger's not-found sentinel, which the code compares against, any
  other error a third-party call returns, the program's own sentinel, the errors it
  formats, and a run-time panic (index out of range and the like), which is kept apart
  because it is not returned to the caller.
\<close>

datatype err =
    ErrKeyNotFound
  | ErrExt bytes
  | ErrWrongType
  | Errf bytes
  | GoPanic bytes

text \<open>\<open>err.Error()\<close>.\<close>

fun err_text :: "err \<Rightarrow> bytes" where
  "err_text ErrKeyNotFound = ''Key not found''"
| "err_text (ErrExt m) = m"
| "err_text ErrWrongType = ''WRONGTYPE Operation against a key holding the wrong kind of value''"
| "err_text (Errf m) = m"
| "err_text (GoPanic m) = m"

text \<open>
  The dynamic types an \<open>interface{}\<close> result takes: untyped \<open>nil\<close>, \<open>string\<close>,
  \<open>[]byte\<close> (which may be a typed \<open>nil\<close>), \<open>int\<close>, \<open>int64\<close>, \<open>[]string\<close>,
  \<open>[]int64\<close> and \<open>[]interface{}\<close>.
\<close>

datatype goval =
    GNil
  | GStr bytes
  | GBytes "bytes option"
  | GInt int
  | GInt64 int
  | GStrs "bytes list"
  | GInt64s "int list"
  | GArr "goval list"

section \<open>Operations on a transaction\<close>

text \<open>
  An operation takes the transaction and returns an error or a value, and the
  transaction as it is afterwards. The writes made before an error stay in the
  transaction: whether they survive is decided by the caller.
\<close>

type_synonym ('t, 'a) tx = "'t \<Rightarrow> (err + 'a) \<times> 't"

definition ret :: "'a \<Rightarrow> ('t, 'a) tx" where
  [monad_simps]: "ret x = (\<lambda>t. (Inr x, t))"

definition throw :: "err \<Rightarrow> ('t, 'a) tx" where
  [monad_simps]: "throw e = (\<lambda>t. (Inl e, t))"

definition bind :: "('t, 'a) tx \<Rightarrow> ('a \<Rightarrow> ('t, 'b) tx) \<Rightarrow> ('t, 'b) tx" where
  [monad_simps]: "bind m f = (\<lambda>t. case fst (m t) of Inl e \<Rightarrow> (Inl e, snd (m t)) | Inr x \<Rightarrow> f x (snd (m t)))"

text \<open>A call whose error the code discards (\<open>_ = txn.Delete(...)\<close>).\<close>

definition ignore_err :: "('t, 'a) tx \<Rightarrow> ('t, unit) tx" where
  [monad_simps]: "ignore_err m = (\<lambda>t. (Inr (), snd (m t)))"

text \<open>A read of the transaction; its error is the operation's error.\<close>

definition readE :: "('t \<Rightarrow> err + 'a) \<Rightarrow> ('t, 'a) tx" where
  [monad_simps]: "readE g = (\<lambda>t. (g t, t))"

text \<open>A \<open>for\<close> loop over a slice that stops at the first error.\<close>

primrec for_each :: "('a \<Rightarrow> ('t, unit) tx) \<Rightarrow> 'a list \<Rightarrow> ('t, unit) tx" where
  "for_each f [] = ret ()"
| "for_each f (x # xs) = bind (f x) (\<lambda>_. for_each f xs)"

section \<open>Lemmas: slices and integers\<close>

lemma slice_simps [simp, go_simps]: "slice None = []" "slice (Some x) = x"
  by (simp_all add: slice_def)

lemma wrap64_in_int64 [simp, go_simps]: "in_int64 (wrap64 x)"
  unfolding in_int64_def wrap64_def by (simp add: pos_mod_bound pos_mod_sign)

lemma wrap64_id [go_simps]: "in_int64 x \<Longrightarrow> wrap64 x = x"
  unfolding in_int64_def wrap64_def by (simp add: mod_pos_pos_trivial)

lemma wrap64_mod: "wrap64 x mod 18446744073709551616 = x mod 18446744073709551616"
proof -
  have "wrap64 x mod 18446744073709551616
      = ((x + 9223372036854775808) - 9223372036854775808) mod 18446744073709551616"
    unfolding wrap64_def by (rule mod_diff_left_eq)
  then show ?thesis by simp
qed

lemma wrap64_add_wrap: "wrap64 (wrap64 a + b) = wrap64 (a + b)"
proof -
  have "(wrap64 a + (b + 9223372036854775808)) mod 18446744073709551616
      = (a + (b + 9223372036854775808)) mod 18446744073709551616"
    by (rule mod_add_cong) (simp_all add: wrap64_mod)
  then show ?thesis unfolding wrap64_def by (simp add: add.assoc)
qed

lemma wrap64_diff_wrap: "wrap64 (wrap64 a - b) = wrap64 (a - b)"
  using wrap64_add_wrap [of a "- b"] by simp

lemma wrap64_inject: "in_int64 x \<Longrightarrow> in_int64 y \<Longrightarrow> wrap64 x = wrap64 y \<longleftrightarrow> x = y"
  by (simp add: wrap64_id)

lemma sat64_id [go_simps]: "in_int64 x \<Longrightarrow> sat64 x = x"
  by (simp add: in_int64_def sat64_def)

lemma tdiv_pos: "0 \<le> a \<Longrightarrow> 0 < b \<Longrightarrow> tdiv a b = a div b"
  by (cases "a = 0") (simp_all add: tdiv_def)

lemma tdiv_nonpos: "a \<le> 0 \<Longrightarrow> 0 < b \<Longrightarrow> tdiv a b = - ((- a) div b)"
  by (cases "a = 0") (simp_all add: tdiv_def)

section \<open>Lemmas: maps and sets\<close>

lemma map_of_map_put [simp, go_simps]: "map_of (map_put k v m) = (map_of m)(k \<mapsto> v)"
  by (simp add: map_put_def update_conv')

lemma distinct_map_put [simp, go_simps]:
  "distinct (map fst m) \<Longrightarrow> distinct (map fst (map_put k v m))"
  by (simp add: map_put_def distinct_update)

lemma map_of_map_del [simp, go_simps]: "map_of (map_del k m) = (map_of m)(k := None)"
  by (simp add: map_del_def delete_conv')

lemma distinct_map_del [simp, go_simps]:
  "distinct (map fst m) \<Longrightarrow> distinct (map fst (map_del k m))"
  by (simp add: map_del_def distinct_delete)

lemma set_set_put [simp, go_simps]: "set (set_put x s) = insert x (set s)"
  by (auto simp: set_put_def)

lemma distinct_set_put [simp, go_simps]: "distinct s \<Longrightarrow> distinct (set_put x s)"
  by (auto simp: set_put_def)

lemma set_set_del [simp, go_simps]: "set (set_del x s) = set s - {x}"
  by (auto simp: set_del_def)

lemma distinct_set_del [simp, go_simps]: "distinct s \<Longrightarrow> distinct (set_del x s)"
  by (simp add: set_del_def)

text \<open>Two Go maps with the same bindings have the same number of keys.\<close>

lemma length_of_map_of:
  assumes "distinct (map fst m)"
  shows "length m = card (dom (map_of m))"
proof -
  have "card (dom (map_of m)) = card (set (map fst m))" by (simp add: dom_map_of_conv_image_fst)
  with assms show ?thesis using distinct_card [OF assms] by simp
qed

lemma mset_map_of_eq:
  assumes "mset m = mset m'" and "distinct (map fst m')"
  shows "map_of m = map_of m'" and "distinct (map fst m)"
proof -
  have "mset (map fst m) = mset (map fst m')" using assms(1) by simp
  then show d: "distinct (map fst m)" using assms(2) by (metis mset_eq_imp_distinct_iff)
  have "set m = set m'" using assms(1) by (metis set_mset_mset)
  then show "map_of m = map_of m'"
    using map_of_inject_set [OF d assms(2)] by simp
qed

section \<open>Lemmas: transaction combinators\<close>

lemma bind_ret [simp]: "bind (ret x) f = f x"
  by (simp add: monad_simps)

lemma bind_throw [simp]: "bind (throw e) f = throw e"
  by (simp add: monad_simps)

lemma bind_assoc: "bind (bind m f) g = bind m (\<lambda>x. bind (f x) g)"
  by (rule ext) (simp add: monad_simps split: sum.split)

lemma for_each_append: "for_each f (xs @ ys) = bind (for_each f xs) (\<lambda>_. for_each f ys)"
  by (induction xs) (simp_all add: bind_assoc)

end
