(* ===== verification/SlotMap.thy ===== *)
theory SlotMap
  imports Prelude
begin

text \<open>
  The slot table of \<open>config/slotmap.go\<close>: which shard and address own each hash slot,
  and a version that counts the updates. Every method holds the table's lock from its
  first statement to its return, so concurrent calls are a sequence of whole calls, and
  the properties are stated over such sequences.
\<close>

record SlotInfo =
  ShardID :: bytes
  IP :: bytes

record SlotMap =
  version :: "64 word"
  slots :: "16 word \<Rightarrow> SlotInfo option"

definition NewSlotMap :: SlotMap where
  "NewSlotMap = \<lparr>version = 0, slots = (\<lambda>_. None)\<rparr>"

definition SetOwner :: "16 word \<Rightarrow> bytes \<Rightarrow> bytes \<Rightarrow> SlotMap \<Rightarrow> SlotMap" where
  "SetOwner slot shardID ip s =
     s\<lparr>slots := (slots s)(slot \<mapsto> \<lparr>ShardID = shardID, IP = ip\<rparr>), version := version s + 1\<rparr>"

text \<open>Reading a Go map at an absent key gives the zero value, two empty strings.\<close>

definition GetOwner :: "16 word \<Rightarrow> SlotMap \<Rightarrow> bytes \<times> bytes" where
  "GetOwner slot s =
     (case slots s slot of None \<Rightarrow> ([], []) | Some info \<Rightarrow> (ShardID info, IP info))"

definition Version :: "SlotMap \<Rightarrow> 64 word" where
  "Version s = version s"

section \<open>The interface the router relies on\<close>

text \<open>An assignment of owners: a slot, a shard and an address.\<close>

type_synonym assignment = "16 word \<times> bytes \<times> bytes"

locale slot_table =
  fixes empty :: 's
    and set_owner :: "16 word \<Rightarrow> bytes \<Rightarrow> bytes \<Rightarrow> 's \<Rightarrow> 's"
    and get_owner :: "16 word \<Rightarrow> 's \<Rightarrow> bytes \<times> bytes"
  assumes get_empty: "get_owner slot empty = ([], [])"
    and get_set: "get_owner slot' (set_owner slot shard ip s) =
                    (if slot' = slot then (shard, ip) else get_owner slot' s)"
begin

definition assign_all :: "assignment list \<Rightarrow> 's \<Rightarrow> 's" where
  "assign_all = fold (\<lambda>(slot, shard, ip). set_owner slot shard ip)"

text \<open>The last assignment of a slot decides, whatever else happened in between.\<close>

lemma get_assign_all:
  "get_owner slot (assign_all as s) =
     (case find (\<lambda>a. fst a = slot) (rev as) of
        None \<Rightarrow> get_owner slot s | Some a \<Rightarrow> snd a)"
proof (induction as rule: rev_induct)
  case Nil
  then show ?case by (simp add: assign_all_def)
next
  case (snoc a as)
  then show ?case by (cases a) (simp add: assign_all_def get_set)
qed

text \<open>Assignments of different slots commute as far as any reader can tell.\<close>

lemma set_set_commute:
  "slot \<noteq> slot' \<Longrightarrow>
   get_owner x (set_owner slot a b (set_owner slot' c d s)) =
   get_owner x (set_owner slot' c d (set_owner slot a b s))"
  by (simp add: get_set)

end

section \<open>Lemmas\<close>

interpretation sm: slot_table NewSlotMap SetOwner GetOwner
  by unfold_locales (simp_all add: GetOwner_def SetOwner_def NewSlotMap_def)

lemma version_SetOwner: "Version (SetOwner slot shard ip s) = Version s + 1"
  by (simp add: Version_def SetOwner_def)

lemma version_assign_all: "Version (sm.assign_all as s) = Version s + of_nat (length as)"
proof (induction as arbitrary: s)
  case Nil
  then show ?case by (simp add: sm.assign_all_def)
next
  case (Cons a as)
  then show ?case by (cases a) (simp add: sm.assign_all_def version_SetOwner)
qed

end
