(* ===== verification/Router.thy ===== *)
theory Router
  imports SlotMap
begin

unbundle bit_operations_syntax

text \<open>
  Key placement of \<open>router/router.go\<close>: the CRC16 that maps a key to one of 16384 slots,
  the FNV-1a hash of the ring's hasher, and the lookup of a key's owner. The reference
  for the checksum is polynomial long division over GF(2) on the message bits.
\<close>

section \<open>Checksum and hash\<close>

text \<open>One turn of the inner loop.\<close>

definition crc16_step :: "16 word \<Rightarrow> 16 word" where
  "crc16_step crc =
     (if crc AND 0x8000 \<noteq> 0 then push_bit 1 crc XOR 0x1021 else push_bit 1 crc)"

definition crc16_byte :: "16 word \<Rightarrow> char \<Rightarrow> 16 word" where
  "crc16_byte crc b = (crc16_step ^^ 8) (crc XOR push_bit 8 (of_char b))"

definition crc16 :: "bytes \<Rightarrow> 16 word" where
  "crc16 data = foldl crc16_byte 0 data"

text \<open>\<open>fnv.New64a\<close>: the offset basis, then xor and multiply for each byte.\<close>

definition Sum64 :: "bytes \<Rightarrow> 64 word" where
  "Sum64 data = foldl (\<lambda>h b. (h XOR of_char b) * 1099511628211) 14695981039346656037 data"

section \<open>The router\<close>

text \<open>
  The ring is a third-party object the router keeps and never calls; its type is a
  parameter.
\<close>

record 'ring Router =
  ring :: 'ring
  slotMap :: SlotMap
  localName :: bytes

definition NewRouter :: "'ring \<Rightarrow> SlotMap \<Rightarrow> bytes \<Rightarrow> 'ring Router" where
  "NewRouter r sm name = \<lparr>ring = r, slotMap = sm, localName = name\<rparr>"

definition KeyToSlot :: "bytes \<Rightarrow> 16 word" where
  "KeyToSlot key = crc16 key mod 16384"

definition LocateKey :: "'ring Router \<Rightarrow> bytes \<Rightarrow> bytes \<times> bytes \<times> bool" where
  "LocateKey r key =
     (let slot = KeyToSlot key; (shardID, ip) = GetOwner slot (slotMap r)
      in (shardID, ip, shardID = localName r))"

section \<open>Reference: division of bit polynomials\<close>

text \<open>
  A polynomial over GF(2) is its list of coefficients, highest first. The divisor is
  $x^{16} + x^{12} + x^5 + 1$; below its leading coefficient it is \<open>crc_poly\<close>.
\<close>

definition crc_poly :: "bool list" where
  "crc_poly = [False, False, False, True, False, False, False, False,
               False, False, True, False, False, False, False, True]"

text \<open>Add the second polynomial to the leading coefficients of the first.\<close>

fun xor_prefix :: "bool list \<Rightarrow> bool list \<Rightarrow> bool list" where
  "xor_prefix (x # xs) (y # ys) = (x \<noteq> y) # xor_prefix xs ys"
| "xor_prefix xs [] = xs"
| "xor_prefix [] ys = []"

text \<open>Long division: cancel the leading coefficient until sixteen are left.\<close>

lemma length_xor_prefix [simp]: "length (xor_prefix xs ys) = length xs"
  by (induction xs ys rule: xor_prefix.induct) simp_all

function poly_rem :: "bool list \<Rightarrow> bool list" where
  "poly_rem [] = []"
| "poly_rem (x # xs) =
     (if length xs < 16 then x # xs
      else poly_rem (if x then xor_prefix xs crc_poly else xs))"
  by pat_completeness auto
termination
  by (relation "measure length") auto

fun byte_bits :: "char \<Rightarrow> bool list" where
  "byte_bits c = map (bit (of_char c :: nat)) [7, 6, 5, 4, 3, 2, 1, 0]"

definition message_bits :: "bytes \<Rightarrow> bool list" where
  "message_bits data = concat (map byte_bits data)"

definition word_bits :: "16 word \<Rightarrow> bool list" where
  "word_bits w = map (bit w) [15, 14, 13, 12, 11, 10, 9, 8, 7, 6, 5, 4, 3, 2, 1, 0]"

section \<open>Lemmas: bit polynomials\<close>

lemma xor_prefix_Nil [simp]: "xor_prefix xs [] = xs"
  by (cases xs) simp_all

lemma xor_prefix_snoc_False: "xor_prefix xs (ys @ [False]) = xor_prefix xs ys"
proof (induction xs ys rule: xor_prefix.induct)
  case (2 xs)
  then show ?case by (cases xs) simp_all
qed simp_all

lemma xor_prefix_assoc:
  "length ys = length zs \<Longrightarrow>
   xor_prefix xs (xor_prefix ys zs) = xor_prefix (xor_prefix xs ys) zs"
proof (induction ys zs arbitrary: xs rule: list_induct2)
  case Nil
  then show ?case by simp
next
  case (Cons y ys z zs)
  then show ?case by (cases xs) auto
qed

text \<open>Moving the message bits into the register leaves zeros behind.\<close>

lemma xor_prefix_move:
  "length bs \<le> length rs \<Longrightarrow>
   xor_prefix (bs @ rest) rs = xor_prefix (replicate (length bs) False @ rest) (xor_prefix rs bs)"
proof (induction bs arbitrary: rs)
  case Nil
  then show ?case by simp
next
  case (Cons b bs)
  then show ?case by (cases rs) auto
qed

lemma length_word_bits [simp]: "length (word_bits w) = 16"
  by (simp add: word_bits_def)

lemma length_byte_bits [simp]: "length (byte_bits c) = 8"
  by simp

lemma bit_double: "bit (w * 2 :: 16 word) n \<longleftrightarrow> n < 16 \<and> 0 < n \<and> bit w (n - 1)"
  using bit_push_bit_iff [of 1 w n] by (auto simp: push_bit_eq_mult)

lemma word_bits_crc16_step:
  "word_bits (crc16_step w) =
     (if bit w 15 then xor_prefix (tl (word_bits w) @ [False]) crc_poly
      else tl (word_bits w) @ [False])"
proof -
  have top: "w AND 0x8000 \<noteq> 0 \<longleftrightarrow> bit w 15"
    using and_exp_eq_0_iff_not_bit [of w 15] by simp
  show ?thesis
    unfolding crc16_step_def top
    by (simp add: word_bits_def crc_poly_def bit_xor_iff bit_double)
qed

lemma bit_of_nat_word16: "n < 16 \<Longrightarrow> bit (of_nat k :: 16 word) n = bit k n"
  by transfer (simp add: bit_of_nat_iff bit_take_bit_iff)

lemma bit_of_char_word: "n < 16 \<Longrightarrow> bit (of_char b :: 16 word) n = bit (of_char b :: nat) n"
  using bit_of_nat_word16 [of n "of_char b"] by (simp only: of_nat_of_char)

lemma word_bits_absorb:
  "word_bits (crc XOR push_bit 8 (of_char b)) = xor_prefix (word_bits crc) (byte_bits b)"
  by (simp add: word_bits_def bit_simps bit_of_char_word)

lemma poly_rem_crc16_step:
  assumes "16 \<le> length rest"
  shows "poly_rem (xor_prefix (False # rest) (word_bits w)) =
         poly_rem (xor_prefix rest (word_bits (crc16_step w)))"
proof -
  obtain ms where w: "word_bits w = bit w 15 # ms" and len: "length ms = 15"
    by (simp add: word_bits_def)
  have "xor_prefix rest (xor_prefix (ms @ [False]) crc_poly)
      = xor_prefix (xor_prefix rest ms) crc_poly"
    using len by (subst xor_prefix_assoc) (simp_all add: crc_poly_def xor_prefix_snoc_False)
  with assms show ?thesis
    by (simp add: word_bits_crc16_step w xor_prefix_snoc_False)
qed

lemma poly_rem_crc16_steps:
  "16 \<le> length rest \<Longrightarrow>
   poly_rem (xor_prefix (replicate n False @ rest) (word_bits w)) =
   poly_rem (xor_prefix rest (word_bits ((crc16_step ^^ n) w)))"
proof (induction n arbitrary: w)
  case 0
  then show ?case by simp
next
  case (Suc n)
  have "poly_rem (xor_prefix (replicate (Suc n) False @ rest) (word_bits w))
      = poly_rem (xor_prefix (replicate n False @ rest) (word_bits (crc16_step w)))"
    using Suc.prems by (simp add: poly_rem_crc16_step)
  also have "\<dots> = poly_rem (xor_prefix rest (word_bits ((crc16_step ^^ Suc n) w)))"
    using Suc by (simp add: funpow_swap1)
  finally show ?case .
qed

lemma poly_rem_crc16_byte:
  assumes "16 \<le> length rest"
  shows "poly_rem (xor_prefix (byte_bits b @ rest) (word_bits crc)) =
         poly_rem (xor_prefix rest (word_bits (crc16_byte crc b)))"
proof -
  have "xor_prefix (byte_bits b @ rest) (word_bits crc)
      = xor_prefix (replicate 8 False @ rest) (word_bits (crc XOR push_bit 8 (of_char b)))"
    by (subst xor_prefix_move) (simp_all add: word_bits_absorb del: byte_bits.simps)
  with assms show ?thesis
    by (simp add: crc16_byte_def poly_rem_crc16_steps del: byte_bits.simps)
qed

lemma poly_rem_foldl_crc16:
  "poly_rem (xor_prefix (message_bits data @ replicate 16 False) (word_bits crc)) =
   word_bits (foldl crc16_byte crc data)"
proof (induction data arbitrary: crc)
  case Nil
  have "poly_rem (xor_prefix (replicate 16 False) (word_bits crc))
      = xor_prefix (replicate 16 False) (word_bits crc)"
    by (cases "xor_prefix (replicate 16 False) (word_bits crc)")
      (auto dest!: arg_cong [where f = length])
  also have "\<dots> = word_bits crc"
    by (simp add: word_bits_def numeral_eq_Suc)
  finally show ?case by (simp add: message_bits_def)
next
  case (Cons b data)
  have "poly_rem (xor_prefix (message_bits (b # data) @ replicate 16 False) (word_bits crc))
      = poly_rem (xor_prefix (byte_bits b @ message_bits data @ replicate 16 False) (word_bits crc))"
    by (simp add: message_bits_def del: byte_bits.simps)
  also have "\<dots> = poly_rem (xor_prefix (message_bits data @ replicate 16 False)
                     (word_bits (crc16_byte crc b)))"
    by (rule poly_rem_crc16_byte) simp
  also have "\<dots> = word_bits (foldl crc16_byte crc (b # data))"
    by (simp add: Cons.IH)
  finally show ?case .
qed

lemma xor_prefix_zero: "xor_prefix xs (replicate n False) = xs"
proof (induction xs arbitrary: n)
  case Nil
  then show ?case by (cases n) simp_all
next
  case (Cons x xs)
  then show ?case by (cases n) simp_all
qed

lemma word_bits_zero: "word_bits 0 = replicate 16 False"
  by (simp add: word_bits_def numeral_eq_Suc)

lemma unat_KeyToSlot: "unat (KeyToSlot key) = unat (crc16 key) mod 16384"
  by (simp add: KeyToSlot_def unat_mod_distrib)

section \<open>Properties\<close>

text \<open>
  C11: the bit-twiddling checksum is the remainder of the message, shifted up by sixteen
  places, on division by $x^{16} + x^{12} + x^5 + 1$ over GF(2): the XMODEM CRC16 that
  Redis Cluster prescribes.
\<close>

theorem crc16_is_polynomial_remainder:
  "word_bits (crc16 data) = poly_rem (message_bits data @ replicate 16 False)"
proof -
  have "poly_rem (xor_prefix (message_bits data @ replicate 16 False) (word_bits 0))
      = word_bits (crc16 data)"
    by (simp only: poly_rem_foldl_crc16 crc16_def)
  then show ?thesis by (simp add: word_bits_zero xor_prefix_zero)
qed

text \<open>
  Every key falls into one of the 16384 slots, the one its checksum names, so the
  slot of a key is a valid index of the table whatever bytes the key holds.
\<close>

theorem KeyToSlot_in_range:
  "unat (KeyToSlot key) < 16384 \<and> unat (KeyToSlot key) = unat (crc16 key) mod 16384"
  by (simp add: unat_KeyToSlot)

text \<open>
  After any sequence of ownership changes, made one whole call at a time, a key is
  located at the shard and address of the last change of its slot and is local exactly
  when that shard has the router's name; a slot nobody was given has two empty strings.
  The table's version has advanced by the number of changes, modulo the word size.
\<close>

theorem LocateKey_follows_last_owner:
  "let tab = fold (\<lambda>(slot, shard, ip). SetOwner slot shard ip) as NewSlotMap in
   LocateKey (NewRouter r tab name) key =
     (case find (\<lambda>a. fst a = KeyToSlot key) (rev as) of
        None \<Rightarrow> ([], [], [] = name)
      | Some (_, shard, ip) \<Rightarrow> (shard, ip, shard = name)) \<and>
   Version tab = of_nat (length as)"
proof -
  have "LocateKey (NewRouter r (sm.assign_all as NewSlotMap) name) key =
     (case find (\<lambda>a. fst a = KeyToSlot key) (rev as) of
        None \<Rightarrow> ([], [], [] = name)
      | Some (_, shard, ip) \<Rightarrow> (shard, ip, shard = name))"
    by (simp add: LocateKey_def NewRouter_def sm.get_assign_all sm.get_empty Let_def
        split: option.split)
  moreover have "Version (sm.assign_all as NewSlotMap) = of_nat (length as)"
    by (simp add: version_assign_all) (simp add: Version_def NewSlotMap_def)
  ultimately show ?thesis by (simp add: sm.assign_all_def Let_def)
qed

end
