(* ===== verification/Glob.thy ===== *)
theory Glob
  imports Prelude
begin

text \<open>
  \<open>redisGlobMatch\<close> of \<open>store/fsm.go\<close>, the pattern matcher behind \<open>KEYS\<close>. The code
  walks two indices; the model walks the two suffixes they denote. The reference is the
  set of texts a pattern denotes, read off its tokens.
\<close>

text \<open>The body of a character class: single bytes and ranges, tested left to right.\<close>

fun class_match :: "bytes \<Rightarrow> char \<Rightarrow> bool" where
  "class_match [] ch = False"
| "class_match (a # m # b # rest) ch =
     (if m = CHR ''-'' then (a \<le> ch \<and> ch \<le> b) \<or> class_match rest ch
      else ch = a \<or> class_match (m # b # rest) ch)"
| "class_match (a # rest) ch = (ch = a \<or> class_match rest ch)"

definition bad_pattern :: err where
  "bad_pattern = Errf ''bad pattern''"

text \<open>
  \<open>glob p s\<close> is the inner \<open>match\<close> at the suffixes \<open>p\<close> of the pattern and \<open>s\<close> of the
  text; \<open>glob_star p s\<close> is its loop over the rest of the text after a star.
\<close>

function (sequential) glob :: "bytes \<Rightarrow> bytes \<Rightarrow> err + bool"
  and glob_star :: "bytes \<Rightarrow> bytes \<Rightarrow> err + bool" where
  "glob [] s = Inr (s = [])"
| "glob (c # p) s =
     (if c = CHR ''*'' then
        (let p' = dropWhile (\<lambda>x. x = CHR ''*'') p in
         if p' = [] then Inr True else glob_star p' s)
      else if c = CHR ''?'' then
        (case s of [] \<Rightarrow> Inr False | _ # s' \<Rightarrow> glob p s')
      else if c = CHR ''['' then
        (let body = takeWhile (\<lambda>x. x \<noteq> CHR '']'') p; rest = dropWhile (\<lambda>x. x \<noteq> CHR '']'') p in
         if rest = [] then Inl bad_pattern
         else
           (case s of
              [] \<Rightarrow> Inr False
            | ch # s' \<Rightarrow>
                (let negated = (body \<noteq> [] \<and> hd body = CHR ''^'');
                     matched = class_match (if negated then tl body else body) ch
                 in if matched = negated then Inr False else glob (tl rest) s')))
      else if c = CHR 0x5C then
        (case p of
           [] \<Rightarrow> Inl bad_pattern
         | c' # p' \<Rightarrow>
             (case s of
                [] \<Rightarrow> Inr False
              | ch # s' \<Rightarrow> if c' \<noteq> ch then Inr False else glob p' s'))
      else
        (case s of
           [] \<Rightarrow> Inr False
         | ch # s' \<Rightarrow> if c \<noteq> ch then Inr False else glob p s'))"
| "glob_star p s =
     (case glob p s of
        Inl e \<Rightarrow> Inl e
      | Inr b \<Rightarrow>
          if b then Inr True
          else (case s of [] \<Rightarrow> Inr False | _ # s' \<Rightarrow> glob_star p s'))"
  by pat_completeness auto
termination
proof (relation "measures
    [\<lambda>x. case x of Inl (p, s) \<Rightarrow> length p | Inr (p, s) \<Rightarrow> length p,
     \<lambda>x. case x of Inl (p, s) \<Rightarrow> length s | Inr (p, s) \<Rightarrow> length s,
     \<lambda>x. case x of Inl _ \<Rightarrow> 0 | Inr _ \<Rightarrow> (1::nat)]", goal_cases)
  case (2 c p s x)
  then show ?case using length_dropWhile_le [of "\<lambda>x. x = CHR ''*''" p] by simp
next
  case (4 c p s x xa)
  then show ?case using length_dropWhile_le [of "\<lambda>x. x \<noteq> CHR '']''" p] by simp linarith
qed auto

definition redisGlobMatch :: "bytes \<Rightarrow> bytes \<Rightarrow> err + bool" where
  "redisGlobMatch pattern text = glob pattern text"

section \<open>Reference: the texts a pattern denotes\<close>

datatype token = TStar | TAny | TClass bool bytes | TLit char | TBad

function tokens :: "bytes \<Rightarrow> token list" where
  "tokens [] = []"
| "tokens (c # p) =
     (if c = CHR ''*'' then TStar # tokens p
      else if c = CHR ''?'' then TAny # tokens p
      else if c = CHR ''['' then
        (let body = takeWhile (\<lambda>x. x \<noteq> CHR '']'') p; rest = dropWhile (\<lambda>x. x \<noteq> CHR '']'') p in
         if rest = [] then [TBad]
         else if body \<noteq> [] \<and> hd body = CHR ''^'' then TClass True (tl body) # tokens (tl rest)
         else TClass False body # tokens (tl rest))
      else if c = CHR 0x5C then
        (if p = [] then [TBad] else TLit (hd p) # tokens (tl p))
      else TLit c # tokens p)"
  by pat_completeness auto
termination
proof (relation "measure length", goal_cases)
  case (4 c p x xa)
  then show ?case using length_dropWhile_le [of "\<lambda>x. x \<noteq> CHR '']''" p] by simp
next
  case (5 c p x xa)
  then show ?case using length_dropWhile_le [of "\<lambda>x. x \<noteq> CHR '']''" p] by simp
qed auto

text \<open>
  A class is a list of ranges, where a byte that is not an end of a range stands for itself
  alone; it denotes the bytes in one of the ranges, or those in none.
\<close>

fun class_ranges :: "bytes \<Rightarrow> (char \<times> char) list" where
  "class_ranges [] = []"
| "class_ranges [a] = [(a, a)]"
| "class_ranges [a, b] = [(a, a), (b, b)]"
| "class_ranges (a # m # b # rest) =
     (if m = CHR ''-'' then (a, b) # class_ranges rest else (a, a) # class_ranges (m # b # rest))"

definition class_bytes :: "bytes \<Rightarrow> char set" where
  "class_bytes body = (\<Union>(a, b) \<in> set (class_ranges body). {a..b})"

primrec lang :: "token list \<Rightarrow> bytes set" where
  "lang [] = {[]}"
| "lang (t # ts) =
     (case t of
        TStar \<Rightarrow> {u @ v | u v. v \<in> lang ts}
      | TAny \<Rightarrow> {c # v | c v. v \<in> lang ts}
      | TClass neg body \<Rightarrow> {c # v | c v. (c \<in> class_bytes body) \<noteq> neg \<and> v \<in> lang ts}
      | TLit c \<Rightarrow> {c # v | v. v \<in> lang ts}
      | TBad \<Rightarrow> {})"

section \<open>Lemmas\<close>

declare glob.simps [simp del] glob_star.simps [simp del] tokens.simps(2) [simp del]

lemma class_bytes_match [simp]: "c \<in> class_bytes body \<longleftrightarrow> class_match body c"
  by (induction body rule: class_ranges.induct) (auto simp: class_bytes_def)

lemma tokens_star [simp]: "tokens (CHR ''*'' # p) = TStar # tokens p"
  by (simp add: tokens.simps(2))

lemma lang_star_star: "lang (TStar # TStar # ts) = lang (TStar # ts)"
proof -
  have "\<exists>u v. x = u @ v \<and> v \<in> lang ts" if "x = u @ v" "v = u' @ v'" "v' \<in> lang ts" for x u v u' v'
    using that by (intro exI [of _ "u @ u'"] exI [of _ v']) simp
  moreover have "\<exists>u v. x = u @ v \<and> (\<exists>u' v'. v = u' @ v' \<and> v' \<in> lang ts)"
    if "x = u @ v" "v \<in> lang ts" for x u v
    using that by (intro exI [of _ "[]"] exI [of _ x]) auto
  ultimately show ?thesis by auto
qed

lemma lang_star_drop:
  "lang (TStar # tokens p) = lang (TStar # tokens (dropWhile (\<lambda>x. x = CHR ''*'') p))"
proof (induction p)
  case Nil
  then show ?case by simp
next
  case (Cons c p)
  show ?case
  proof (cases "c = CHR ''*''")
    case True
    then have "lang (TStar # tokens (c # p)) = lang (TStar # TStar # tokens p)" by simp
    also have "\<dots> = lang (TStar # tokens p)" by (rule lang_star_star)
    finally show ?thesis using True by (simp only: Cons.IH dropWhile.simps if_True refl)
  next
    case False
    then show ?thesis by simp
  qed
qed

lemma tokens_drop: "TBad \<notin> set (tokens p) \<Longrightarrow> TBad \<notin> set (tokens (dropWhile (\<lambda>x. x = CHR ''*'') p))"
proof (induction p)
  case (Cons c p)
  then show ?case by (cases "c = CHR ''*''") auto
qed simp

lemma lang_star_step:
  "s \<in> lang (TStar # ts) \<longleftrightarrow> s \<in> lang ts \<or> (s \<noteq> [] \<and> tl s \<in> lang (TStar # ts))"
proof (cases s)
  case Nil
  then show ?thesis by simp
next
  case (Cons c s')
  have "(\<exists>u v. c # s' = u @ v \<and> v \<in> lang ts) \<longleftrightarrow>
      c # s' \<in> lang ts \<or> (\<exists>u v. s' = u @ v \<and> v \<in> lang ts)"
    by (auto simp: Cons_eq_append_conv)
  with Cons show ?thesis by simp
qed

text \<open>The cases of a star and of a class, with what the induction gives for the rest of the pattern.\<close>

lemma glob_at_star:
  fixes p :: bytes
  defines "p' \<equiv> dropWhile (\<lambda>x. x = CHR ''*'') p"
  assumes "TBad \<notin> set (tokens p)"
    and IH: "p' \<noteq> [] \<Longrightarrow> TBad \<notin> set (tokens p') \<Longrightarrow> glob_star p' s = Inr (s \<in> lang (TStar # tokens p'))"
  shows "glob (CHR ''*'' # p) s = Inr (s \<in> lang (tokens (CHR ''*'' # p)))"
proof -
  from assms(2) have ok: "TBad \<notin> set (tokens p')" unfolding p'_def by (rule tokens_drop)
  have "glob (CHR ''*'' # p) s = (if p' = [] then Inr True else glob_star p' s)"
    by (simp add: glob.simps(2) Let_def p'_def)
  also have "\<dots> = Inr (s \<in> lang (TStar # tokens p'))"
  proof (cases "p' = []")
    case True
    show ?thesis by (simp only: True if_True) simp
  next
    case False
    with IH [OF False ok] show ?thesis by (simp only: if_False)
  qed
  finally show ?thesis by (simp only: tokens_star lang_star_drop [of p] p'_def)
qed

lemma glob_at_class:
  fixes p :: bytes
  defines "body \<equiv> takeWhile (\<lambda>x. x \<noteq> CHR '']'') p" and "rest \<equiv> dropWhile (\<lambda>x. x \<noteq> CHR '']'') p"
  assumes "TBad \<notin> set (tokens (CHR ''['' # p))"
    and IH: "\<And>ch s'. s = ch # s' \<Longrightarrow> rest \<noteq> [] \<Longrightarrow> TBad \<notin> set (tokens (tl rest)) \<Longrightarrow>
      class_match (if body \<noteq> [] \<and> hd body = CHR ''^'' then tl body else body) ch
        \<noteq> (body \<noteq> [] \<and> hd body = CHR ''^'') \<Longrightarrow>
      glob (tl rest) s' = Inr (s' \<in> lang (tokens (tl rest)))"
  shows "glob (CHR ''['' # p) s = Inr (s \<in> lang (tokens (CHR ''['' # p)))"
proof -
  from assms(3) have rest: "rest \<noteq> []" and ok: "TBad \<notin> set (tokens (tl rest))"
    unfolding rest_def by (simp_all only: tokens.simps(2) Let_def) (auto split: if_splits)
  show ?thesis
  proof (cases s)
    case Nil
    with rest show ?thesis unfolding rest_def by (simp only: glob.simps(2) tokens.simps(2) Let_def) simp
  next
    case (Cons ch s')
    from IH [OF Cons rest ok] rest Cons show ?thesis unfolding rest_def body_def
      by (simp only: glob.simps(2) tokens.simps(2) Let_def) simp
  qed
qed

lemma glob_lang:
  "TBad \<notin> set (tokens p) \<Longrightarrow> glob p s = Inr (s \<in> lang (tokens p))"
  and glob_star_lang:
  "TBad \<notin> set (tokens p) \<Longrightarrow> glob_star p s = Inr (s \<in> lang (TStar # tokens p))"
proof (induction p s and p s rule: glob_glob_star.induct)
  case (1 s)
  then show ?case by (simp add: glob.simps)
next
  case (2 c p s)
  consider (star) "c = CHR ''*''" | (any) "c = CHR ''?''" | (cls) "c = CHR ''[''"
    | (esc) "c = CHR 0x5C" | (lit) "c \<notin> {CHR ''*'', CHR ''?'', CHR ''['', CHR 0x5C}"
    by blast
  then show ?case
  proof cases
    case star
    have "TBad \<notin> set (tokens p)" using "2.prems" star by simp
    then show ?thesis unfolding star by (rule glob_at_star) (rule "2.IH"(1) [OF star refl])
  next
    case any
    with "2.IH"(2) "2.prems" show ?thesis
      by (cases s) (simp_all add: glob.simps(2) tokens.simps(2))
  next
    case cls
    let ?body = "takeWhile (\<lambda>x. x \<noteq> CHR '']'') p" and ?rest = "dropWhile (\<lambda>x. x \<noteq> CHR '']'') p"
    have "glob (tl ?rest) s' = Inr (s' \<in> lang (tokens (tl ?rest)))"
      if "s = ch # s'" "?rest \<noteq> []" "TBad \<notin> set (tokens (tl ?rest))"
        "class_match (if ?body \<noteq> [] \<and> hd ?body = CHR ''^'' then tl ?body else ?body) ch
          \<noteq> (?body \<noteq> [] \<and> hd ?body = CHR ''^'')" for ch s'
      using "2.IH"(3) [OF _ _ cls refl refl that(2,1) refl refl _ that(3)] that(4) cls by simp
    with "2.prems" show ?thesis unfolding cls by (rule glob_at_class)
  next
    case esc
    with "2.IH"(4) "2.prems" show ?thesis
      by (cases s; cases p) (simp_all add: glob.simps(2) tokens.simps(2))
  next
    case lit
    with "2.IH"(5) "2.prems" show ?thesis
      by (cases s; cases "c = hd s") (simp_all add: glob.simps(2) tokens.simps(2))
  qed
next
  case (3 p s)
  with lang_star_step [of s "tokens p"] show ?case
    by (cases s) (subst glob_star.simps, simp del: lang.simps(2))+
qed

section \<open>Properties\<close>

text \<open>
  C12: on a pattern whose classes are closed and whose escapes are complete the matcher
  answers, without error and for every text, exactly whether the text is one of those the
  pattern denotes. The matcher backtracks over stars; this says it misses no match.
\<close>

theorem redisGlobMatch_decides_language:
  "TBad \<notin> set (tokens pattern) \<Longrightarrow> redisGlobMatch pattern txt = Inr (txt \<in> lang (tokens pattern))"
  by (simp add: redisGlobMatch_def glob_lang)

theorem redisGlobMatch_decides_language_witness:
  "TBad \<notin> set (tokens ''h[a-f^]*?o'') \<and>
   redisGlobMatch ''h[a-f^]*?o'' ''hello'' = Inr (''hello'' \<in> lang (tokens ''h[a-f^]*?o'')) \<and>
   redisGlobMatch ''h[a-f^]*?o'' ''hello'' = Inr True"
proof (intro conjI)
  show ok: "TBad \<notin> set (tokens ''h[a-f^]*?o'')" by code_simp
  show "redisGlobMatch ''h[a-f^]*?o'' ''hello'' = Inr (''hello'' \<in> lang (tokens ''h[a-f^]*?o''))"
    by (rule redisGlobMatch_decides_language [OF ok])
  show "redisGlobMatch ''h[a-f^]*?o'' ''hello'' = Inr True" by code_simp
qed

end
