(* ===== verification/Badger.thy ===== *)
theory Badger
  imports Prelude
begin

text \<open>
  The storage engine (\<open>github.com/dgraph-io/badger/v4\<close>) as the store package sees it.
  Its code is not part of the repository, so it is a parameter: a record of the calls the
  program makes on a database and on a transaction, passed to every definition that
  makes them. Two locales state what the program relies on, from Badger's
  documentation: what a read returns after the writes before it, that an expired entry
  reads as absent, that an iterator yields the live keys in byte order, and that a commit
  makes what the transaction saw the state of the next one.

  Time is the reading of \<open>time.Now()\<close> in nanoseconds since the epoch. One command
  reads the clock once: the calls it makes are taken to happen at one instant.
\<close>

section \<open>Entries, items, the calls\<close>

text \<open>What \<open>txn.Get\<close> returns: the stored bytes and \<open>ExpiresAt\<close> (0: no expiry).\<close>

record item =
  it_val :: bytes
  it_exp :: "64 word"

record entry =
  e_key :: bytes
  e_val :: bytes
  e_exp :: "64 word"

text \<open>
  \<open>b_get\<close> is \<open>txn.Get\<close> at a time, \<open>b_set\<close> is \<open>txn.SetEntry\<close>, \<open>b_del\<close> is
  \<open>txn.Delete\<close>, \<open>b_del_item\<close> is \<open>txn.Delete(item.Key())\<close> on the current item of an
  iterator, \<open>b_keys\<close> lists the keys an iterator made at that time visits from its
  first to its last, \<open>b_copy\<close> is \<open>item.ValueCopy(nil)\<close>, \<open>b_ttl\<close> is the expiry
  \<open>WithTTL\<close> computes from the time and a duration, and \<open>b_begin\<close> and \<open>b_commit\<close> are
  what \<open>View\<close> and \<open>Update\<close> do around the function they run.
\<close>

record ('d, 't) badger =
  b_get :: "int \<Rightarrow> bytes \<Rightarrow> 't \<Rightarrow> err + item"
  b_set :: "entry \<Rightarrow> ('t, unit) tx"
  b_del :: "bytes \<Rightarrow> ('t, unit) tx"
  b_del_item :: "bytes \<Rightarrow> ('t, unit) tx"
  b_keys :: "int \<Rightarrow> 't \<Rightarrow> bytes list"
  b_copy :: "item \<Rightarrow> err + bytes option"
  b_ttl :: "int \<Rightarrow> int \<Rightarrow> 64 word"
  b_begin :: "'d \<Rightarrow> 't"
  b_commit :: "'t \<Rightarrow> 'd \<Rightarrow> err + 'd"

definition NewEntry :: "bytes \<Rightarrow> bytes \<Rightarrow> entry" where
  "NewEntry k v = \<lparr>e_key = k, e_val = v, e_exp = 0\<rparr>"

definition WithTTL :: "('d, 't) badger \<Rightarrow> int \<Rightarrow> int \<Rightarrow> entry \<Rightarrow> entry" where
  "WithTTL B tm dur e = e\<lparr>e_exp := b_ttl B tm dur\<rparr>"

text \<open>\<open>db.View\<close>: run a read-only function on a snapshot.\<close>

definition db_view :: "('d, 't) badger \<Rightarrow> ('t \<Rightarrow> 'a) \<Rightarrow> 'd \<Rightarrow> 'a" where
  "db_view B f d = f (b_begin B d)"

text \<open>
  \<open>db.Update\<close>: run the function on a fresh transaction; if it returns an error the
  transaction is discarded and the error returned, otherwise the transaction is
  committed and an error of the commit returned.
\<close>

definition db_update :: "('d, 't) badger \<Rightarrow> ('t, 'a) tx \<Rightarrow> 'd \<Rightarrow> (err + 'a) \<times> 'd" where
  "db_update B f d =
     (case f (b_begin B d) of
        (Inl e, t) \<Rightarrow> (Inl e, d)
      | (Inr x, t) \<Rightarrow>
          (case b_commit B t d of Inl e \<Rightarrow> (Inl e, d) | Inr d' \<Rightarrow> (Inr x, d')))"

text \<open>
  An iterator over the keys in order: \<open>Seek\<close> moves to the first key not below the given
  one; the loop body runs while the key has the prefix.
\<close>

definition seek :: "bytes \<Rightarrow> bytes list \<Rightarrow> bytes list" where
  "seek p ks = dropWhile (\<lambda>k. k < p) ks"

definition scan_prefix :: "bytes \<Rightarrow> bytes list \<Rightarrow> bytes list" where
  "scan_prefix p ks = takeWhile (\<lambda>k. prefix p k) (seek p ks)"

text \<open>The same with the iterator option \<open>Reverse\<close>, over the keys from last to first.\<close>

definition seek_rev :: "bytes \<Rightarrow> bytes list \<Rightarrow> bytes list" where
  "seek_rev p ks = dropWhile (\<lambda>k. p < k) (rev ks)"

text \<open>Whether an item counts as expired at a time.\<close>

definition unix_sec :: "int \<Rightarrow> int" where
  "unix_sec tm = tm div 1000000000"

definition exp_passed :: "int \<Rightarrow> 64 word \<Rightarrow> bool" where
  "exp_passed tm x \<longleftrightarrow> x \<noteq> 0 \<and> x \<le> word_of_int (unix_sec tm)"

definition live :: "int \<Rightarrow> item option \<Rightarrow> item option" where
  "live tm oi = (case oi of None \<Rightarrow> None | Some it \<Rightarrow> if exp_passed tm (it_exp it) then None else Some it)"

section \<open>The contract\<close>

text \<open>
  \<open>contents t\<close> is what a transaction sees: the snapshot it started from, overlaid with
  its own writes, expired entries included. A failed write changes nothing.

  A transaction keeps a reference to the key it is asked to delete, and an iterator uses the
  memory of an item's key again for a later item. So after \<open>txn.Delete(item.Key())\<close> it is open
  whether the key is gone: the contract says only that the transaction sees every other key as
  before. When the transaction is committed, the reference may have become another key of the
  same length, an effect the law for the commit leaves out. The program makes this call for the
  keys of scripts, which have 47 bytes.
\<close>

locale badger_txn =
  fixes B :: "('d, 't) badger" and contents :: "'t \<Rightarrow> bytes \<Rightarrow> item option"
  assumes get_live: "live tm (contents t k) = Some it \<Longrightarrow> b_get B tm k t = Inr it"
    and get_dead: "live tm (contents t k) = None \<Longrightarrow> b_get B tm k t = Inl ErrKeyNotFound"
    and set_contents: "fst (b_set B e t) = Inr () \<Longrightarrow>
       contents (snd (b_set B e t)) = (contents t)(e_key e \<mapsto> \<lparr>it_val = e_val e, it_exp = e_exp e\<rparr>)"
    and set_failed: "fst (b_set B e t) = Inl x \<Longrightarrow> contents (snd (b_set B e t)) = contents t"
    and del_contents: "fst (b_del B k t) = Inr () \<Longrightarrow>
       contents (snd (b_del B k t)) = (contents t)(k := None)"
    and del_failed: "fst (b_del B k t) = Inl x \<Longrightarrow> contents (snd (b_del B k t)) = contents t"
    and del_item_other: "k' \<noteq> k \<Longrightarrow> contents (snd (b_del_item B k t)) k' = contents t k'"
    and keys_live: "set (b_keys B tm t) = {k. live tm (contents t k) \<noteq> None}"
    and keys_sorted: "sorted (b_keys B tm t)" and keys_distinct: "distinct (b_keys B tm t)"
    and copy_value: "b_copy B it = Inr v \<Longrightarrow> slice v = it_val it"
    and commit_contents: "b_commit B t d = Inr d' \<Longrightarrow> contents (b_begin B d') = contents t"
begin

lemma b_get_eq:
  "b_get B tm k t =
     (case live tm (contents t k) of None \<Rightarrow> Inl ErrKeyNotFound | Some it \<Rightarrow> Inr it)"
  by (cases "live tm (contents t k)") (simp_all add: get_live get_dead)

text \<open>After an \<open>Update\<close> the database is the old one, or what the transaction saw at its end.\<close>

lemma db_update_cases:
  assumes "db_update B f d = (r, d')"
  obtains (unchanged) e where "r = Inl e" and "d' = d"
  | (committed) x where "r = Inr x" and "fst (f (b_begin B d)) = Inr x"
      and "contents (b_begin B d') = contents (snd (f (b_begin B d)))"
  using assms commit_contents by (auto simp: db_update_def split: prod.splits sum.splits)

end

text \<open>
  The contract of a run without storage faults but with Badger's limit on the size of a
  transaction: a transaction counts its deletes, one that has reached the limit takes no more
  of them (\<open>ErrTxnTooBig\<close>), and one within the limit can be committed. A delete does not look
  the key up, so it never fails because the key is missing.
\<close>

locale badger_bounded = badger_txn B contents
  for B :: "('d, 't) badger" and contents :: "'t \<Rightarrow> bytes \<Rightarrow> item option" +
  fixes used :: "'t \<Rightarrow> nat" and limit :: nat
  assumes begin_used: "used (b_begin B d) = 0"
    and del_counts: "fst (b_del B k t) = Inr () \<Longrightarrow> used (snd (b_del B k t)) = Suc (used t)"
    and del_limit: "fst (b_del B k t) = Inr () \<longleftrightarrow> used t < limit"
    and del_error: "fst (b_del B k t) \<noteq> Inl ErrKeyNotFound"
    and commit_limit: "used t \<le> limit \<Longrightarrow> \<exists>d'. b_commit B t d = Inr d'"

text \<open>
  The contract of a run without storage faults: writes, deletes and copies go through
  (no I/O error, keys, values and transaction within Badger's size limits), and so do
  commits (no conflict: the state machine is the only writer).
\<close>

locale badger_live = badger_txn +
  assumes set_ok: "fst (b_set B e t) = Inr ()"
    and del_ok: "fst (b_del B k t) = Inr ()"
    and copy_ok: "\<exists>v. b_copy B it = Inr v"
    and commit_ok: "\<exists>d'. b_commit B t d = Inr d'"
begin

lemma set_view [simp]:
  "contents (snd (b_set B e t)) = (contents t)(e_key e \<mapsto> \<lparr>it_val = e_val e, it_exp = e_exp e\<rparr>)"
  by (simp add: set_contents set_ok)

lemma del_view [simp]: "contents (snd (b_del B k t)) = (contents t)(k := None)"
  by (simp add: del_contents del_ok)

lemmas calls_ok [simp] = set_ok del_ok

text \<open>A committed update is what the next transaction starts from.\<close>

lemma db_update_commits:
  assumes "f (b_begin B d) = (Inr x, t)"
  shows "\<exists>d'. db_update B f d = (Inr x, d') \<and> contents (b_begin B d') = contents t"
  using assms commit_ok [of t d] commit_contents [of t d] by (auto simp: db_update_def)

end

section \<open>Lemmas: scans over sorted keys\<close>

lemma live_simps [simp]:
  "live tm None = None"
  "exp_passed tm (it_exp it) \<Longrightarrow> live tm (Some it) = None"
  "\<not> exp_passed tm (it_exp it) \<Longrightarrow> live tm (Some it) = Some it"
  by (simp_all add: live_def)

lemma live_SomeD: "live tm oi = Some it \<Longrightarrow> oi = Some it \<and> \<not> exp_passed tm (it_exp it)"
  by (auto simp: live_def split: option.splits if_splits)

lemma exp_passed_0 [simp]: "\<not> exp_passed tm 0"
  by (simp add: exp_passed_def)

lemma prefix_le: "prefix p (k :: bytes) \<Longrightarrow> p \<le> k"
proof (induction p arbitrary: k)
  case Nil
  then show ?case by simp
next
  case (Cons c p)
  then show ?case by (cases k) simp_all
qed

lemma takeWhile_sorted_filter:
  "sorted ks \<Longrightarrow> (\<And>x y. x \<in> set ks \<Longrightarrow> y \<in> set ks \<Longrightarrow> x \<le> y \<Longrightarrow> P y \<Longrightarrow> P x) \<Longrightarrow>
   takeWhile P ks = filter P ks"
proof (induction ks)
  case Nil
  then show ?case by simp
next
  case (Cons k ks)
  have IH: "takeWhile P ks = filter P ks"
  proof (rule Cons.IH)
    show "sorted ks" using Cons.prems(1) by simp
    show "P x" if "x \<in> set ks" "y \<in> set ks" "x \<le> y" "P y" for x y
      using Cons.prems(2) [of x y] that by simp
  qed
  have "\<not> P y" if "\<not> P k" "y \<in> set ks" for y
    using Cons.prems(1) Cons.prems(2) [of k y] that by auto
  then show ?case by (simp add: IH)
qed

lemma dropWhile_sorted_filter:
  "sorted ks \<Longrightarrow> dropWhile (\<lambda>k. k < p) ks = filter (\<lambda>k. p \<le> k) ks" for p :: "'a::linorder"
proof (induction ks)
  case Nil
  then show ?case by simp
next
  case (Cons k ks)
  show ?case
  proof (cases "k < p")
    case True
    with Cons show ?thesis by simp
  next
    case False
    with Cons.prems have "\<forall>y \<in> set (k # ks). p \<le> y" by auto
    with False show ?thesis by (simp add: filter_id_conv)
  qed
qed

text \<open>Between two keys with a prefix there are only keys with that prefix.\<close>

lemma prefix_between:
  "prefix p y \<Longrightarrow> p \<le> x \<Longrightarrow> x \<le> y \<Longrightarrow> prefix p (x :: bytes)"
proof (induction p arbitrary: x y)
  case Nil
  then show ?case by simp
next
  case (Cons c p)
  from Cons.prems(1) obtain y' where y: "y = c # y'" and p: "prefix p y'" by (cases y) auto
  from Cons.prems(2) obtain d x' where x: "x = d # x'" by (cases x) auto
  from Cons.prems(2,3) have "c = d" and "p \<le> x'" and "x' \<le> y'"
    by (auto simp: x y)
  with Cons.IH [OF p] show ?case by (simp add: x)
qed

lemma scan_prefix_filter:
  assumes "sorted ks"
  shows "scan_prefix p ks = filter (prefix p) ks"
proof -
  let ?ks = "filter (\<lambda>k. p \<le> k) ks"
  have sorted: "sorted ?ks" using sorted_filter [of id ks] assms by simp
  have "scan_prefix p ks = takeWhile (prefix p) ?ks"
    by (simp add: scan_prefix_def seek_def dropWhile_sorted_filter assms)
  also have "\<dots> = filter (prefix p) ?ks"
    by (rule takeWhile_sorted_filter [OF sorted]) (simp add: prefix_between)
  also have "\<dots> = filter (\<lambda>k. prefix p k \<and> p \<le> k) ks" by (simp add: conj_commute)
  also have "\<dots> = filter (prefix p) ks" by (rule filter_cong) (simp_all add: prefix_le conj_absorb cong: conj_cong)
  finally show ?thesis .
qed

end
