(* ===== verification/KeyLayout.thy ===== *)
theory KeyLayout
  imports Badger
begin

text \<open>
  The layout of the one Badger database the program uses for everything: user values
  under \<open>K\<close>, their type names under \<open>T\<close>, Raft log entries under \<open>L\<close> with a
  big-endian index, Raft's stable store under \<open>S\<close>, and Lua scripts under \<open>SCRIPT:\<close>
  (\<open>store/fsm.go\<close>, \<open>store/raft_store.go\<close>, \<open>store/lua.go\<close>). The lemmas say that the
  regions are disjoint, that every encoding is injective, and that log keys sort as
  their indices do.
\<close>

definition prefixUser :: char where "prefixUser = CHR ''K''"
definition prefixType :: char where "prefixType = CHR ''T''"
definition prefixLog :: bytes where "prefixLog = ''L''"
definition prefixStable :: bytes where "prefixStable = ''S''"
definition scriptPrefix :: bytes where "scriptPrefix = ''SCRIPT:''"

definition userKey :: "bytes \<Rightarrow> bytes" where
  "userKey key = prefixUser # key"

definition typeKey :: "bytes \<Rightarrow> bytes" where
  "typeKey key = prefixType # key"

text \<open>\<open>binary.BigEndian.PutUint64\<close> and \<open>Uint64\<close>; the latter panics on a short slice.\<close>

definition PutUint64 :: "64 word \<Rightarrow> bytes" where
  "PutUint64 v = map (\<lambda>s. char_of (unat (drop_bit s v))) [56, 48, 40, 32, 24, 16, 8, 0]"

definition be_val :: "bytes \<Rightarrow> nat" where
  "be_val b = foldl (\<lambda>a c. a * 256 + of_char c) 0 b"

definition Uint64 :: "bytes \<Rightarrow> err + 64 word" where
  "Uint64 b = (if length b < 8 then Inl (GoPanic ''index out of range'')
               else Inr (of_nat (be_val (take 8 b))))"

definition logKey :: "64 word \<Rightarrow> bytes" where
  "logKey index = hd prefixLog # PutUint64 index"

definition stableKey :: "bytes \<Rightarrow> bytes" where
  "stableKey key = hd prefixStable # key"

definition getScriptKey :: "bytes \<Rightarrow> bytes" where
  "getScriptKey sha = scriptPrefix @ sha"

section \<open>Key regions\<close>

text \<open>A region of the database: an injective encoding whose keys start with a tag byte.\<close>

locale key_region =
  fixes enc :: "'k \<Rightarrow> bytes" and tag :: char
  assumes enc_tag: "\<exists>s. enc k = tag # s"
    and enc_inj: "enc a = enc b \<Longrightarrow> a = b"
begin

lemma enc_eq_iff: "enc a = enc b \<longleftrightarrow> a = b"
  using enc_inj by blast

lemma enc_prefix: "prefix [tag] (enc k)"
  using enc_tag [of k] by auto

text \<open>Writing at one key of the region leaves the others alone.\<close>

lemma upd_other: "a \<noteq> b \<Longrightarrow> (m(enc a := x)) (enc b) = m (enc b)"
  by (auto dest: enc_inj)

end

locale two_regions = one: key_region enc1 tag1 + two: key_region enc2 tag2
  for enc1 :: "'k \<Rightarrow> bytes" and tag1 and enc2 :: "'l \<Rightarrow> bytes" and tag2 +
  assumes tags_differ: "tag1 \<noteq> tag2"
begin

lemma enc_disjoint: "enc1 a \<noteq> enc2 b"
  using one.enc_tag [of a] two.enc_tag [of b] tags_differ by auto

lemma upd_first: "(m(enc1 a := x)) (enc2 b) = m (enc2 b)"
  using enc_disjoint [of a b] by simp

lemma upd_second: "(m(enc2 b := x)) (enc1 a) = m (enc1 a)"
  using enc_disjoint [of a b] by simp

lemma not_prefix: "\<not> prefix [tag2] (enc1 a)" "\<not> prefix [tag1] (enc2 b)"
  using one.enc_tag [of a] two.enc_tag [of b] tags_differ by auto

end

section \<open>Lemmas: big-endian integers\<close>

fun be_bytes :: "nat \<Rightarrow> nat \<Rightarrow> bytes" where
  "be_bytes 0 n = []"
| "be_bytes (Suc k) n = be_bytes k (n div 256) @ [char_of n]"

lemma length_be_bytes [simp]: "length (be_bytes k n) = k"
  by (induction k arbitrary: n) simp_all

lemma be_val_snoc: "be_val (b @ [c]) = be_val b * 256 + of_char c"
  by (simp add: be_val_def)

lemma be_val_be_bytes: "be_val (be_bytes k n) = n mod 256 ^ k"
proof (induction k arbitrary: n)
  case 0
  then show ?case by (simp add: be_val_def)
next
  case (Suc k)
  have "be_val (be_bytes (Suc k) n) = (n div 256) mod 256 ^ k * 256 + n mod 256"
    by (simp add: be_val_snoc Suc.IH)
  also have "\<dots> = n mod 256 ^ Suc k"
    using mod_mult2_eq [of n 256 "256 ^ k"] by (simp add: mult.commute)
  finally show ?case .
qed

lemma PutUint64_be_bytes: "PutUint64 v = be_bytes 8 (unat v)"
proof -
  have "be_bytes (Suc (Suc (Suc (Suc (Suc (Suc (Suc (Suc 0)))))))) n =
      map (\<lambda>s. char_of (n div 2 ^ s)) [56, 48, 40, 32, 24, 16, 8, 0]" for n
    by (simp flip: div_mult2_eq)
  moreover have "8 = Suc (Suc (Suc (Suc (Suc (Suc (Suc (Suc 0)))))))" by simp
  moreover have "unat (drop_bit s v) = unat v div 2 ^ s" for s
    by (subst unat_drop_bit_eq) (rule drop_bit_eq_div)
  ultimately show ?thesis by (simp only: PutUint64_def)
qed

lemma length_PutUint64 [simp]: "length (PutUint64 v) = 8"
  by (simp add: PutUint64_def)

lemma be_val_PutUint64 [simp]: "be_val (PutUint64 v) = unat v"
proof -
  have "unat v < 2 ^ LENGTH(64)" by (rule unsigned_less)
  then show ?thesis by (simp add: PutUint64_be_bytes be_val_be_bytes)
qed

lemma be_val_Cons: "be_val (c # b) = of_char c * 256 ^ length b + be_val b"
proof (induction b rule: rev_induct)
  case Nil
  then show ?case by (simp add: be_val_def)
next
  case (snoc d b)
  have "be_val ((c # b) @ [d]) = be_val (c # b) * 256 + of_char d" by (rule be_val_snoc)
  then show ?case by (simp add: snoc.IH be_val_snoc algebra_simps)
qed

lemma be_val_bound: "be_val b < 256 ^ length b"
proof (induction b)
  case Nil
  then show ?case by (simp add: be_val_def)
next
  case (Cons c b)
  have "be_val (c # b) < of_char c * 256 ^ length b + 256 ^ length b"
    using Cons by (simp add: be_val_Cons)
  also have "\<dots> = (of_char c + 1) * 256 ^ length b" by simp
  also have "\<dots> \<le> 256 * 256 ^ length b"
    by (intro mult_le_mono1) (use nat_of_char_less_256 [of c] in linarith)
  finally show ?case by simp
qed

lemma be_val_less:
  "length a = length b \<Longrightarrow> a < b \<longleftrightarrow> be_val a < be_val b"
proof (induction a b rule: list_induct2)
  case Nil
  then show ?case by simp
next
  case (Cons x xs y ys)
  let ?m = "256 ^ length xs :: nat"
  have bx: "be_val xs < ?m" using be_val_bound [of xs] .
  have by': "be_val ys < ?m" using be_val_bound [of ys] Cons.hyps by simp
  have lt: "of_char x * ?m + be_val xs < of_char y * ?m + be_val ys"
    if "(of_char x :: nat) < of_char y"
  proof -
    have "(of_char x + 1) * ?m \<le> of_char y * ?m" using that by (intro mult_le_mono1) simp
    with bx show ?thesis by simp
  qed
  have gt: "of_char y * ?m + be_val ys < of_char x * ?m + be_val xs"
    if "(of_char y :: nat) < of_char x"
  proof -
    have "(of_char y + 1) * ?m \<le> of_char x * ?m" using that by (intro mult_le_mono1) simp
    with by' show ?thesis by simp
  qed
  consider "(of_char x :: nat) < of_char y" | "(of_char y :: nat) < of_char x" | "x = y"
    by (metis linorder_neqE_nat of_char_eq_iff)
  then show ?case
    by cases (use lt gt Cons in \<open>auto simp: be_val_Cons less_char_def\<close>)
qed

section \<open>The regions of the database\<close>

interpretation user: key_region userKey prefixUser
  by unfold_locales (simp_all add: userKey_def)

interpretation typk: key_region typeKey prefixType
  by unfold_locales (simp_all add: typeKey_def)

interpretation stable: key_region stableKey "CHR ''S''"
  by unfold_locales (simp_all add: stableKey_def prefixStable_def)

lemma PutUint64_inj: "PutUint64 a = PutUint64 b \<Longrightarrow> a = b"
  by (metis be_val_PutUint64 word_unat_eq_iff)

interpretation log: key_region logKey "CHR ''L''"
  by unfold_locales (auto simp: logKey_def prefixLog_def dest: PutUint64_inj)

interpretation script: key_region getScriptKey "CHR ''S''"
  by unfold_locales (simp_all add: getScriptKey_def scriptPrefix_def)

interpretation ut: two_regions userKey prefixUser typeKey prefixType
  by unfold_locales (simp add: prefixUser_def prefixType_def)

interpretation ul: two_regions userKey prefixUser logKey "CHR ''L''"
  by unfold_locales (simp add: prefixUser_def)

interpretation us: two_regions userKey prefixUser stableKey "CHR ''S''"
  by unfold_locales (simp add: prefixUser_def)

interpretation uc: two_regions userKey prefixUser getScriptKey "CHR ''S''"
  by unfold_locales (simp add: prefixUser_def)

interpretation tl: two_regions typeKey prefixType logKey "CHR ''L''"
  by unfold_locales (simp add: prefixType_def)

interpretation ts: two_regions typeKey prefixType stableKey "CHR ''S''"
  by unfold_locales (simp add: prefixType_def)

interpretation tc: two_regions typeKey prefixType getScriptKey "CHR ''S''"
  by unfold_locales (simp add: prefixType_def)

interpretation ls: two_regions logKey "CHR ''L''" stableKey "CHR ''S''"
  by unfold_locales simp

lemmas [simp, key_simps] =
  user.enc_eq_iff typk.enc_eq_iff stable.enc_eq_iff log.enc_eq_iff script.enc_eq_iff
  ut.enc_disjoint ut.enc_disjoint [symmetric] ul.enc_disjoint ul.enc_disjoint [symmetric]
  us.enc_disjoint us.enc_disjoint [symmetric] uc.enc_disjoint uc.enc_disjoint [symmetric]
  tl.enc_disjoint tl.enc_disjoint [symmetric] ts.enc_disjoint ts.enc_disjoint [symmetric]
  tc.enc_disjoint tc.enc_disjoint [symmetric] ls.enc_disjoint ls.enc_disjoint [symmetric]

section \<open>Log keys\<close>

lemma Uint64_logKey [simp]: "Uint64 (tl (logKey i)) = Inr i"
  by (simp add: Uint64_def logKey_def)

lemma logKey_less [simp]: "logKey a < logKey b \<longleftrightarrow> a < b"
  by (simp add: logKey_def be_val_less word_less_nat_alt)

lemma logKey_le [simp]: "logKey a \<le> logKey b \<longleftrightarrow> a \<le> b"
  by (simp add: not_less [symmetric])

end
