(* ===== verification/Strconv.thy ===== *)
theory Strconv
  imports Prelude
begin

text \<open>
  The part of Go's standard library the handlers use to read and write numbers and to
  compare option names: \<open>strconv.ParseInt(s, 10, 64)\<close>, \<open>strconv.Atoi\<close> on a 64-bit
  platform, \<open>strconv.FormatInt(v, 10)\<close>, and \<open>strings.ToUpper\<close>/\<open>ToLower\<close>.
  A parser returns the value together with the error, because several callers in
  \<open>store/fsm.go\<close> drop the error and go on with the value: 0 on a syntax error, the
  nearest bound on a range error.
\<close>

datatype num_err = NumSyntax | NumRange

definition is_digit :: "char \<Rightarrow> bool" where
  "is_digit c \<longleftrightarrow> 48 \<le> (of_char c :: nat) \<and> (of_char c :: nat) \<le> 57"

definition digit_val :: "char \<Rightarrow> nat" where
  "digit_val c = of_char c - 48"

definition digit_chr :: "nat \<Rightarrow> char" where
  "digit_chr d = char_of (48 + d)"

text \<open>
  The digit loop of \<open>strconv.ParseUint\<close>: the range check comes before the rest of the
  input is looked at, so an overlong number is a range error whatever follows.
\<close>

fun parse_uint_loop :: "nat \<Rightarrow> bytes \<Rightarrow> num_err + nat" where
  "parse_uint_loop n [] = Inr n"
| "parse_uint_loop n (c # cs) =
     (if \<not> is_digit c then Inl NumSyntax
      else if 1844674407370955162 \<le> n then Inl NumRange
      else if 18446744073709551615 < n * 10 + digit_val c then Inl NumRange
      else parse_uint_loop (n * 10 + digit_val c) cs)"

definition parse_uint :: "bytes \<Rightarrow> num_err + nat" where
  "parse_uint s = (if s = [] then Inl NumSyntax else parse_uint_loop 0 s)"

text \<open>The sign and the magnitude.\<close>

definition split_sign :: "bytes \<Rightarrow> bool \<times> bytes" where
  "split_sign s =
     (case s of [] \<Rightarrow> (False, [])
      | c # cs \<Rightarrow> if c = CHR ''+'' then (False, cs)
                  else if c = CHR ''-'' then (True, cs) else (False, s))"

definition parseInt :: "bytes \<Rightarrow> int \<times> num_err option" where
  "parseInt s =
     (if s = [] then (0, Some NumSyntax)
      else
        (let (neg, u) = split_sign s in
         case parse_uint u of
           Inl NumSyntax \<Rightarrow> (0, Some NumSyntax)
         | Inl NumRange \<Rightarrow>
             (if neg then - 9223372036854775808 else 9223372036854775807, Some NumRange)
         | Inr un \<Rightarrow>
             if \<not> neg \<and> 9223372036854775808 \<le> un then (9223372036854775807, Some NumRange)
             else if neg \<and> 9223372036854775808 < un then (- 9223372036854775808, Some NumRange)
             else (if neg then - int un else int un, None)))"

text \<open>\<open>Atoi\<close> has a loop of its own for inputs too short to overflow.\<close>

fun atoi_loop :: "nat \<Rightarrow> bytes \<Rightarrow> nat option" where
  "atoi_loop n [] = Some n"
| "atoi_loop n (c # cs) =
     (if is_digit c then atoi_loop (n * 10 + digit_val c) cs else None)"

definition atoi :: "bytes \<Rightarrow> int \<times> num_err option" where
  "atoi s =
     (if 0 < length s \<and> length s < 19 then
        (let (neg, u) = split_sign s in
         if u = [] then (0, Some NumSyntax)
         else case atoi_loop 0 u of
                None \<Rightarrow> (0, Some NumSyntax)
              | Some n \<Rightarrow> (if neg then - int n else int n, None))
      else parseInt s)"

fun format_nat :: "nat \<Rightarrow> bytes" where
  "format_nat n = (if n < 10 then [digit_chr n] else format_nat (n div 10) @ [digit_chr (n mod 10)])"

definition formatInt :: "int \<Rightarrow> bytes" where
  "formatInt v = (if v < 0 then CHR ''-'' # format_nat (nat (- v)) else format_nat (nat v))"

text \<open>
  Case mapping. On a string of ASCII bytes Go maps byte by byte; on any other string it
  decodes UTF-8 and uses the Unicode tables, which are the parameter \<open>uni\<close>.
\<close>

definition is_ascii :: "bytes \<Rightarrow> bool" where
  "is_ascii s \<longleftrightarrow> list_all (\<lambda>c. (of_char c :: nat) < 128) s"

definition upper_chr :: "char \<Rightarrow> char" where
  "upper_chr c = (if 97 \<le> (of_char c :: nat) \<and> (of_char c :: nat) \<le> 122
                  then char_of ((of_char c :: nat) - 32) else c)"

definition lower_chr :: "char \<Rightarrow> char" where
  "lower_chr c = (if 65 \<le> (of_char c :: nat) \<and> (of_char c :: nat) \<le> 90
                  then char_of ((of_char c :: nat) + 32) else c)"

definition toUpper :: "(bytes \<Rightarrow> bytes) \<Rightarrow> bytes \<Rightarrow> bytes" where
  "toUpper uni s = (if is_ascii s then map upper_chr s else uni s)"

definition toLower :: "(bytes \<Rightarrow> bytes) \<Rightarrow> bytes \<Rightarrow> bytes" where
  "toLower uni s = (if is_ascii s then map lower_chr s else uni s)"

section \<open>The text interface of integers\<close>

text \<open>
  What a client of the two conversions relies on: printing an \<open>int64\<close> and reading it
  back gives the value, and only an \<open>int64\<close> is ever read.
\<close>

locale int_text =
  fixes print :: "int \<Rightarrow> bytes" and parse :: "bytes \<Rightarrow> int \<times> num_err option"
  assumes parse_print: "in_int64 v \<Longrightarrow> parse (print v) = (v, None)"
    and parse_range: "in_int64 (fst (parse s))"
begin

text \<open>A counter kept as text: adding two deltas in turn is adding their sum, wrapping once.\<close>

lemma parse_print_wrap: "parse (print (wrap64 x)) = (wrap64 x, None)"
  by (simp add: parse_print)

lemma counter_add_add:
  "fst (parse (print (wrap64 (fst (parse (print (wrap64 (v + d)))) + e)))) = wrap64 (v + d + e)"
  by (simp add: parse_print_wrap wrap64_add_wrap)

lemma print_inj: "in_int64 v \<Longrightarrow> in_int64 w \<Longrightarrow> print v = print w \<Longrightarrow> v = w"
  by (metis parse_print prod.inject)

end

section \<open>Lemmas\<close>

declare format_nat.simps [simp del]

lemma of_char_digit_chr [simp]: "d < 10 \<Longrightarrow> (of_char (digit_chr d) :: nat) = 48 + d"
  by (simp add: digit_chr_def)

lemma digit_chr_ok [simp]: "d < 10 \<Longrightarrow> is_digit (digit_chr d)"
  by (simp add: is_digit_def)

lemma digit_val_chr [simp]: "d < 10 \<Longrightarrow> digit_val (digit_chr d) = d"
  by (simp add: digit_val_def)

lemma digit_val_lt: "is_digit c \<Longrightarrow> digit_val c < 10"
  unfolding is_digit_def digit_val_def by linarith

lemma digit_not_sign: "is_digit c \<Longrightarrow> c \<noteq> CHR ''+'' \<and> c \<noteq> CHR ''-''"
  by (auto simp: is_digit_def)

text \<open>Below the range limit both loops compute the same number.\<close>

fun dec_val :: "nat \<Rightarrow> bytes \<Rightarrow> nat" where
  "dec_val n [] = n"
| "dec_val n (c # cs) = dec_val (n * 10 + digit_val c) cs"

lemma dec_val_mono: "n \<le> dec_val n cs"
proof (induction cs arbitrary: n)
  case Nil
  then show ?case by simp
next
  case (Cons c cs)
  have "n \<le> n * 10 + digit_val c" by simp
  also have "\<dots> \<le> dec_val (n * 10 + digit_val c) cs" by (rule Cons.IH)
  finally show ?case by simp
qed

lemma dec_val_append: "dec_val n (xs @ ys) = dec_val (dec_val n xs) ys"
  by (induction xs arbitrary: n) simp_all

lemma atoi_loop_eq:
  "atoi_loop n cs = (if list_all is_digit cs then Some (dec_val n cs) else None)"
  by (induction cs arbitrary: n) simp_all

lemma parse_uint_loop_eq:
  "list_all is_digit cs \<Longrightarrow> dec_val n cs \<le> 18446744073709551615 \<Longrightarrow>
   parse_uint_loop n cs = Inr (dec_val n cs)"
proof (induction cs arbitrary: n)
  case Nil
  then show ?case by simp
next
  case (Cons c cs)
  have le: "n * 10 + digit_val c \<le> 18446744073709551615"
    using dec_val_mono [of "n * 10 + digit_val c" cs] Cons.prems(2) by simp
  then have "n < 1844674407370955162" by simp
  with le Cons show ?case by simp
qed

lemma parse_uint_loop_syntax:
  "\<not> list_all is_digit cs \<Longrightarrow> dec_val n (takeWhile is_digit cs) \<le> 18446744073709551615 \<Longrightarrow>
   parse_uint_loop n cs = Inl NumSyntax"
proof (induction cs arbitrary: n)
  case Nil
  then show ?case by simp
next
  case (Cons c cs)
  show ?case
  proof (cases "is_digit c")
    case True
    have le: "n * 10 + digit_val c \<le> 18446744073709551615"
      using dec_val_mono [of "n * 10 + digit_val c" "takeWhile is_digit cs"] Cons.prems(2) True
      by simp
    then have "n < 1844674407370955162" by simp
    with le True Cons show ?thesis by simp
  next
    case False
    then show ?thesis by simp
  qed
qed

lemma dec_val_bound: "list_all is_digit cs \<Longrightarrow> dec_val n cs < (n + 1) * 10 ^ length cs"
proof (induction cs arbitrary: n)
  case Nil
  then show ?case by simp
next
  case (Cons c cs)
  have "dec_val (n * 10 + digit_val c) cs < (n * 10 + digit_val c + 1) * 10 ^ length cs"
    using Cons by simp
  also have "\<dots> \<le> ((n + 1) * 10) * 10 ^ length cs"
    using digit_val_lt [of c] Cons.prems by (intro mult_le_mono1) simp
  finally show ?case by (simp add: algebra_simps)
qed

lemma dec_val_short:
  assumes "list_all is_digit cs" and "length cs < 19"
  shows "dec_val 0 cs < 9223372036854775808"
proof -
  have "dec_val 0 cs < 10 ^ length cs" using dec_val_bound [OF assms(1), of 0] by simp
  also have "\<dots> \<le> 10 ^ 18" using assms(2) by (intro power_increasing) simp_all
  finally show ?thesis by simp
qed

lemma split_sign_length: "length (snd (split_sign s)) \<le> length s"
  by (simp add: split_sign_def split: list.split)

lemma list_all_takeWhile: "list_all P (takeWhile P xs)"
  by (induction xs) simp_all

text \<open>The short-input path of \<open>Atoi\<close> is an optimisation: it agrees with \<open>ParseInt\<close>.\<close>

lemma atoi_eq_parseInt: "atoi s = parseInt s"
proof (cases "0 < length s \<and> length s < 19")
  case False
  then show ?thesis by (auto simp: atoi_def)
next
  case True
  obtain neg u where su: "split_sign s = (neg, u)" by fastforce
  have len: "length u < 19" using split_sign_length [of s] su True by simp
  show ?thesis
  proof (cases "list_all is_digit u")
    case d: True
    from d len have b: "dec_val 0 u < 9223372036854775808" by (rule dec_val_short)
    with d have "parse_uint_loop 0 u = Inr (dec_val 0 u)" by (simp add: parse_uint_loop_eq)
    with b d True su show ?thesis
      by (auto simp: atoi_def parseInt_def parse_uint_def atoi_loop_eq)
  next
    case nd: False
    have "length (takeWhile is_digit u) < 19"
      using length_takeWhile_le [of is_digit u] len by simp
    then have "dec_val 0 (takeWhile is_digit u) < 9223372036854775808"
      by (intro dec_val_short list_all_takeWhile)
    with nd have "parse_uint_loop 0 u = Inl NumSyntax" by (simp add: parse_uint_loop_syntax)
    with nd True su show ?thesis
      by (auto simp: atoi_def parseInt_def parse_uint_def atoi_loop_eq)
  qed
qed

lemma format_nat_digits: "list_all is_digit (format_nat n) \<and> format_nat n \<noteq> []"
proof (induction n rule: format_nat.induct)
  case (1 n)
  then show ?case by (cases "n < 10") (simp_all add: format_nat.simps [of n])
qed

lemma dec_val_format_nat: "dec_val 0 (format_nat n) = n"
proof (induction n rule: format_nat.induct)
  case (1 n)
  then show ?case
    by (cases "n < 10") (simp_all add: format_nat.simps [of n] dec_val_append)
qed

lemma split_sign_format_nat: "split_sign (format_nat n) = (False, format_nat n)"
  using format_nat_digits [of n]
  by (auto simp: split_sign_def dest: digit_not_sign split: list.split)

lemma parse_uint_format_nat:
  "n \<le> 18446744073709551615 \<Longrightarrow> parse_uint (format_nat n) = Inr n"
  using format_nat_digits [of n] by (simp add: parse_uint_def parse_uint_loop_eq dec_val_format_nat)

lemma parseInt_formatInt: "in_int64 v \<Longrightarrow> parseInt (formatInt v) = (v, None)"
proof (cases "v < 0")
  case True
  assume "in_int64 v"
  with True show ?thesis
    using format_nat_digits [of "nat (- v)"]
    by (simp add: parseInt_def formatInt_def split_sign_def parse_uint_format_nat in_int64_def)
next
  case False
  assume "in_int64 v"
  with False show ?thesis
    using format_nat_digits [of "nat v"]
    by (simp add: parseInt_def formatInt_def split_sign_format_nat parse_uint_format_nat in_int64_def)
qed

lemma parseInt_range: "in_int64 (fst (parseInt s))"
  by (auto simp: parseInt_def in_int64_def split: prod.split sum.split num_err.split)

interpretation dec: int_text formatInt parseInt
  by unfold_locales (simp_all add: parseInt_formatInt parseInt_range)

end
