(* ===== verification/FsmBase.thy ===== *)
theory FsmBase
  imports KeyLayout Strconv
begin

text \<open>
  The ground the store's commands stand on (\<open>store/fsm.go\<close>, first part, and
  \<open>store/encoding.go\<close>): the replicated command, the typed write of a value with its
  type entry and expiry, the remaining time to live, the type check, and \<open>sliceList\<close>.
  The abstract key space of this theory gives the commands their meaning: a partial map
  from user keys to typed values with an expiry.
\<close>

section \<open>Commands and the environment\<close>

record Command =
  Op :: bytes
  Key :: bytes
  Args :: "bytes list"
  TTLMs :: int
  Condition :: bytes
  ReturnOld :: bool

text \<open>
  What a command takes from outside the database: the clock, the order in which a
  \<open>range\<close> loop visits the keys of a Go map (unspecified by the language, so any
  permutation), and the third-party MessagePack codec for the two Go types the store
  encodes. \<open>mp_enc_list xs\<close> and \<open>mp_enc_map m\<close> are the bytes in the buffer after
  \<open>Encode\<close>, whose error the code drops. The last two are the Unicode case mappings of text
  that is not plain ASCII.
\<close>

record env =
  clock :: int
  range_order :: "bytes list \<Rightarrow> bytes list"
  mp_enc_list :: "bytes list \<Rightarrow> bytes"
  mp_dec_list :: "bytes \<Rightarrow> err + bytes list"
  mp_enc_map :: "gomap \<Rightarrow> bytes"
  mp_dec_map :: "bytes \<Rightarrow> err + gomap"
  uni_upper :: "bytes \<Rightarrow> bytes"
  uni_lower :: "bytes \<Rightarrow> bytes"

definition encodeMsgpack_list :: "env \<Rightarrow> bytes list \<Rightarrow> bytes" where
  "encodeMsgpack_list E v = mp_enc_list E v"

definition decodeMsgpack_list :: "env \<Rightarrow> bytes option \<Rightarrow> err + bytes list" where
  "decodeMsgpack_list E data = mp_dec_list E (slice data)"

definition encodeMsgpack_map :: "env \<Rightarrow> gomap \<Rightarrow> bytes" where
  "encodeMsgpack_map E v = mp_enc_map E v"

definition decodeMsgpack_map :: "env \<Rightarrow> bytes option \<Rightarrow> err + gomap" where
  "decodeMsgpack_map E data = mp_dec_map E (slice data)"

section \<open>Time\<close>

text \<open>\<open>time.Until(time.Unix(int64(x), 0))\<close> in nanoseconds; the difference saturates.\<close>

definition time_until :: "env \<Rightarrow> 64 word \<Rightarrow> int" where
  "time_until E x = sat64 (sint x * 1000000000 - clock E)"

definition milliseconds :: "int \<Rightarrow> int" where
  "milliseconds d = tdiv d 1000000"

text \<open>\<open>time.Duration(ms) * time.Millisecond\<close>, an \<open>int64\<close> product.\<close>

definition ms_duration :: "int \<Rightarrow> int" where
  "ms_duration ms = wrap64 (ms * 1000000)"

definition remainingTTLMs :: "env \<Rightarrow> item \<Rightarrow> int" where
  "remainingTTLMs E it =
     (if it_exp it = 0 then 0
      else (let ttl = milliseconds (time_until E (it_exp it)) in if ttl < 1 then 1 else ttl))"

section \<open>Typed values\<close>

definition setValue ::
  "('d, 't) badger \<Rightarrow> env \<Rightarrow> bytes \<Rightarrow> bytes \<Rightarrow> bytes \<Rightarrow> int \<Rightarrow> ('t, unit) tx" where
  "setValue B E key val typ ttlMs =
     (let entry = NewEntry (userKey key) val;
          typeEntry = NewEntry (typeKey key) typ;
          ttl = ms_duration ttlMs;
          entry' = (if 0 < ttlMs then WithTTL B (clock E) ttl entry else entry);
          typeEntry' = (if 0 < ttlMs then WithTTL B (clock E) ttl typeEntry else typeEntry)
      in bind (b_set B entry') (\<lambda>_. b_set B typeEntry'))"

definition getExistingType :: "('d, 't) badger \<Rightarrow> env \<Rightarrow> bytes \<Rightarrow> 't \<Rightarrow> err + bytes" where
  "getExistingType B E key t =
     (case b_get B (clock E) (typeKey key) t of
        Inl e \<Rightarrow> if e = ErrKeyNotFound then Inr ''string'' else Inl e
      | Inr item \<Rightarrow>
          (case b_copy B item of Inl e \<Rightarrow> Inl e | Inr val \<Rightarrow> Inr (slice val)))"

definition ensureExistingType ::
  "('d, 't) badger \<Rightarrow> env \<Rightarrow> bytes \<Rightarrow> bytes \<Rightarrow> 't \<Rightarrow> err + unit" where
  "ensureExistingType B E key want t =
     (case getExistingType B E key t of
        Inl e \<Rightarrow> Inl e
      | Inr typ \<Rightarrow> if typ \<noteq> want then Inl ErrWrongType else Inr ())"

text \<open>\<open>val, _ := item.ValueCopy(nil)\<close>: on an error the slice is nil.\<close>

definition copy_or_nil :: "('d, 't) badger \<Rightarrow> item \<Rightarrow> bytes option" where
  "copy_or_nil B item = (case b_copy B item of Inl _ \<Rightarrow> None | Inr val \<Rightarrow> val)"

text \<open>Removing a value and its type, errors dropped, as the collection commands do.\<close>

definition dropKey :: "('d, 't) badger \<Rightarrow> bytes \<Rightarrow> ('t, unit) tx" where
  "dropKey B key =
     bind (ignore_err (b_del B (userKey key))) (\<lambda>_. ignore_err (b_del B (typeKey key)))"

section \<open>Slicing\<close>

definition sliceList :: "bytes list \<Rightarrow> int \<Rightarrow> int \<Rightarrow> bytes list" where
  "sliceList list start stop =
     (if list = [] then []
      else
        (let n = int (length list);
             start = (if start < 0 then n + start else start);
             stop = (if stop < 0 then n + stop else stop);
             start = (if start < 0 then 0 else start);
             stop = (if n \<le> stop then n - 1 else stop)
         in if stop < start \<or> n \<le> start then []
            else take (nat (stop + 1) - nat start) (drop (nat start) list)))"

section \<open>The abstract key space\<close>

text \<open>
  A user key's value: a string, a hash, a list, a set, or bytes that do not decode as
  their type entry says (with the error that decoding gives).
\<close>

datatype rval =
    RStr bytes
  | RHash "bytes \<rightharpoonup> bytes"
  | RList "bytes list"
  | RSet "bytes set"
  | RBad bytes err

fun rtype :: "rval \<Rightarrow> bytes" where
  "rtype (RStr _) = ''string''"
| "rtype (RHash _) = ''hash''"
| "rtype (RList _) = ''list''"
| "rtype (RSet _) = ''set''"
| "rtype (RBad typ _) = typ"

definition interp :: "env \<Rightarrow> bytes \<Rightarrow> bytes \<Rightarrow> rval" where
  "interp E typ val =
     (if typ = ''string'' then RStr val
      else if typ = ''hash'' then
        (case mp_dec_map E val of Inl e \<Rightarrow> RBad typ e | Inr m \<Rightarrow> RHash (map_of m))
      else if typ = ''list'' then
        (case mp_dec_list E val of Inl e \<Rightarrow> RBad typ e | Inr xs \<Rightarrow> RList xs)
      else if typ = ''set'' then
        (case mp_dec_list E val of Inl e \<Rightarrow> RBad typ e | Inr xs \<Rightarrow> RSet (set xs))
      else RBad typ ErrWrongType)"

type_synonym keyspace = "bytes \<Rightarrow> (rval \<times> 64 word) option"

text \<open>The type name a reader sees: the live type entry, or \<open>string\<close> without one.\<close>

definition seen_type :: "env \<Rightarrow> (bytes \<Rightarrow> item option) \<Rightarrow> bytes \<Rightarrow> bytes" where
  "seen_type E c key =
     (case live (clock E) (c (typeKey key)) of None \<Rightarrow> ''string'' | Some j \<Rightarrow> it_val j)"

definition keyspace :: "env \<Rightarrow> (bytes \<Rightarrow> item option) \<Rightarrow> keyspace" where
  "keyspace E c key =
     (case live (clock E) (c (userKey key)) of
        None \<Rightarrow> None
      | Some it \<Rightarrow> Some (interp E (seen_type E c key) (it_val it), it_exp it))"

text \<open>
  Storing a value with an expiry: an expiry that has passed already makes the key
  absent at once.
\<close>

definition put :: "env \<Rightarrow> bytes \<Rightarrow> rval \<Rightarrow> 64 word \<Rightarrow> keyspace \<Rightarrow> keyspace" where
  "put E key v x m = m(key := if exp_passed (clock E) x then None else Some (v, x))"

text \<open>The expiry \<open>setValue\<close> gives, and the one an update that keeps the TTL gives.\<close>

definition set_expiry :: "('d, 't) badger \<Rightarrow> env \<Rightarrow> int \<Rightarrow> 64 word" where
  "set_expiry B E ttlMs =
     (if 0 < ttlMs then b_ttl B (clock E) (ms_duration ttlMs) else 0)"

definition kept_expiry :: "('d, 't) badger \<Rightarrow> env \<Rightarrow> 64 word \<Rightarrow> 64 word" where
  "kept_expiry B E x =
     set_expiry B E (remainingTTLMs E \<lparr>it_val = [], it_exp = x\<rparr>)"

section \<open>The environment's contract\<close>

text \<open>
  The codec gives back what it encoded (a map up to the order of its bindings) and
  decodes into a Go map, which has each key once; a \<open>range\<close> loop visits each key once.
\<close>

locale msgpack =
  fixes E :: env
  assumes list_back: "mp_dec_list E (mp_enc_list E xs) = Inr xs"
    and map_back: "distinct (map fst m) \<Longrightarrow>
       \<exists>m'. mp_dec_map E (mp_enc_map E m) = Inr m' \<and> mset m' = mset m"
    and map_keys: "mp_dec_map E b = Inr m \<Longrightarrow> distinct (map fst m)"
    and range_perm: "mset (range_order E xs) = mset xs"
begin

lemma set_range [simp]: "set (range_order E xs) = set xs"
  using range_perm by (metis set_mset_mset)

lemma distinct_range [simp]: "distinct (range_order E xs) = distinct xs"
  using range_perm by (metis mset_eq_imp_distinct_iff)

lemma length_range [simp]: "length (range_order E xs) = length xs"
  using range_perm by (metis size_mset)

lemma interp_string [simp]: "interp E ''string'' v = RStr v"
  by (simp add: interp_def)

lemma interp_list [simp]: "interp E ''list'' (mp_enc_list E xs) = RList xs"
  by (simp add: interp_def list_back)

lemma interp_set [simp]: "interp E ''set'' (mp_enc_list E xs) = RSet (set xs)"
  by (simp add: interp_def list_back)

lemma interp_hash [simp]:
  assumes "distinct (map fst m)"
  shows "interp E ''hash'' (mp_enc_map E m) = RHash (map_of m)"
  using map_back [OF assms] assms by (auto simp: interp_def dest!: mset_map_of_eq(1))

end

text \<open>The store's context: Badger without faults and the codec.\<close>

locale store = badger_live B contents + msgpack E
  for B :: "('d, 't) badger" and contents :: "'t \<Rightarrow> bytes \<Rightarrow> item option" and E :: env
begin

definition view :: "'t \<Rightarrow> keyspace" where
  "view t = keyspace E (contents t)"

end

section \<open>Lemmas: reading the key space\<close>

lemma remainingTTLMs_exp: "remainingTTLMs E it = remainingTTLMs E \<lparr>it_val = v, it_exp = it_exp it\<rparr>"
  by (simp add: remainingTTLMs_def)

lemma remainingTTLMs_nonneg: "0 \<le> remainingTTLMs E it"
  by (simp add: remainingTTLMs_def Let_def)

lemma kept_expiry_eq: "set_expiry B E (remainingTTLMs E it) = kept_expiry B E (it_exp it)"
  using remainingTTLMs_exp [of E it "[]"] by (simp add: kept_expiry_def)

lemma kept_expiry_0 [simp]: "kept_expiry B E 0 = 0"
  by (simp add: kept_expiry_def set_expiry_def remainingTTLMs_def)

lemma interp_rtype: "rtype (interp E typ v) = typ"
  by (simp add: interp_def split: sum.split)

lemma seen_type_upd_user [simp]: "seen_type E (c(userKey key := x)) key' = seen_type E c key'"
  by (simp add: seen_type_def)

lemma keyspace_upd_user:
  "keyspace E (c(userKey key \<mapsto> \<lparr>it_val = v, it_exp = x\<rparr>)) =
   put E key (interp E (seen_type E c key) v) x (keyspace E c)"
proof
  fix key'
  show "keyspace E (c(userKey key \<mapsto> \<lparr>it_val = v, it_exp = x\<rparr>)) key'
      = put E key (interp E (seen_type E c key) v) x (keyspace E c) key'"
    by (cases "exp_passed (clock E) x") (auto simp: keyspace_def put_def split: option.split)
qed

lemma keyspace_upd_type_other [simp]:
  "key \<noteq> key' \<Longrightarrow> keyspace E (c(userKey key := x, typeKey key := y)) key' = keyspace E c key'"
  by (simp add: keyspace_def seen_type_def split: option.split)

lemma keyspace_cong:
  assumes "\<And>key. c (userKey key) = c' (userKey key)" and "\<And>key. c (typeKey key) = c' (typeKey key)"
  shows "keyspace E c = keyspace E c'"
  by (rule ext) (simp add: keyspace_def seen_type_def assms split: option.split)

lemma keyspace_del: "keyspace E (c(userKey key := None, typeKey key := y)) = (keyspace E c)(key := None)"
proof
  fix key'
  show "keyspace E (c(userKey key := None, typeKey key := y)) key' = ((keyspace E c)(key := None)) key'"
    by (cases "key' = key") (simp_all, simp add: keyspace_def)
qed

lemma keyspace_set:
  "keyspace E (c(userKey key \<mapsto> \<lparr>it_val = v, it_exp = x\<rparr>, typeKey key \<mapsto> \<lparr>it_val = typ, it_exp = x\<rparr>)) =
   put E key (interp E typ v) x (keyspace E c)"
proof
  fix key'
  show "keyspace E (c(userKey key \<mapsto> \<lparr>it_val = v, it_exp = x\<rparr>,
            typeKey key \<mapsto> \<lparr>it_val = typ, it_exp = x\<rparr>)) key'
      = put E key (interp E typ v) x (keyspace E c) key'"
    by (cases "key' = key"; cases "exp_passed (clock E) x")
      (simp_all add: put_def, simp_all add: keyspace_def seen_type_def)
qed

section \<open>Lemmas: the shared steps\<close>

context store
begin

lemma get_user_None: "view t key = None \<Longrightarrow> b_get B (clock E) (userKey key) t = Inl ErrKeyNotFound"
  by (simp add: view_def keyspace_def b_get_eq split: option.splits)

lemma get_user_Some:
  assumes "view t key = Some (v, x)"
  obtains it where "b_get B (clock E) (userKey key) t = Inr it" and "it_exp it = x"
    and "v = interp E (seen_type E (contents t) key) (it_val it)"
  using assms by (auto simp: view_def keyspace_def b_get_eq split: option.splits)

lemma getExistingType_view: "getExistingType B E key t = Inr (seen_type E (contents t) key)"
proof (cases "live (clock E) (contents t (typeKey key))")
  case None
  then show ?thesis by (simp add: getExistingType_def b_get_eq seen_type_def)
next
  case (Some j)
  obtain v where v: "b_copy B j = Inr v" using copy_ok by blast
  with Some show ?thesis
    by (simp add: getExistingType_def b_get_eq seen_type_def copy_value [OF v])
qed

lemma ensureExistingType_view:
  assumes "view t key = Some (v, x)"
  shows "ensureExistingType B E key want t = (if rtype v = want then Inr () else Inl ErrWrongType)"
proof -
  from assms obtain it where "b_get B (clock E) (userKey key) t = Inr it" and "it_exp it = x"
    and "v = interp E (seen_type E (contents t) key) (it_val it)"
    by (rule get_user_Some)
  then have "rtype v = seen_type E (contents t) key" by (simp add: interp_rtype)
  then show ?thesis by (simp add: ensureExistingType_def getExistingType_view)
qed

lemma slice_copy_or_nil [simp]: "slice (copy_or_nil B it) = it_val it"
  using copy_ok [of it] copy_value [of it] by (auto simp: copy_or_nil_def)

lemma setValue_run [simp]: "fst (setValue B E key v typ ttl t) = Inr ()"
  by (simp add: setValue_def Let_def monad_simps)

lemma setValue_contents:
  "contents (snd (setValue B E key v typ ttl t)) =
     (contents t)(userKey key \<mapsto> \<lparr>it_val = v, it_exp = set_expiry B E ttl\<rparr>,
                  typeKey key \<mapsto> \<lparr>it_val = typ, it_exp = set_expiry B E ttl\<rparr>)"
  by (simp add: setValue_def Let_def monad_simps NewEntry_def WithTTL_def set_expiry_def)

lemma setValue_view [simp]:
  "view (snd (setValue B E key v typ ttl t)) =
     put E key (interp E typ v) (set_expiry B E ttl) (view t)"
  by (simp add: view_def setValue_contents keyspace_set)

lemma dropKey_run [simp]: "fst (dropKey B key t) = Inr ()"
  by (simp add: dropKey_def monad_simps)

lemma dropKey_contents:
  "contents (snd (dropKey B key t)) = (contents t)(userKey key := None, typeKey key := None)"
  by (simp add: dropKey_def monad_simps)

lemma dropKey_view [simp]: "view (snd (dropKey B key t)) = (view t)(key := None)"
  by (simp add: view_def dropKey_contents keyspace_del)

end

end
