(* ===== verification/Float64.thy ===== *)
theory Float64
  imports Prelude
begin

text \<open>
  As much of \<open>float64\<close> as \<open>time.Duration.Seconds\<close> and the conversion of its result to
  \<open>int64\<close> need: the quotient of two integers and the sum of two numbers, each rounded to 53
  significant bits, to the nearest and to the even one of two equally near. A number is kept as an
  integer and the power of two it is divided by. The values below \<open>2 ^ 53\<close> that occur here have
  exponents far inside the range of \<open>float64\<close>.
\<close>

section \<open>Rounding\<close>

definition rdiv :: "int \<Rightarrow> int \<Rightarrow> int" where
  "rdiv a b =
     (let q = a div b; r = a mod b
      in if 2 * r < b \<or> 2 * r = b \<and> even q then q else q + 1)"

text \<open>How often a fraction has to be doubled to have 53 bits before the point.\<close>

function dbl_shift :: "int \<Rightarrow> int \<Rightarrow> nat" where
  "dbl_shift a b = (if a \<le> 0 \<or> 2 ^ 52 * b \<le> a then 0 else Suc (dbl_shift (2 * a) b))"
  by auto
termination
  by (relation "measure (\<lambda>(a, b). nat (2 ^ 52 * b - a))") auto

declare dbl_shift.simps [simp del]

definition nearest :: "int \<Rightarrow> int \<Rightarrow> int \<times> nat" where
  "nearest a b = (let k = dbl_shift a b in (rdiv (a * 2 ^ k) b, k))"

section \<open>Seconds\<close>

text \<open>
  \<open>int64(d.Seconds())\<close> for a duration that is not negative: \<open>Seconds\<close> adds the whole seconds
  and the quotient of the remaining nanoseconds and \<open>1e9\<close>, and the conversion truncates.
\<close>

definition seconds :: "int \<Rightarrow> int" where
  "seconds d =
     (let sec = d div 1000000000; nsec = d mod 1000000000;
          (m, k) = nearest nsec 1000000000;
          (n, l) = nearest (sec * 2 ^ k + m) (2 ^ k)
      in n div 2 ^ l)"

definition whole_seconds :: "int \<Rightarrow> int" where
  "whole_seconds d = (if d < 0 then - seconds (- d) else seconds d)"

section \<open>Lemmas\<close>

lemma le_div:
  fixes a b c :: int
  assumes "0 < b" and "c * b \<le> a"
  shows "c \<le> a div b"
  using zdiv_mono1 [OF assms(2,1)] assms(1) by simp

lemma div_less:
  fixes a b c :: int
  assumes "0 < b" and "a < c * b"
  shows "a div b < c"
proof (rule ccontr)
  assume "\<not> a div b < c"
  then have "c * b \<le> a div b * b" using assms(1) by simp
  moreover have "a div b * b + a mod b = a" "0 \<le> a mod b" using assms(1) by simp_all
  ultimately show False using assms(2) by linarith
qed

lemma rdiv_bounds:
  assumes "0 < b"
  shows "2 * a - b \<le> 2 * (rdiv a b * b)" and "2 * (rdiv a b * b) \<le> 2 * a + b"
proof -
  define q r where "q = a div b" and "r = a mod b"
  then have a: "a = q * b + r" and "0 \<le> r" "r < b" using assms by simp_all
  moreover have "rdiv a b = (if 2 * r < b \<or> 2 * r = b \<and> even q then q else q + 1)"
    by (simp add: rdiv_def q_def r_def Let_def)
  ultimately show "2 * a - b \<le> 2 * (rdiv a b * b)" "2 * (rdiv a b * b) \<le> 2 * a + b"
    by (auto simp: distrib_right)
qed

lemma rdiv_ge:
  assumes "0 < b" and "c * b \<le> a"
  shows "c \<le> rdiv a b"
proof -
  have "c \<le> a div b" using assms by (rule le_div)
  then show ?thesis by (simp add: rdiv_def Let_def)
qed

lemma rdiv_le:
  assumes "0 < b" and "a \<le> c * b"
  shows "rdiv a b \<le> c"
proof (cases "a = c * b")
  case True
  with assms(1) show ?thesis by (simp add: rdiv_def)
next
  case False
  then have "a div b < c" using assms by (intro div_less) simp_all
  then show ?thesis by (simp add: rdiv_def Let_def)
qed

lemma dbl_shift_reached: "0 < a \<Longrightarrow> 0 < b \<Longrightarrow> 2 ^ 52 * b \<le> a * 2 ^ dbl_shift a b"
proof (induction a b rule: dbl_shift.induct)
  case (1 a b)
  then show ?case by (cases "2 ^ 52 * b \<le> a") (simp_all add: dbl_shift.simps [of a b] algebra_simps)
qed

text \<open>A fraction below \<open>2 ^ (52 - j)\<close> keeps more than \<open>j\<close> binary places.\<close>

lemma dbl_shift_many:
  assumes "0 < a" and "0 < b" and "a * 2 ^ j < 2 ^ 52 * b"
  shows "j < dbl_shift a b"
proof (rule ccontr)
  assume "\<not> j < dbl_shift a b"
  then have "a * 2 ^ dbl_shift a b \<le> a * 2 ^ j"
    using assms(1) by (simp add: power_increasing)
  with dbl_shift_reached [OF assms(1,2)] assms(3) show False by simp
qed

text \<open>The fraction of a second, rounded.\<close>

lemma nearest_fraction:
  assumes "nearest nsec 1000000000 = (m, k)" and "0 \<le> nsec" and "nsec < 1000000000"
  shows "0 \<le> m" and "m \<le> 2 ^ k" and "2000000000 * m \<le> 2 * nsec * 2 ^ k + 1000000000"
    and "0 < nsec \<Longrightarrow> 53 \<le> k"
proof -
  from assms(1) have m: "m = rdiv (nsec * 2 ^ k) 1000000000" and k: "k = dbl_shift nsec 1000000000"
    by (auto simp: nearest_def Let_def)
  show "0 \<le> m" unfolding m by (rule rdiv_ge) (use assms(2) in simp_all)
  show "m \<le> 2 ^ k" unfolding m
    by (rule rdiv_le) (use assms(3) in \<open>simp_all add: mult.commute\<close>)
  show "2000000000 * m \<le> 2 * nsec * 2 ^ k + 1000000000"
    using rdiv_bounds(2) [of 1000000000 "nsec * 2 ^ k"] by (simp add: m)
  show "53 \<le> k" if "0 < nsec"
    using dbl_shift_many [of nsec 1000000000 52] that assms(3) by (simp add: k)
qed

text \<open>Between the whole seconds and one more.\<close>

lemma seconds_bounds:
  assumes "0 \<le> d"
  shows "d div 1000000000 \<le> seconds d" and "seconds d \<le> d div 1000000000 + 1"
proof -
  let ?s = "d div 1000000000"
  obtain m k where mk: "nearest (d mod 1000000000) 1000000000 = (m, k)" by fastforce
  obtain n l where nl: "nearest (?s * 2 ^ k + m) (2 ^ k) = (n, l)" by fastforce
  note m = nearest_fraction [OF mk]
  have s: "seconds d = n div 2 ^ l" by (simp add: seconds_def mk nl)
  have n: "n = rdiv ((?s * 2 ^ k + m) * 2 ^ l) (2 ^ k)" using nl by (auto simp: nearest_def Let_def)
  have "?s * 2 ^ l \<le> n" unfolding n
    by (rule rdiv_ge) (use m(1) in \<open>simp_all add: algebra_simps\<close>)
  then show "?s \<le> seconds d" unfolding s by (intro le_div) simp_all
  have "m * 2 ^ l \<le> 2 ^ k * 2 ^ l" using m(2) by simp
  then have "n \<le> (?s + 1) * 2 ^ l" unfolding n
    by (intro rdiv_le) (simp_all add: algebra_simps)
  then have "n div 2 ^ l \<le> (?s + 1) * 2 ^ l div 2 ^ l" by (rule zdiv_mono1) simp
  then show "seconds d \<le> ?s + 1" by (simp add: s)
qed

text \<open>
  With 53 binary places for the fraction and 29 for the sum, two roundings by half a unit do not
  make up for the nanosecond that is missing.
\<close>

lemma second_not_reached:
  fixes A A' m n s :: int
  assumes "2 ^ 53 \<le> A" and "2 ^ 29 \<le> A'" and "2000000000 * m \<le> 1999999998 * A + 1000000000"
    and "2 * (n * A) \<le> 2 * ((s * A + m) * A') + A"
  shows "n < (s + 1) * A'"
proof -
  define P where "P = A * A'"
  have P: "2 ^ 29 * A \<le> P" "2 ^ 53 * A' \<le> P"
    unfolding P_def using assms(1,2) by (simp_all add: mult.commute mult_right_mono)
  have "2000000000 * m * A' \<le> (1999999998 * A + 1000000000) * A'"
    using assms(2,3) by (intro mult_right_mono) auto
  then have "2000000000 * (m * A') \<le> 1999999998 * P + 1000000000 * A'"
    by (simp add: P_def algebra_simps)
  moreover have "2 * (n * A) \<le> 2 * (s * P) + 2 * (m * A') + A"
    using assms(4) by (simp add: P_def algebra_simps)
  ultimately have "n * A < s * P + P" using P assms(1,2) by simp
  then have "n * A < ((s + 1) * A') * A" by (simp add: P_def algebra_simps)
  then show ?thesis using assms(1) by (simp add: mult_less_cancel_right)
qed

text \<open>Below \<open>2 ^ 24\<close> seconds the rounding does not reach the next second.\<close>

lemma seconds_exact:
  assumes "0 \<le> d" and "d div 1000000000 < 2 ^ 24"
  shows "seconds d = d div 1000000000"
proof -
  let ?s = "d div 1000000000" and ?f = "d mod 1000000000"
  obtain m k where mk: "nearest ?f 1000000000 = (m, k)" by fastforce
  obtain n l where nl: "nearest (?s * 2 ^ k + m) (2 ^ k) = (n, l)" by fastforce
  have s: "seconds d = n div 2 ^ l" by (simp add: seconds_def mk nl)
  have n: "n = rdiv ((?s * 2 ^ k + m) * 2 ^ l) (2 ^ k)" and l: "l = dbl_shift (?s * 2 ^ k + m) (2 ^ k)"
    using nl by (auto simp: nearest_def Let_def)
  have "0 \<le> ?s" using assms(1) by (simp add: pos_imp_zdiv_nonneg_iff)
  have "n < (?s + 1) * 2 ^ l"
  proof (cases "?f = 0")
    case True
    with mk have "m = 0" by (auto simp: nearest_def rdiv_def dbl_shift.simps)
    then have "n = ?s * 2 ^ l" unfolding n by (simp add: rdiv_def)
    then show ?thesis by (simp add: algebra_simps)
  next
    case False
    then have pos: "0 < ?f" by (simp add: order_less_le)
    note m = nearest_fraction [OF mk]
    define A A' :: int where "A = 2 ^ k" and "A' = 2 ^ l"
    have A: "2 ^ 53 \<le> A" unfolding A_def using m(4) pos by (intro power_increasing) auto
    have "?f \<le> 999999999" by simp
    then have "2 * ?f * A \<le> 2 * 999999999 * A" using A by (intro mult_right_mono) auto
    then have mA: "2000000000 * m \<le> 1999999998 * A + 1000000000"
      using m(3) unfolding A_def by linarith
    then have "m < A" using A by simp
    have "0 < m"
      using dbl_shift_reached [of ?f 1000000000] pos mk rdiv_bounds(1) [of 1000000000 "?f * 2 ^ k"]
      by (auto simp: nearest_def Let_def)
    have "(?s + 1) * A \<le> 2 ^ 24 * A" using assms(2) A by (intro mult_right_mono) auto
    then have "(?s * A + m) * 2 ^ 28 < 2 ^ 52 * A"
      using \<open>m < A\<close> by (simp add: algebra_simps)
    moreover have "0 < ?s * A + m" using \<open>0 \<le> ?s\<close> \<open>0 < m\<close> A by (simp add: add_nonneg_pos)
    ultimately have "28 < l" unfolding l A_def by (intro dbl_shift_many) simp_all
    then have A': "2 ^ 29 \<le> A'" unfolding A'_def by (intro power_increasing) auto
    have "2 * (n * A) \<le> 2 * ((?s * A + m) * A') + A"
      using rdiv_bounds(2) [of A "(?s * A + m) * A'"] A by (simp add: n A_def A'_def)
    with A A' mA have "n < (?s + 1) * A'" by (rule second_not_reached)
    then show ?thesis by (simp add: A'_def)
  qed
  then have "seconds d < ?s + 1" unfolding s by (intro div_less) simp_all
  with seconds_bounds(1) [OF assms(1)] show ?thesis by simp
qed

end
