(* ===== verification/FsmString.thy ===== *)
theory FsmString
  imports FsmBase Glob Float64
begin

text \<open>
  String and key commands of \<open>store/fsm.go\<close>: the cases of \<open>applyCmdInTxn\<close> for
  \<open>SET\<close>/\<open>GETSET\<close>/\<open>APPEND\<close>, \<open>MSET\<close>, \<open>DEL\<close>, \<open>FLUSHDB\<close>, the counters, \<open>EXPIRE\<close>
  and \<open>PERSIST\<close>, and the read methods of \<open>FSM\<close> on keys and strings. A read method
  runs in \<open>db.View\<close>; it is a function of the transaction that \<open>View\<close> opens.
\<close>

section \<open>Writes\<close>

text \<open>The second half of the \<open>SET\<close> case, once the old value is known.\<close>

definition setTail ::
  "('d, 't) badger \<Rightarrow> env \<Rightarrow> Command \<Rightarrow> bool \<Rightarrow> bytes option \<Rightarrow> int \<Rightarrow> ('t, goval) tx" where
  "setTail B E cmd exists oldVal oldTTLMs =
     (let setKey = (\<not> (Condition cmd = ''NX'' \<and> exists) \<and> \<not> (Condition cmd = ''XX'' \<and> \<not> exists));
          newVal = (if Op cmd = ''APPEND'' then slice oldVal @ hd (Args cmd) else hd (Args cmd));
          ttlMs = (if TTLMs cmd = 0 \<and> Op cmd = ''APPEND'' then oldTTLMs else TTLMs cmd);
          result =
            (if Op cmd = ''APPEND'' then GInt (int (length newVal))
             else if ReturnOld cmd \<or> Op cmd = ''GETSET'' then (if exists then GBytes oldVal else GNil)
             else if \<not> setKey then GNil
             else GStr ''OK'')
      in bind (if setKey then setValue B E (Key cmd) newVal ''string'' ttlMs else ret ())
           (\<lambda>_. ret result))"

definition applySet :: "('d, 't) badger \<Rightarrow> env \<Rightarrow> Command \<Rightarrow> ('t, goval) tx" where
  "applySet B E cmd t =
     (if Args cmd = [] then (Inl (Errf (Op cmd @ '' missing args'')), t)
      else
        (case b_get B (clock E) (userKey (Key cmd)) t of
           Inl e \<Rightarrow>
             if e \<noteq> ErrKeyNotFound then (Inl e, t) else setTail B E cmd False None 0 t
         | Inr item \<Rightarrow>
             (case ensureExistingType B E (Key cmd) ''string'' t of
                Inl e \<Rightarrow> (Inl e, t)
              | Inr _ \<Rightarrow>
                  setTail B E cmd True
                    (if ReturnOld cmd \<or> Op cmd = ''GETSET'' \<or> Op cmd = ''APPEND''
                     then copy_or_nil B item else None)
                    (remainingTTLMs E item) t)))"

fun mset_loop :: "('d, 't) badger \<Rightarrow> env \<Rightarrow> bytes list \<Rightarrow> ('t, unit) tx" where
  "mset_loop B E (k # v # rest) =
     bind (setValue B E k v ''string'' 0) (\<lambda>_. mset_loop B E rest)"
| "mset_loop B E [k] = throw (GoPanic ''index out of range'')"
| "mset_loop B E [] = ret ()"

definition applyMSet :: "('d, 't) badger \<Rightarrow> env \<Rightarrow> Command \<Rightarrow> ('t, goval) tx" where
  "applyMSet B E cmd =
     (if length (Args cmd) mod 2 \<noteq> 0 then throw (Errf ''MSET invalid args'')
      else bind (mset_loop B E (Args cmd)) (\<lambda>_. ret (GStr ''OK'')))"

fun del_loop :: "('d, 't) badger \<Rightarrow> env \<Rightarrow> bytes list \<Rightarrow> int \<Rightarrow> ('t, int) tx" where
  "del_loop B E [] cnt = (\<lambda>t. (Inr cnt, t))"
| "del_loop B E (k # ks) cnt =
     (\<lambda>t. case b_get B (clock E) (userKey k) t of
        Inl e \<Rightarrow> if e = ErrKeyNotFound then del_loop B E ks cnt t else (Inl e, t)
      | Inr _ \<Rightarrow>
          bind (b_del B (userKey k))
            (\<lambda>_. bind (ignore_err (b_del B (typeKey k))) (\<lambda>_. del_loop B E ks (cnt + 1))) t)"

text \<open>The fallback on the \<open>Key\<close> field removes the value and leaves the type entry.\<close>

definition applyDel :: "('d, 't) badger \<Rightarrow> env \<Rightarrow> Command \<Rightarrow> ('t, goval) tx" where
  "applyDel B E cmd =
     bind (del_loop B E (Args cmd) 0)
       (\<lambda>cnt t.
          if Args cmd = [] \<and> Key cmd \<noteq> [] then
            (case b_get B (clock E) (userKey (Key cmd)) t of
               Inl _ \<Rightarrow> (Inr (GInt cnt), t)
             | Inr _ \<Rightarrow>
                 (case b_del B (userKey (Key cmd)) t of
                    (Inl _, t') \<Rightarrow> (Inr (GInt cnt), t')
                  | (Inr _, t') \<Rightarrow> (Inr (GInt (cnt + 1)), t')))
          else (Inr (GInt cnt), t))"

text \<open>An iterator loop that deletes every key it visits.\<close>

definition delete_prefix :: "('d, 't) badger \<Rightarrow> env \<Rightarrow> bytes \<Rightarrow> ('t, unit) tx" where
  "delete_prefix B E p t = for_each (b_del B) (scan_prefix p (b_keys B (clock E) t)) t"

definition applyFlushDB :: "('d, 't) badger \<Rightarrow> env \<Rightarrow> Command \<Rightarrow> ('t, goval) tx" where
  "applyFlushDB B E cmd =
     bind (delete_prefix B E [prefixUser])
       (\<lambda>_. bind (delete_prefix B E [prefixType]) (\<lambda>_. ret (GStr ''OK'')))"

definition not_an_integer :: err where
  "not_an_integer = Errf ''value is not an integer or out of range''"

text \<open>The stored number: 0 for a missing key, with the TTL to keep.\<close>

definition counterValue :: "('d, 't) badger \<Rightarrow> env \<Rightarrow> bytes \<Rightarrow> 't \<Rightarrow> err + int \<times> int" where
  "counterValue B E key t =
     (case b_get B (clock E) (userKey key) t of
        Inl e \<Rightarrow> if e \<noteq> ErrKeyNotFound then Inl e else Inr (0, 0)
      | Inr item \<Rightarrow>
          (case ensureExistingType B E key ''string'' t of
             Inl e \<Rightarrow> Inl e
           | Inr _ \<Rightarrow>
               (case parseInt (slice (copy_or_nil B item)) of
                  (parsed, None) \<Rightarrow> Inr (parsed, remainingTTLMs E item)
                | (_, Some _) \<Rightarrow> Inl not_an_integer)))"

text \<open>The amount: 1, or the first argument; a missing argument is an index panic.\<close>

definition counterDelta :: "Command \<Rightarrow> err + int" where
  "counterDelta cmd =
     (if Op cmd = ''INCRBY'' \<or> Op cmd = ''DECRBY'' then
        (case Args cmd of
           [] \<Rightarrow> Inl (GoPanic ''index out of range'')
         | a # _ \<Rightarrow> (case parseInt a of (d, None) \<Rightarrow> Inr d | (_, Some _) \<Rightarrow> Inl not_an_integer))
      else Inr 1)"

definition applyIncr :: "('d, 't) badger \<Rightarrow> env \<Rightarrow> Command \<Rightarrow> ('t, goval) tx" where
  "applyIncr B E cmd =
     bind (readE (counterValue B E (Key cmd)))
       (\<lambda>(val, oldTTLMs).
          bind (readE (\<lambda>_. counterDelta cmd))
            (\<lambda>delta.
               (let val' = (if Op cmd = ''INCR'' \<or> Op cmd = ''INCRBY''
                            then wrap64 (val + delta) else wrap64 (val - delta))
                in bind (setValue B E (Key cmd) (formatInt val') ''string'' oldTTLMs)
                     (\<lambda>_. ret (GInt64 val')))))"

definition applyExpire :: "('d, 't) badger \<Rightarrow> env \<Rightarrow> Command \<Rightarrow> ('t, goval) tx" where
  "applyExpire B E cmd t =
     (case b_get B (clock E) (userKey (Key cmd)) t of
        Inl e \<Rightarrow> if e = ErrKeyNotFound then (Inr (GInt 0), t) else (Inl e, t)
      | Inr item \<Rightarrow>
          (let entry = WithTTL B (clock E) (ms_duration (TTLMs cmd))
                         (NewEntry (userKey (Key cmd)) (slice (copy_or_nil B item)))
           in bind (b_set B entry) (\<lambda>_. ret (GInt 1)) t))"

definition applyPersist :: "('d, 't) badger \<Rightarrow> env \<Rightarrow> Command \<Rightarrow> ('t, goval) tx" where
  "applyPersist B E cmd t =
     (case b_get B (clock E) (userKey (Key cmd)) t of
        Inl e \<Rightarrow> if e = ErrKeyNotFound then (Inr (GInt 0), t) else (Inl e, t)
      | Inr item \<Rightarrow>
          if it_exp item = 0 then (Inr (GInt 0), t)
          else
            (let typ = (case b_get B (clock E) (typeKey (Key cmd)) t of
                          Inl _ \<Rightarrow> ''string''
                        | Inr typeItem \<Rightarrow> slice (copy_or_nil B typeItem))
             in bind (setValue B E (Key cmd) (slice (copy_or_nil B item)) typ 0)
                  (\<lambda>_. ret (GInt 1)) t))"

section \<open>Reads\<close>

definition GetString :: "('d, 't) badger \<Rightarrow> env \<Rightarrow> bytes \<Rightarrow> 't \<Rightarrow> err + bytes option" where
  "GetString B E key t =
     (case b_get B (clock E) (userKey key) t of
        Inl e \<Rightarrow> if e = ErrKeyNotFound then Inr None else Inl e
      | Inr item \<Rightarrow>
          (case ensureExistingType B E key ''string'' t of
             Inl e \<Rightarrow> if e = ErrKeyNotFound then Inr None else Inl e
           | Inr _ \<Rightarrow>
               (case b_copy B item of
                  Inl e \<Rightarrow> if e = ErrKeyNotFound then Inr None else Inl e
                | Inr val \<Rightarrow> Inr val)))"

text \<open>\<open>MGET\<close>'s read does not look at the type entry.\<close>

fun GetStrings :: "('d, 't) badger \<Rightarrow> env \<Rightarrow> bytes list \<Rightarrow> 't \<Rightarrow> err + bytes option list" where
  "GetStrings B E [] t = Inr []"
| "GetStrings B E (key # keys) t =
     (case (case b_get B (clock E) (userKey key) t of
              Inl e \<Rightarrow> if e = ErrKeyNotFound then Inr None else Inl e
            | Inr item \<Rightarrow> b_copy B item) of
        Inl e \<Rightarrow> Inl e
      | Inr v \<Rightarrow> (case GetStrings B E keys t of Inl e \<Rightarrow> Inl e | Inr vs \<Rightarrow> Inr (v # vs)))"

fun exists_loop :: "('d, 't) badger \<Rightarrow> env \<Rightarrow> bytes list \<Rightarrow> int \<Rightarrow> 't \<Rightarrow> err + int" where
  "exists_loop B E [] cnt t = Inr cnt"
| "exists_loop B E (key # keys) cnt t =
     (case b_get B (clock E) (userKey key) t of
        Inl e \<Rightarrow> if e = ErrKeyNotFound then exists_loop B E keys cnt t else Inl e
      | Inr _ \<Rightarrow> exists_loop B E keys (cnt + 1) t)"

definition Exists :: "('d, 't) badger \<Rightarrow> env \<Rightarrow> bytes list \<Rightarrow> 't \<Rightarrow> err + int" where
  "Exists B E keys t = exists_loop B E keys 0 t"

text \<open>\<open>whole_seconds\<close> is \<open>int64(d.Seconds())\<close>, which goes through \<open>float64\<close>.\<close>

definition TTL :: "('d, 't) badger \<Rightarrow> env \<Rightarrow> bytes \<Rightarrow> 't \<Rightarrow> err + int" where
  "TTL B E key t =
     (case b_get B (clock E) (userKey key) t of
        Inl e \<Rightarrow> if e = ErrKeyNotFound then Inr (- 2) else Inl e
      | Inr item \<Rightarrow>
          if it_exp item = 0 then Inr (- 1)
          else (let ttl = whole_seconds (time_until E (it_exp item)) in
                if ttl < 0 then Inr (- 2) else Inr ttl))"

definition PTTL :: "('d, 't) badger \<Rightarrow> env \<Rightarrow> bytes \<Rightarrow> 't \<Rightarrow> err + int" where
  "PTTL B E key t =
     (case b_get B (clock E) (userKey key) t of
        Inl e \<Rightarrow> if e = ErrKeyNotFound then Inr (- 2) else Inl e
      | Inr item \<Rightarrow>
          if it_exp item = 0 then Inr (- 1)
          else (let ttl = milliseconds (time_until E (it_exp item)) in
                if ttl < 0 then Inr (- 2) else Inr ttl))"

definition Type :: "('d, 't) badger \<Rightarrow> env \<Rightarrow> bytes \<Rightarrow> 't \<Rightarrow> err + bytes" where
  "Type B E key t =
     (case b_get B (clock E) (userKey key) t of
        Inl e \<Rightarrow> if e = ErrKeyNotFound then Inr ''none'' else Inl e
      | Inr _ \<Rightarrow>
          (case b_get B (clock E) (typeKey key) t of
             Inl e \<Rightarrow> if e = ErrKeyNotFound then Inr ''string'' else Inl e
           | Inr item \<Rightarrow>
               (case b_copy B item of Inl e \<Rightarrow> Inl e | Inr val \<Rightarrow> Inr (slice val))))"

fun keys_loop :: "bytes \<Rightarrow> bytes list \<Rightarrow> err + bytes list" where
  "keys_loop pattern [] = Inr []"
| "keys_loop pattern (k # ks) =
     (case redisGlobMatch pattern (tl k) of
        Inl e \<Rightarrow> Inl e
      | Inr matched \<Rightarrow>
          (case keys_loop pattern ks of
             Inl e \<Rightarrow> Inl e
           | Inr rest \<Rightarrow> Inr (if matched then tl k # rest else rest)))"

definition Keys :: "('d, 't) badger \<Rightarrow> env \<Rightarrow> bytes \<Rightarrow> 't \<Rightarrow> err + bytes list" where
  "Keys B E pattern t = keys_loop pattern (scan_prefix [prefixUser] (b_keys B (clock E) t))"

definition StrLen :: "('d, 't) badger \<Rightarrow> env \<Rightarrow> bytes \<Rightarrow> 't \<Rightarrow> err + int" where
  "StrLen B E key t =
     (case GetString B E key t of
        Inl e \<Rightarrow> Inl e
      | Inr None \<Rightarrow> Inr 0
      | Inr (Some val) \<Rightarrow> Inr (int (length val)))"

section \<open>Specification on the key space\<close>

text \<open>
  Results up to the nil-ness of a byte slice, which the code does not control: Badger may
  return \<open>nil\<close> or an empty slice for an empty value.
\<close>

fun norm :: "goval \<Rightarrow> goval" where
  "norm (GBytes b) = GBytes (Some (slice b))"
| "norm v = v"

definition run_spec :: "('t \<Rightarrow> keyspace) \<Rightarrow> ('t, goval) tx \<Rightarrow> 't \<Rightarrow> (err + goval) \<times> keyspace" where
  "run_spec vw m t = (map_sum id norm (fst (m t)), vw (snd (m t)))"

text \<open>A string value with its expiry; any other type is an error.\<close>

definition str_at :: "keyspace \<Rightarrow> bytes \<Rightarrow> err + (bytes \<times> 64 word) option" where
  "str_at m key =
     (case m key of
        None \<Rightarrow> Inr None
      | Some (RStr v, x) \<Rightarrow> Inr (Some (v, x))
      | Some _ \<Rightarrow> Inl ErrWrongType)"

definition spec_set ::
  "('d, 't) badger \<Rightarrow> env \<Rightarrow> Command \<Rightarrow> keyspace \<Rightarrow> (err + goval) \<times> keyspace" where
  "spec_set B E cmd m =
     (case str_at m (Key cmd) of
        Inl e \<Rightarrow> (Inl e, m)
      | Inr old \<Rightarrow>
          (let blocked = (Condition cmd = ''NX'' \<and> old \<noteq> None \<or> Condition cmd = ''XX'' \<and> old = None);
               arg = hd (Args cmd);
               was = (case old of None \<Rightarrow> [] | Some (v, _) \<Rightarrow> v);
               was_exp = (case old of None \<Rightarrow> 0 | Some (_, x) \<Rightarrow> x);
               new = (if Op cmd = ''APPEND'' then was @ arg else arg);
               x = (if Op cmd = ''APPEND'' \<and> TTLMs cmd = 0 then kept_expiry B E was_exp
                    else set_expiry B E (TTLMs cmd));
               reply = (if Op cmd = ''APPEND'' then GInt (int (length new))
                        else if ReturnOld cmd \<or> Op cmd = ''GETSET'' then
                          (if old = None then GNil else GBytes (Some was))
                        else if blocked then GNil else GStr ''OK'')
           in (Inr reply, if blocked then m else put E (Key cmd) (RStr new) x m)))"

text \<open>Counters: the stored text is read as a number, the sum wraps at 64 bits.\<close>

definition num_at :: "keyspace \<Rightarrow> bytes \<Rightarrow> err + int \<times> 64 word" where
  "num_at m key =
     (case str_at m key of
        Inl e \<Rightarrow> Inl e
      | Inr None \<Rightarrow> Inr (0, 0)
      | Inr (Some (v, x)) \<Rightarrow>
          (case parseInt v of (n, None) \<Rightarrow> Inr (n, x) | (_, Some _) \<Rightarrow> Inl not_an_integer))"

definition spec_incr ::
  "('d, 't) badger \<Rightarrow> env \<Rightarrow> Command \<Rightarrow> keyspace \<Rightarrow> (err + goval) \<times> keyspace" where
  "spec_incr B E cmd m =
     (case num_at m (Key cmd) of
        Inl e \<Rightarrow> (Inl e, m)
      | Inr (n, x) \<Rightarrow>
          (case counterDelta cmd of
             Inl e \<Rightarrow> (Inl e, m)
           | Inr d \<Rightarrow>
               (let n' = wrap64 (if Op cmd = ''INCR'' \<or> Op cmd = ''INCRBY'' then n + d else n - d)
                in (Inr (GInt64 n'),
                    put E (Key cmd) (RStr (formatInt n')) (kept_expiry B E x) m))))"

fun spec_mset :: "env \<Rightarrow> bytes list \<Rightarrow> keyspace \<Rightarrow> keyspace" where
  "spec_mset E (k # v # rest) m = spec_mset E rest (put E k (RStr v) 0 m)"
| "spec_mset E _ m = m"

text \<open>The keys a \<open>DEL\<close> removes; it counts those present, each once.\<close>

definition del_targets :: "Command \<Rightarrow> bytes set" where
  "del_targets cmd = (if Args cmd = [] then (if Key cmd = [] then {} else {Key cmd}) else set (Args cmd))"

definition spec_del :: "Command \<Rightarrow> keyspace \<Rightarrow> (err + goval) \<times> keyspace" where
  "spec_del cmd m =
     (Inr (GInt (int (card (del_targets cmd \<inter> dom m)))), m |` (- del_targets cmd))"

definition spec_expire ::
  "('d, 't) badger \<Rightarrow> env \<Rightarrow> Command \<Rightarrow> keyspace \<Rightarrow> (err + goval) \<times> keyspace" where
  "spec_expire B E cmd m =
     (case m (Key cmd) of
        None \<Rightarrow> (Inr (GInt 0), m)
      | Some (v, _) \<Rightarrow>
          (Inr (GInt 1), put E (Key cmd) v (b_ttl B (clock E) (ms_duration (TTLMs cmd))) m))"

definition spec_persist :: "Command \<Rightarrow> keyspace \<Rightarrow> (err + goval) \<times> keyspace" where
  "spec_persist cmd m =
     (case m (Key cmd) of
        None \<Rightarrow> (Inr (GInt 0), m)
      | Some (v, x) \<Rightarrow> if x = 0 then (Inr (GInt 0), m) else (Inr (GInt 1), m(Key cmd \<mapsto> (v, 0))))"

section \<open>Lemmas: writes\<close>

lemma put_0: "put E key v 0 m = m(key \<mapsto> (v, 0))"
  by (simp add: put_def)

context store
begin

text \<open>A read of a user key, by what the key space holds.\<close>

lemma user_cases [case_names absent present]:
  assumes "view t key = None \<Longrightarrow> b_get B (clock E) (userKey key) t = Inl ErrKeyNotFound \<Longrightarrow> P"
    and "\<And>v it. view t key = Some (v, it_exp it) \<Longrightarrow> b_get B (clock E) (userKey key) t = Inr it \<Longrightarrow>
           v = interp E (seen_type E (contents t) key) (it_val it) \<Longrightarrow> P"
  shows P
proof (cases "view t key")
  case None
  then show P using assms(1) get_user_None by blast
next
  case (Some vx)
  then obtain v x where vx: "view t key = Some (v, x)" by (cases vx) simp
  then obtain it where "b_get B (clock E) (userKey key) t = Inr it" and "it_exp it = x"
    and "v = interp E (seen_type E (contents t) key) (it_val it)"
    by (rule get_user_Some)
  with vx show P using assms(2) by blast
qed

lemma str_at_present:
  assumes "view t key = Some (v, it_exp it)"
    and "v = interp E (seen_type E (contents t) key) (it_val it)"
  shows "str_at (view t) key =
     (if rtype v = ''string'' then Inr (Some (it_val it, it_exp it)) else Inl ErrWrongType)"
proof (cases "seen_type E (contents t) key = ''string''")
  case True
  with assms show ?thesis by (simp add: str_at_def)
next
  case False
  with assms have "rtype v \<noteq> ''string''" by (simp add: interp_rtype)
  then show ?thesis using assms(1) by (cases v) (auto simp: str_at_def)
qed

lemma setTail_spec:
  assumes "Args cmd \<noteq> []" and "str_at (view t) (Key cmd) = Inr old"
    and "slice oldVal = (case old of None \<Rightarrow> [] | Some (v, _) \<Rightarrow> v) \<or>
         \<not> (ReturnOld cmd \<or> Op cmd = ''GETSET'' \<or> Op cmd = ''APPEND'')"
    and "set_expiry B E oldTTL = kept_expiry B E (case old of None \<Rightarrow> 0 | Some (_, x) \<Rightarrow> x)"
  shows "run_spec view (setTail B E cmd (old \<noteq> None) oldVal oldTTL) t = spec_set B E cmd (view t)"
  using assms
  by (auto simp: run_spec_def setTail_def spec_set_def Let_def monad_simps)

lemma applySet_spec:
  assumes "Args cmd \<noteq> []"
  shows "run_spec view (applySet B E cmd) t = spec_set B E cmd (view t)"
proof (cases rule: user_cases [of t "Key cmd"])
  case absent
  then have "str_at (view t) (Key cmd) = Inr None" by (simp add: str_at_def)
  from setTail_spec [OF assms this, of None 0] absent assms show ?thesis
    by (simp add: applySet_def run_spec_def set_expiry_def)
next
  case (present v it)
  note str = str_at_present [OF present(1,3)]
  show ?thesis
  proof (cases "rtype v = ''string''")
    case True
    with str have "str_at (view t) (Key cmd) = Inr (Some (it_val it, it_exp it))" by simp
    from setTail_spec [OF assms this] kept_expiry_eq [of B E it] present assms True show ?thesis
      by (simp add: applySet_def run_spec_def ensureExistingType_view)
  next
    case False
    with str present assms show ?thesis
      by (simp add: applySet_def run_spec_def spec_set_def ensureExistingType_view)
  qed
qed

lemma counterValue_spec:
  "counterValue B E key t =
     (case num_at (view t) key of
        Inl e \<Rightarrow> Inl e
      | Inr (n, x) \<Rightarrow> Inr (n, remainingTTLMs E \<lparr>it_val = [], it_exp = x\<rparr>))"
proof (cases rule: user_cases [of t key])
  case absent
  then show ?thesis
    by (simp add: counterValue_def num_at_def str_at_def remainingTTLMs_def)
next
  case (present v it)
  note str = str_at_present [OF present(1,3)]
  show ?thesis
  proof (cases "rtype v = ''string''")
    case True
    with str present remainingTTLMs_exp [of E it "[]"] show ?thesis
      by (auto simp: counterValue_def num_at_def ensureExistingType_view
          split: option.split prod.split)
  next
    case False
    with str present show ?thesis
      by (simp add: counterValue_def num_at_def ensureExistingType_view)
  qed
qed

lemma applyIncr_spec: "run_spec view (applyIncr B E cmd) t = spec_incr B E cmd (view t)"
  by (auto simp: run_spec_def applyIncr_def spec_incr_def counterValue_spec monad_simps Let_def
      kept_expiry_def split: sum.split)

lemma mset_loop_spec:
  "even (length args) \<Longrightarrow>
   fst (mset_loop B E args t) = Inr () \<and> view (snd (mset_loop B E args t)) = spec_mset E args (view t)"
proof (induction args arbitrary: t rule: induct_list012)
  case (3 k v rest)
  then show ?case by (simp add: monad_simps set_expiry_def)
qed (simp_all add: monad_simps)


lemma del_both_view [simp]:
  "view (snd (b_del B (typeKey key) (snd (b_del B (userKey key) t)))) = (view t)(key := None)"
  by (simp add: view_def keyspace_del)

lemma keyspace_del_user: "keyspace E (c(userKey key := None)) = (keyspace E c)(key := None)"
  using keyspace_del [of E c key "c (typeKey key)"] by (simp add: fun_upd_idem)

lemma del_user_view [simp]: "view (snd (b_del B (userKey key) t)) = (view t)(key := None)"
  by (simp add: view_def keyspace_del_user)

lemma del_loop_spec:
  "fst (del_loop B E ks cnt t) = Inr (cnt + int (card (set ks \<inter> dom (view t)))) \<and>
   view (snd (del_loop B E ks cnt t)) = (view t) |` (- set ks)"
proof (induction ks arbitrary: cnt t)
  case Nil
  then show ?case by simp
next
  case (Cons k ks)
  show ?case
  proof (cases rule: user_cases [of t k])
    case absent
    then have "set (k # ks) \<inter> dom (view t) = set ks \<inter> dom (view t)" by auto
    moreover have "(view t) |` (- set (k # ks)) = (view t) |` (- set ks)"
      using absent by (auto simp: restrict_map_def)
    ultimately show ?thesis using absent Cons.IH [of cnt t] by simp
  next
    case (present v it)
    let ?t = "snd (b_del B (typeKey k) (snd (b_del B (userKey k) t)))"
    have step: "del_loop B E (k # ks) cnt t = del_loop B E ks (cnt + 1) ?t"
      using present by (simp add: monad_simps)
    have "set (k # ks) \<inter> dom (view t) = insert k (set ks \<inter> dom (view ?t))"
      using present by auto
    then have "card (set (k # ks) \<inter> dom (view t)) = Suc (card (set ks \<inter> dom (view ?t)))"
      by simp
    then have c: "cnt + int (card (set (k # ks) \<inter> dom (view t))) =
        cnt + 1 + int (card (set ks \<inter> dom (view ?t)))" by linarith
    have r: "(view t) |` (- set (k # ks)) = (view ?t) |` (- set ks)"
      by (auto simp: restrict_map_def)
    show ?thesis unfolding step c r by (rule Cons.IH)
  qed
qed

lemma restrict_one: "m |` (- {k}) = m(k := None)"
  by (auto simp: restrict_map_def)

lemma applyDel_spec: "run_spec view (applyDel B E cmd) t = spec_del cmd (view t)"
proof (cases "Args cmd = [] \<and> Key cmd \<noteq> []")
  case True
  then have targets: "del_targets cmd = {Key cmd}" by (simp add: del_targets_def)
  show ?thesis
  proof (cases rule: user_cases [of t "Key cmd"])
    case absent
    then have "{Key cmd} \<inter> dom (view t) = {}" and "(view t)(Key cmd := None) = view t"
      by (auto simp: fun_upd_idem)
    with absent True targets show ?thesis
      by (simp add: run_spec_def applyDel_def spec_del_def monad_simps restrict_one)
  next
    case (present v it)
    obtain r t' where del: "b_del B (userKey (Key cmd)) t = (r, t')" by fastforce
    have "r = Inr ()" using del_ok [of "userKey (Key cmd)" t] del by simp
    moreover have "view t' = (view t)(Key cmd := None)"
      using del_user_view [of "Key cmd" t] del by simp
    moreover have "{Key cmd} \<inter> dom (view t) = {Key cmd}" using present(1) by blast
    ultimately show ?thesis using present(2) True del targets
      by (simp add: run_spec_def applyDel_def spec_del_def monad_simps restrict_one)
  qed
next
  case False
  then have "del_targets cmd = set (Args cmd)" by (auto simp: del_targets_def)
  moreover have "applyDel B E cmd t = bind (del_loop B E (Args cmd) 0) (\<lambda>c. ret (GInt c)) t"
    by (simp only: applyDel_def if_not_P [OF False] ret_def)
  ultimately show ?thesis
    using del_loop_spec [of "Args cmd" 0 t] by (simp add: run_spec_def spec_del_def monad_simps)
qed

lemma applyMSet_spec:
  "even (length (Args cmd)) \<Longrightarrow>
   run_spec view (applyMSet B E cmd) t = (Inr (GStr ''OK''), spec_mset E (Args cmd) (view t))"
  using mset_loop_spec [of "Args cmd" t]
  by (simp add: run_spec_def applyMSet_def monad_simps even_iff_mod_2_eq_zero)

lemma applyExpire_spec: "run_spec view (applyExpire B E cmd) t = spec_expire B E cmd (view t)"
proof (cases rule: user_cases [of t "Key cmd"])
  case absent
  then show ?thesis by (simp add: run_spec_def applyExpire_def spec_expire_def)
next
  case (present v it)
  then show ?thesis
    by (simp add: run_spec_def applyExpire_def spec_expire_def monad_simps WithTTL_def
        NewEntry_def view_def keyspace_upd_user)
qed

lemma applyPersist_spec: "run_spec view (applyPersist B E cmd) t = spec_persist cmd (view t)"
proof (cases rule: user_cases [of t "Key cmd"])
  case absent
  then show ?thesis by (simp add: run_spec_def applyPersist_def spec_persist_def)
next
  case (present v it)
  have "(case b_get B (clock E) (typeKey (Key cmd)) t of
           Inl _ \<Rightarrow> ''string'' | Inr typeItem \<Rightarrow> slice (copy_or_nil B typeItem))
      = seen_type E (contents t) (Key cmd)"
    by (simp add: b_get_eq seen_type_def split: option.split)
  with present show ?thesis
    by (simp add: run_spec_def applyPersist_def spec_persist_def monad_simps set_expiry_def put_0)
qed

subsection \<open>Flush\<close>

lemma for_each_del:
  "fst (for_each (b_del B) ks t) = Inr () \<and>
   contents (snd (for_each (b_del B) ks t)) = (\<lambda>k. if k \<in> set ks then None else contents t k)"
proof (induction ks arbitrary: t)
  case Nil
  then show ?case by (simp add: monad_simps)
next
  case (Cons k ks)
  then show ?case by (auto simp: monad_simps)
qed

lemma set_scan_prefix:
  "set (scan_prefix p (b_keys B (clock E) t)) =
     {k. prefix p k \<and> live (clock E) (contents t k) \<noteq> None}"
  using keys_live [of "clock E" t] by (auto simp: scan_prefix_filter [OF keys_sorted])

lemma delete_prefix_run [simp]: "fst (delete_prefix B E p t) = Inr ()"
  by (simp add: delete_prefix_def for_each_del)

lemma delete_prefix_contents:
  "contents (snd (delete_prefix B E p t)) k =
     (if prefix p k \<and> live (clock E) (contents t k) \<noteq> None then None else contents t k)"
  unfolding delete_prefix_def
  using for_each_del [of "scan_prefix p (b_keys B (clock E) t)" t]
  by (simp only: set_scan_prefix) simp

lemma applyFlushDB_run: "fst (applyFlushDB B E cmd t) = Inr (GStr ''OK'')"
  by (simp add: applyFlushDB_def monad_simps)

lemma applyFlushDB_contents:
  "contents (snd (applyFlushDB B E cmd t)) k =
     (if (prefix [prefixUser] k \<or> prefix [prefixType] k) \<and> live (clock E) (contents t k) \<noteq> None
      then None else contents t k)"
  by (auto simp: applyFlushDB_def monad_simps delete_prefix_contents)

lemma applyFlushDB_view: "view (snd (applyFlushDB B E cmd t)) = Map.empty"
proof
  fix key
  have "live (clock E) (contents (snd (applyFlushDB B E cmd t)) (userKey key)) = None"
    by (simp add: applyFlushDB_contents user.enc_prefix)
  then show "view (snd (applyFlushDB B E cmd t)) key = None"
    by (simp add: view_def keyspace_def)
qed

section \<open>Lemmas: reads\<close>

lemma GetString_spec:
  "GetString B E key t =
     (case str_at (view t) key of
        Inl e \<Rightarrow> Inl e
      | Inr None \<Rightarrow> Inr None
      | Inr (Some (v, x)) \<Rightarrow> Inr (copy_or_nil B \<lparr>it_val = v, it_exp = x\<rparr>))"
proof (cases rule: user_cases [of t key])
  case absent
  then show ?thesis by (simp add: GetString_def str_at_def)
next
  case (present v it)
  obtain b where b: "b_copy B it = Inr b" using copy_ok by blast
  have it: "it = \<lparr>it_val = it_val it, it_exp = it_exp it\<rparr>" by simp
  have "copy_or_nil B \<lparr>it_val = it_val it, it_exp = it_exp it\<rparr> = b"
    by (simp only: it [symmetric]) (simp add: copy_or_nil_def b)
  with present b str_at_present [OF present(1,3)] show ?thesis
    by (simp add: GetString_def ensureExistingType_view)
qed

lemma exists_loop_spec:
  "exists_loop B E keys cnt t = Inr (cnt + int (length (filter (\<lambda>k. view t k \<noteq> None) keys)))"
proof (induction keys arbitrary: cnt)
  case Nil
  then show ?case by simp
next
  case (Cons k keys)
  then show ?case by (cases rule: user_cases [of t k]) simp_all
qed

lemma Type_spec:
  "Type B E key t =
     Inr (case view t key of None \<Rightarrow> ''none'' | Some (v, _) \<Rightarrow> rtype v)"
proof (cases rule: user_cases [of t key])
  case absent
  then show ?thesis by (simp add: Type_def)
next
  case (present v it)
  then have "rtype v = seen_type E (contents t) key" by (simp add: interp_rtype)
  moreover have "Type B E key t = getExistingType B E key t"
    using present by (simp add: Type_def getExistingType_def)
  ultimately show ?thesis using present(1) by (simp add: getExistingType_view)
qed

lemma keys_loop_spec:
  "TBad \<notin> set (tokens pattern) \<Longrightarrow>
   keys_loop pattern ks = Inr (filter (\<lambda>k. k \<in> lang (tokens pattern)) (map tl ks))"
  by (induction ks) (simp_all add: redisGlobMatch_def glob_lang)

lemma user_keys_of_scan:
  fixes t
  defines "us \<equiv> scan_prefix [prefixUser] (b_keys B (clock E) t)"
  shows "set (map tl us) = dom (view t)" and "sorted (map tl us)" and "distinct (map tl us)"
proof -
  have dom: "live (clock E) (contents t (userKey k)) \<noteq> None \<longleftrightarrow> k \<in> dom (view t)" for k
    by (cases "live (clock E) (contents t (userKey k))") (simp_all add: view_def keyspace_def dom_def)
  have mem: "u \<in> set us \<longleftrightarrow> u \<in> userKey ` dom (view t)" for u
  proof (cases "prefix [prefixUser] u")
    case True
    then obtain k where "u = userKey k" by (cases u) (simp_all add: userKey_def)
    then show ?thesis
      by (simp only: us_def set_scan_prefix mem_Collect_eq dom) (simp add: image_iff user.enc_prefix)
  next
    case False
    then show ?thesis by (auto simp: us_def set_scan_prefix user.enc_prefix)
  qed
  have "set (map tl us) = tl ` userKey ` dom (view t)"
    by (simp only: set_map mem set_eqI [OF mem])
  then show "set (map tl us) = dom (view t)" by (simp add: image_image userKey_def)
  have us: "sorted us" "distinct us"
    using keys_sorted [of "clock E" t] keys_distinct [of "clock E" t]
      sorted_filter [of id "b_keys B (clock E) t" "prefix [prefixUser]"]
    by (simp_all add: us_def scan_prefix_filter)
  have cmp: "(u \<le> u' \<longrightarrow> tl u \<le> tl u') \<and> (tl u = tl u' \<longrightarrow> u = u')"
    if "u \<in> set us" "u' \<in> set us" for u u'
  proof -
    from that mem obtain k k' where "u = userKey k" "u' = userKey k'" by blast
    then show ?thesis by (simp add: userKey_def)
  qed
  show "sorted (map tl us)"
    unfolding sorted_map using us(1) by (rule sorted_wrt_mono_rel [rotated]) (simp add: cmp)
  show "distinct (map tl us)"
    using us(2) cmp unfolding distinct_map inj_on_def by blast
qed

end

end
