(* ===== verification/FsmTyped.thy ===== *)
theory FsmTyped
  imports FsmString
begin

text \<open>
  The steps the collection commands of \<open>store/fsm.go\<close> have in common: read the value of
  a key, check its type, remember the remaining time to live, decode the value; and the
  same in the read methods, which report an error of the copy. The locale states what the
  hash, list and set commands rely on, once for the three of them.
\<close>

definition loadTyped ::
  "('d, 't) badger \<Rightarrow> env \<Rightarrow> bytes \<Rightarrow> (bytes option \<Rightarrow> err + 'a) \<Rightarrow> bytes \<Rightarrow> 't \<Rightarrow> err + ('a \<times> int) option" where
  "loadTyped B E want dec key t =
     (case b_get B (clock E) (userKey key) t of
        Inl e \<Rightarrow> if e \<noteq> ErrKeyNotFound then Inl e else Inr None
      | Inr item \<Rightarrow>
          (case ensureExistingType B E key want t of
             Inl e \<Rightarrow> Inl e
           | Inr _ \<Rightarrow>
               (case dec (copy_or_nil B item) of
                  Inl e \<Rightarrow> Inl e
                | Inr v \<Rightarrow> Inr (Some (v, remainingTTLMs E item)))))"

definition readTyped ::
  "('d, 't) badger \<Rightarrow> env \<Rightarrow> bytes \<Rightarrow> (bytes option \<Rightarrow> err + 'a) \<Rightarrow> bytes \<Rightarrow> 't \<Rightarrow> err + 'a option" where
  "readTyped B E want dec key t =
     (case b_get B (clock E) (userKey key) t of
        Inl e \<Rightarrow> if e = ErrKeyNotFound then Inr None else Inl e
      | Inr item \<Rightarrow>
          (case ensureExistingType B E key want t of
             Inl e \<Rightarrow> Inl e
           | Inr _ \<Rightarrow>
               (case b_copy B item of
                  Inl e \<Rightarrow> Inl e
                | Inr data \<Rightarrow> (case dec data of Inl e \<Rightarrow> Inl e | Inr v \<Rightarrow> Inr (Some v)))))"

text \<open>Store a collection, or remove the key when the collection is empty.\<close>

definition storeOrDrop ::
  "('d, 't) badger \<Rightarrow> env \<Rightarrow> bytes \<Rightarrow> bool \<Rightarrow> bytes \<Rightarrow> bytes \<Rightarrow> int \<Rightarrow> ('t, unit) tx" where
  "storeOrDrop B E key none val typ ttlMs =
     (if none then dropKey B key else setValue B E key val typ ttlMs)"

section \<open>A collection on the key space\<close>

text \<open>
  The collection of a given type at a key: absent, an error (another type, or bytes that
  do not decode), or the collection with its expiry. \<open>sel\<close> picks the collection out of
  a value.
\<close>

definition coll_at ::
  "bytes \<Rightarrow> (rval \<Rightarrow> 'a option) \<Rightarrow> keyspace \<Rightarrow> bytes \<Rightarrow> err + ('a \<times> 64 word) option" where
  "coll_at tag sel m key =
     (case m key of
        None \<Rightarrow> Inr None
      | Some (v, x) \<Rightarrow>
          if rtype v \<noteq> tag then Inl ErrWrongType
          else (case v of
                  RBad _ e \<Rightarrow> Inl e
                | _ \<Rightarrow> (case sel v of None \<Rightarrow> Inl ErrWrongType | Some a \<Rightarrow> Inr (Some (a, x)))))"

text \<open>Storing a collection, or removing the key when it is empty.\<close>

definition put_or_drop :: "env \<Rightarrow> bytes \<Rightarrow> bool \<Rightarrow> rval \<Rightarrow> 64 word \<Rightarrow> keyspace \<Rightarrow> keyspace" where
  "put_or_drop E key none v x m = (if none then m(key := None) else put E key v x m)"

lemma coll_at_None_iff: "coll_at tag sel m key = Inr None \<longleftrightarrow> m key = None"
  by (auto simp: coll_at_def split: option.splits if_splits rval.splits)

locale typed_coll = store B contents E
  for B :: "('d, 't) badger" and contents :: "'t \<Rightarrow> bytes \<Rightarrow> item option" and E :: env +
  fixes tag :: bytes
    and dec :: "bytes option \<Rightarrow> err + 'c"
    and enc :: "'c \<Rightarrow> bytes"
    and good :: "'c \<Rightarrow> bool"
    and alpha :: "'c \<Rightarrow> 'a"
    and emb :: "'a \<Rightarrow> rval"
    and sel :: "rval \<Rightarrow> 'a option"
  assumes interp_dec: "interp E tag b = (case dec (Some b) of Inl e \<Rightarrow> RBad tag e | Inr c \<Rightarrow> emb (alpha c))"
    and interp_enc: "good c \<Longrightarrow> interp E tag (enc c) = emb (alpha c)"
    and dec_good: "dec d = Inr c \<Longrightarrow> good c"
    and dec_slice: "dec d = dec (Some (slice d))"
    and sel_emb: "sel (emb a) = Some a"
    and emb_type: "rtype (emb a) = tag" and emb_ok: "emb a \<noteq> RBad ty e"
begin

lemma coll_at_emb: "m key = Some (emb a, x) \<Longrightarrow> coll_at tag sel m key = Inr (Some (a, x))"
  by (cases "emb a") (use sel_emb [of a] emb_type [of a] emb_ok [of a] in \<open>auto simp: coll_at_def\<close>)

text \<open>What loading a collection returns, by what the key space holds.\<close>

lemma load_cases [case_names absent error present]:
  assumes "coll_at tag sel (view t) key = Inr None \<Longrightarrow>
             loadTyped B E tag dec key t = Inr None \<Longrightarrow> readTyped B E tag dec key t = Inr None \<Longrightarrow> P"
    and "\<And>e. coll_at tag sel (view t) key = Inl e \<Longrightarrow>
             loadTyped B E tag dec key t = Inl e \<Longrightarrow> readTyped B E tag dec key t = Inl e \<Longrightarrow> P"
    and "\<And>c x ttl. coll_at tag sel (view t) key = Inr (Some (alpha c, x)) \<Longrightarrow> good c \<Longrightarrow>
             loadTyped B E tag dec key t = Inr (Some (c, ttl)) \<Longrightarrow>
             readTyped B E tag dec key t = Inr (Some c) \<Longrightarrow>
             set_expiry B E ttl = kept_expiry B E x \<Longrightarrow> P"
  shows P
proof (cases rule: user_cases [of t key])
  case absent
  then show ?thesis by (intro assms(1)) (simp_all add: coll_at_def loadTyped_def readTyped_def)
next
  case (present v it)
  obtain b where b: "b_copy B it = Inr b" using copy_ok by blast
  with copy_value have sl: "slice b = it_val it" by blast
  have cn: "copy_or_nil B it = b" by (simp add: copy_or_nil_def b)
  have ty: "rtype v = seen_type E (contents t) key" using present by (simp add: interp_rtype)
  show ?thesis
  proof (cases "rtype v = tag")
    case False
    with present show ?thesis
      by (intro assms(2) [of ErrWrongType])
        (simp_all add: coll_at_def loadTyped_def readTyped_def ensureExistingType_view)
  next
    case True
    have v: "v = (case dec b of Inl e \<Rightarrow> RBad tag e | Inr c \<Rightarrow> emb (alpha c))"
      using present(3) ty True interp_dec dec_slice [of b] sl by simp
    show ?thesis
    proof (cases "dec b")
      case (Inl e)
      with v present True b cn show ?thesis
        by (intro assms(2) [of e])
          (simp_all add: coll_at_def loadTyped_def readTyped_def ensureExistingType_view)
    next
      case (Inr c)
      have "coll_at tag sel (view t) key = Inr (Some (alpha c, it_exp it))"
        using v Inr present(1) by (intro coll_at_emb) simp
      with v Inr present True b cn show ?thesis
        by (intro assms(3) [of c "it_exp it" "remainingTTLMs E it"])
          (simp_all add: loadTyped_def readTyped_def ensureExistingType_view kept_expiry_eq
            dec_good)
    qed
  qed
qed

lemma setValue_coll [simp]:
  "good c \<Longrightarrow> view (snd (setValue B E key (enc c) tag ttl t)) =
     put E key (emb (alpha c)) (set_expiry B E ttl) (view t)"
  by (simp add: interp_enc)

lemma storeOrDrop_run [simp]: "fst (storeOrDrop B E key none v typ ttl t) = Inr ()"
  by (simp add: storeOrDrop_def)

lemma storeOrDrop_view [simp]:
  "good c \<Longrightarrow> view (snd (storeOrDrop B E key none (enc c) tag ttl t)) =
     put_or_drop E key none (emb (alpha c)) (set_expiry B E ttl) (view t)"
  by (simp add: storeOrDrop_def put_or_drop_def interp_enc)

text \<open>The collection read back right after it was stored is the one that was stored.\<close>

lemma coll_at_put:
  "\<not> exp_passed (clock E) x \<Longrightarrow> coll_at tag sel (put E key (emb a) x m) key = Inr (Some (a, x))"
  by (rule coll_at_emb) (simp add: put_def)

end

section \<open>The three collection types\<close>

fun sel_hash :: "rval \<Rightarrow> (bytes \<rightharpoonup> bytes) option" where
  "sel_hash (RHash h) = Some h" | "sel_hash _ = None"

fun sel_list :: "rval \<Rightarrow> bytes list option" where
  "sel_list (RList xs) = Some xs" | "sel_list _ = None"

fun sel_set :: "rval \<Rightarrow> bytes set option" where
  "sel_set (RSet s) = Some s" | "sel_set _ = None"

sublocale store \<subseteq> hsh: typed_coll B contents E "''hash''" "decodeMsgpack_map E" "encodeMsgpack_map E"
    "\<lambda>m. distinct (map fst m)" map_of RHash sel_hash
proof unfold_locales
  show "interp E ''hash'' (encodeMsgpack_map E m) = RHash (map_of m)" if "distinct (map fst m)" for m
    using that by (simp add: encodeMsgpack_map_def)
qed (auto simp: interp_def decodeMsgpack_map_def split: sum.split intro: map_keys)

sublocale store \<subseteq> lst: typed_coll B contents E "''list''" "decodeMsgpack_list E" "encodeMsgpack_list E"
    "\<lambda>_. True" "\<lambda>xs. xs" RList sel_list
  by unfold_locales
    (auto simp: interp_def decodeMsgpack_list_def encodeMsgpack_list_def list_back split: sum.split)

sublocale store \<subseteq> st: typed_coll B contents E "''set''" "decodeMsgpack_list E" "encodeMsgpack_list E"
    "\<lambda>_. True" set RSet sel_set
  by unfold_locales
    (auto simp: interp_def decodeMsgpack_list_def encodeMsgpack_list_def list_back split: sum.split)

end
