(* ===== verification/FsmList.thy ===== *)
theory FsmList
  imports FsmTyped
begin

text \<open>
  List commands of \<open>store/fsm.go\<close>: the cases \<open>LPUSH\<close>/\<open>RPUSH\<close>/\<open>LPUSHX\<close>/\<open>RPUSHX\<close>,
  \<open>LPOP\<close>/\<open>RPOP\<close>, \<open>LTRIM\<close> and \<open>LREM\<close> of \<open>applyCmdInTxn\<close>, and the read methods
  \<open>LRange\<close>, \<open>LLen\<close> and \<open>LIndex\<close>.
\<close>

section \<open>Writes\<close>

text \<open>The loaded list, or the nil slice and no TTL for a missing key.\<close>

definition loadList :: "('d, 't) badger \<Rightarrow> env \<Rightarrow> bytes \<Rightarrow> 't \<Rightarrow> err + bytes list \<times> int" where
  "loadList B E key t =
     (case loadTyped B E ''list'' (decodeMsgpack_list E) key t of
        Inl e \<Rightarrow> Inl e
      | Inr None \<Rightarrow> Inr ([], 0)
      | Inr (Some r) \<Rightarrow> Inr r)"

fun push_loop :: "bytes \<Rightarrow> bytes list \<Rightarrow> bytes list \<Rightarrow> bytes list" where
  "push_loop opn [] list = list"
| "push_loop opn (arg # args) list =
     (if opn = ''LPUSH'' \<or> opn = ''LPUSHX'' then push_loop opn args ([arg] @ list)
      else push_loop opn args (list @ [arg]))"

definition applyPush :: "('d, 't) badger \<Rightarrow> env \<Rightarrow> Command \<Rightarrow> ('t, goval) tx" where
  "applyPush B E cmd t =
     (case loadTyped B E ''list'' (decodeMsgpack_list E) (Key cmd) t of
        Inl e \<Rightarrow> (Inl e, t)
      | Inr found \<Rightarrow>
          if found = None \<and> (Op cmd = ''LPUSHX'' \<or> Op cmd = ''RPUSHX'') then (Inr (GInt 0), t)
          else
            (let (list, oldTTLMs) = (case found of None \<Rightarrow> ([], 0) | Some r \<Rightarrow> r);
                 list = push_loop (Op cmd) (Args cmd) list
             in bind (setValue B E (Key cmd) (encodeMsgpack_list E list) ''list'' oldTTLMs)
                  (\<lambda>_. ret (GInt (int (length list)))) t))"

text \<open>How many to pop: one, or the first argument.\<close>

definition popCount :: "Command \<Rightarrow> err + int" where
  "popCount cmd =
     (case Args cmd of
        [] \<Rightarrow> Inr 1
      | a # _ \<Rightarrow>
          (case atoi a of
             (_, Some _) \<Rightarrow> Inl not_an_integer
           | (parsed, None) \<Rightarrow> if parsed < 0 then Inl not_an_integer else Inr parsed))"

definition applyPop :: "('d, 't) badger \<Rightarrow> env \<Rightarrow> Command \<Rightarrow> ('t, goval) tx" where
  "applyPop B E cmd =
     bind (readE (loadList B E (Key cmd)))
       (\<lambda>(list, oldTTLMs).
          if list = [] then ret GNil
          else
            bind (readE (\<lambda>_. popCount cmd))
              (\<lambda>parsed.
                 (let n = int (length list);
                      cnt = (if n < parsed then n else parsed);
                      popped = (if Op cmd = ''LPOP'' then take (nat cnt) list
                                else map (\<lambda>i. list ! (length list - 1 - i)) [0..<nat cnt]);
                      rest = (if Op cmd = ''LPOP'' then drop (nat cnt) list
                              else take (nat (n - cnt)) list)
                  in bind (storeOrDrop B E (Key cmd) (rest = []) (encodeMsgpack_list E rest)
                             ''list'' oldTTLMs)
                       (\<lambda>_. ret (if Args cmd \<noteq> [] then GStrs popped
                                 else GBytes (Some (popped ! 0)))))))"

text \<open>An argument by index; a missing one is an index panic.\<close>

definition argAt :: "Command \<Rightarrow> nat \<Rightarrow> err + bytes" where
  "argAt cmd i =
     (if i < length (Args cmd) then Inr (Args cmd ! i) else Inl (GoPanic ''index out of range''))"

definition applyLTrim :: "('d, 't) badger \<Rightarrow> env \<Rightarrow> Command \<Rightarrow> ('t, goval) tx" where
  "applyLTrim B E cmd =
     bind (readE (loadList B E (Key cmd)))
       (\<lambda>(list, oldTTLMs).
          bind (readE (\<lambda>_. argAt cmd 0))
            (\<lambda>a0. bind (readE (\<lambda>_. argAt cmd 1))
               (\<lambda>a1.
                  (let start = fst (atoi a0); stop = fst (atoi a1);
                       list = sliceList list start stop
                   in bind (storeOrDrop B E (Key cmd) (list = []) (encodeMsgpack_list E list)
                              ''list'' oldTTLMs)
                        (\<lambda>_. ret (GStr ''OK''))))))"

text \<open>The two loops of \<open>LREM\<close>; each returns what is kept and how many were removed.\<close>

fun lrem_forward :: "int \<Rightarrow> bytes \<Rightarrow> bytes list \<Rightarrow> int \<Rightarrow> bytes list \<Rightarrow> bytes list \<times> int" where
  "lrem_forward limit needle [] cnt kept = (kept, cnt)"
| "lrem_forward limit needle (v # vs) cnt kept =
     (if v = needle \<and> (limit = 0 \<or> cnt < limit) then lrem_forward limit needle vs (cnt + 1) kept
      else lrem_forward limit needle vs cnt (kept @ [v]))"

fun lrem_backward :: "int \<Rightarrow> bytes \<Rightarrow> bytes list \<Rightarrow> int \<Rightarrow> bytes list \<Rightarrow> bytes list \<times> int" where
  "lrem_backward limit needle [] cnt kept = (kept, cnt)"
| "lrem_backward limit needle (v # vs) cnt kept =
     (if v = needle \<and> cnt < wrap64 (- limit) then lrem_backward limit needle vs (cnt + 1) kept
      else lrem_backward limit needle vs cnt ([v] @ kept))"

definition lrem :: "int \<Rightarrow> bytes \<Rightarrow> bytes list \<Rightarrow> bytes list \<times> int" where
  "lrem limit needle list =
     (if 0 \<le> limit then lrem_forward limit needle list 0 []
      else lrem_backward limit needle (rev list) 0 [])"

definition applyLRem :: "('d, 't) badger \<Rightarrow> env \<Rightarrow> Command \<Rightarrow> ('t, goval) tx" where
  "applyLRem B E cmd =
     bind (readE (loadList B E (Key cmd)))
       (\<lambda>(list, oldTTLMs).
          bind (readE (\<lambda>_. argAt cmd 0))
            (\<lambda>a0. bind (readE (\<lambda>_. argAt cmd 1))
               (\<lambda>needle.
                  (let (kept, cnt) = lrem (fst (atoi a0)) needle list
                   in bind (storeOrDrop B E (Key cmd) (kept = []) (encodeMsgpack_list E kept)
                              ''list'' oldTTLMs)
                        (\<lambda>_. ret (GInt cnt))))))"

section \<open>Reads\<close>

definition LRange :: "('d, 't) badger \<Rightarrow> env \<Rightarrow> bytes \<Rightarrow> int \<Rightarrow> int \<Rightarrow> 't \<Rightarrow> err + bytes list" where
  "LRange B E key start stop t =
     (case readTyped B E ''list'' (decodeMsgpack_list E) key t of
        Inl e \<Rightarrow> Inl e
      | Inr r \<Rightarrow> Inr (sliceList (case r of None \<Rightarrow> [] | Some list \<Rightarrow> list) start stop))"

definition LLen :: "('d, 't) badger \<Rightarrow> env \<Rightarrow> bytes \<Rightarrow> 't \<Rightarrow> err + int" where
  "LLen B E key t =
     (case LRange B E key 0 (- 1) t of Inl e \<Rightarrow> Inl e | Inr list \<Rightarrow> Inr (int (length list)))"

definition LIndex :: "('d, 't) badger \<Rightarrow> env \<Rightarrow> bytes \<Rightarrow> int \<Rightarrow> 't \<Rightarrow> err + bytes option" where
  "LIndex B E key index t =
     (case LRange B E key 0 (- 1) t of
        Inl e \<Rightarrow> Inl e
      | Inr list \<Rightarrow>
          (let n = int (length list); index = (if index < 0 then n + index else index) in
           if index < 0 \<or> n \<le> index then Inr None else Inr (Some (list ! nat index))))"

section \<open>Specification on the key space\<close>

abbreviation list_at :: "keyspace \<Rightarrow> bytes \<Rightarrow> err + (bytes list \<times> 64 word) option" where
  "list_at \<equiv> coll_at ''list'' sel_list"

text \<open>The list at a key, empty when absent, with the expiry an update gives it.\<close>

definition list_or_empty ::
  "('d, 't) badger \<Rightarrow> env \<Rightarrow> keyspace \<Rightarrow> bytes \<Rightarrow> err + bytes list \<times> 64 word" where
  "list_or_empty B E m key =
     (case list_at m key of
        Inl e \<Rightarrow> Inl e
      | Inr None \<Rightarrow> Inr ([], 0)
      | Inr (Some (xs, x)) \<Rightarrow> Inr (xs, kept_expiry B E x))"

definition spec_push ::
  "('d, 't) badger \<Rightarrow> env \<Rightarrow> Command \<Rightarrow> keyspace \<Rightarrow> (err + goval) \<times> keyspace" where
  "spec_push B E cmd m =
     (case list_or_empty B E m (Key cmd) of
        Inl e \<Rightarrow> (Inl e, m)
      | Inr (xs, x) \<Rightarrow>
          if m (Key cmd) = None \<and> Op cmd \<in> {''LPUSHX'', ''RPUSHX''} then (Inr (GInt 0), m)
          else
            (let ys = (if Op cmd \<in> {''LPUSH'', ''LPUSHX''} then rev (Args cmd) @ xs else xs @ Args cmd)
             in (Inr (GInt (int (length ys))), put E (Key cmd) (RList ys) x m)))"

definition spec_pop ::
  "('d, 't) badger \<Rightarrow> env \<Rightarrow> Command \<Rightarrow> keyspace \<Rightarrow> (err + goval) \<times> keyspace" where
  "spec_pop B E cmd m =
     (case list_or_empty B E m (Key cmd) of
        Inl e \<Rightarrow> (Inl e, m)
      | Inr (xs, x) \<Rightarrow>
          if xs = [] then (Inr GNil, m)
          else
            (case popCount cmd of
               Inl e \<Rightarrow> (Inl e, m)
             | Inr c \<Rightarrow>
                 (let k = min (nat c) (length xs);
                      popped = (if Op cmd = ''LPOP'' then take k xs else take k (rev xs));
                      rest = (if Op cmd = ''LPOP'' then drop k xs else take (length xs - k) xs)
                  in (Inr (if Args cmd = [] then GBytes (Some (hd popped)) else GStrs popped),
                      put_or_drop E (Key cmd) (rest = []) (RList rest) x m))))"

text \<open>The elements whose index lies between two bounds, negative ones counted from the end.\<close>

definition index_of :: "bytes list \<Rightarrow> int \<Rightarrow> int" where
  "index_of xs i = (if i < 0 then int (length xs) + i else i)"

definition between :: "bytes list \<Rightarrow> int \<Rightarrow> int \<Rightarrow> bytes list" where
  "between xs start stop =
     nths xs {i. index_of xs start \<le> int i \<and> int i \<le> index_of xs stop}"

text \<open>Removing the first \<open>k\<close> occurrences of an element.\<close>

fun remove_first :: "nat \<Rightarrow> 'a \<Rightarrow> 'a list \<Rightarrow> 'a list" where
  "remove_first k v [] = []"
| "remove_first k v (x # xs) =
     (if x = v \<and> 0 < k then remove_first (k - 1) v xs else x # remove_first k v xs)"

definition spec_lrem :: "int \<Rightarrow> 'a \<Rightarrow> 'a list \<Rightarrow> 'a list" where
  "spec_lrem limit v xs =
     (if limit = 0 then filter (\<lambda>y. y \<noteq> v) xs
      else if 0 < limit then remove_first (nat limit) v xs
      else rev (remove_first (nat (wrap64 (- limit))) v (rev xs)))"

text \<open>An update of the list at a key by a function of the list.\<close>

definition spec_list_update ::
  "('d, 't) badger \<Rightarrow> env \<Rightarrow> bytes \<Rightarrow> (bytes list \<Rightarrow> bytes list) \<Rightarrow> (bytes list \<Rightarrow> goval) \<Rightarrow>
   keyspace \<Rightarrow> (err + goval) \<times> keyspace" where
  "spec_list_update B E key f reply m =
     (case list_or_empty B E m key of
        Inl e \<Rightarrow> (Inl e, m)
      | Inr (xs, x) \<Rightarrow> (Inr (reply xs), put_or_drop E key (f xs = []) (RList (f xs)) x m))"

section \<open>Lemmas\<close>

lemma push_loop_left:
  "opn = ''LPUSH'' \<or> opn = ''LPUSHX'' \<Longrightarrow> push_loop opn args xs = rev args @ xs"
  by (induction args arbitrary: xs) simp_all

lemma push_loop_right:
  "\<not> (opn = ''LPUSH'' \<or> opn = ''LPUSHX'') \<Longrightarrow> push_loop opn args xs = xs @ args"
  by (induction args arbitrary: xs) simp_all

lemma map_nth_rev: "k \<le> length xs \<Longrightarrow> map (\<lambda>i. xs ! (length xs - Suc i)) [0..<k] = take k (rev xs)"
  by (rule nth_equalityI) (simp_all add: rev_nth)

lemma take_drop_nths: "take (b - a) (drop a xs) = nths xs {i. a \<le> i \<and> i < b}"
proof (induction xs arbitrary: a b)
  case Nil
  then show ?case by simp
next
  case (Cons x xs)
  show ?case
  proof (cases a)
    case 0
    then show ?thesis
      using Cons.IH [of "b - 1" 0] by (cases b) (simp_all add: nths_Cons)
  next
    case (Suc a')
    then show ?thesis
      using Cons.IH [of "b - 1" a'] by (cases b) (simp_all add: nths_Cons)
  qed
qed

lemma nths_same:
  assumes "\<And>i. i < length xs \<Longrightarrow> i \<in> A \<longleftrightarrow> i \<in> C"
  shows "nths xs A = nths xs C"
  unfolding nths_def using assms
  by (intro arg_cong [where f = "map fst"] filter_cong) (auto simp: set_zip)

lemma sliceList_between: "sliceList xs start stop = between xs start stop"
proof (cases "xs = []")
  case True
  then show ?thesis by (simp add: sliceList_def between_def)
next
  case False
  let ?n = "int (length xs)"
  let ?a = "index_of xs start" and ?b = "index_of xs stop"
  let ?lo = "if ?a < 0 then 0 else ?a" and ?hi = "if ?n \<le> ?b then ?n - 1 else ?b"
  have sl: "sliceList xs start stop =
      (if ?hi < ?lo \<or> ?n \<le> ?lo then [] else take (nat (?hi + 1) - nat ?lo) (drop (nat ?lo) xs))"
    using False by (simp add: sliceList_def index_of_def Let_def)
  have same: "between xs start stop = nths xs {i. nat ?lo \<le> i \<and> i < nat (?hi + 1)}" if "?lo \<le> ?hi"
  proof -
    have "?a \<le> int i \<and> int i \<le> ?b \<longleftrightarrow> nat ?lo \<le> i \<and> i < nat (?hi + 1)" if "i < length xs" for i
      using that \<open>?lo \<le> ?hi\<close> by auto
    then show ?thesis unfolding between_def by (intro nths_same) auto
  qed
  show ?thesis
  proof (cases "?hi < ?lo \<or> ?n \<le> ?lo")
    case True
    have "nths xs {i. ?a \<le> int i \<and> int i \<le> ?b} = nths xs {}"
      by (rule nths_same) (use True in \<open>auto split: if_splits\<close>)
    with True show ?thesis by (simp add: sl between_def)
  next
    case nonempty: False
    then have "?lo \<le> ?hi" by linarith
    with same nonempty show ?thesis by (simp only: sl take_drop_nths if_False)
  qed
qed

text \<open>\<open>LREM\<close>: what the loops keep, and that the count is the number of removed elements.\<close>

lemma lrem_forward_all: "lrem_forward 0 v xs c kept =
    (kept @ filter (\<lambda>y. y \<noteq> v) xs, c + int (length xs - length (filter (\<lambda>y. y \<noteq> v) xs)))"
  by (induction xs arbitrary: c kept) (auto simp: Suc_diff_le length_filter_le)

lemma length_remove_first: "length (remove_first k v xs) \<le> length xs"
  by (induction k v xs rule: remove_first.induct) auto

lemma lrem_forward_pos: "0 < limit \<Longrightarrow> c \<le> limit \<Longrightarrow> lrem_forward limit v xs c kept =
    (kept @ remove_first (nat (limit - c)) v xs,
     c + int (length xs - length (remove_first (nat (limit - c)) v xs)))"
proof (induction xs arbitrary: c kept)
  case (Cons x xs)
  show ?case
  proof (cases "x = v \<and> c < limit")
    case True
    with Cons.prems have "nat (limit - (c + 1)) = nat (limit - c) - 1" "0 < nat (limit - c)" by auto
    with True Cons.IH [of "c + 1" kept] Cons.prems length_remove_first [of "nat (limit - c) - 1" v xs]
    show ?thesis by (auto simp: Suc_diff_le)
  next
    case False
    with Cons.IH [of c "kept @ [x]"] Cons.prems show ?thesis by auto
  qed
qed simp

lemma lrem_backward_eq: "c \<le> max 0 (wrap64 (- limit)) \<Longrightarrow> 0 \<le> c \<Longrightarrow> lrem_backward limit v xs c kept =
    (rev (remove_first (nat (wrap64 (- limit) - c)) v xs) @ kept,
     c + int (length xs - length (remove_first (nat (wrap64 (- limit) - c)) v xs)))"
proof (induction xs arbitrary: c kept)
  case (Cons x xs)
  let ?l = "wrap64 (- limit)"
  show ?case
  proof (cases "x = v \<and> c < ?l")
    case True
    with Cons.prems have "nat (?l - (c + 1)) = nat (?l - c) - 1" "0 < nat (?l - c)" by auto
    with True Cons.IH [of "c + 1" kept] Cons.prems length_remove_first [of "nat (?l - c) - 1" v xs]
    show ?thesis by (auto simp: Suc_diff_le)
  next
    case False
    with Cons.IH [of c "[x] @ kept"] Cons.prems show ?thesis by auto
  qed
qed simp

lemma lrem_spec: "lrem limit v xs = (spec_lrem limit v xs, int (length xs - length (spec_lrem limit v xs)))"
  by (simp add: lrem_def spec_lrem_def lrem_forward_all lrem_forward_pos lrem_backward_eq)

text \<open>What \<open>spec_lrem\<close> means: only the element goes, and exactly so many of it.\<close>

lemma filter_remove_first: "filter (\<lambda>y. y \<noteq> v) (remove_first k v xs) = filter (\<lambda>y. y \<noteq> v) xs"
  by (induction k v xs rule: remove_first.induct) auto

lemma count_remove_first: "count_list (remove_first k v xs) v = count_list xs v - k"
  by (induction k v xs rule: remove_first.induct) auto

lemma popCount_Inr: "popCount cmd = Inr c \<Longrightarrow> 0 \<le> c \<and> (Args cmd = [] \<longrightarrow> c = 1)"
  by (auto simp: popCount_def split: list.splits prod.splits option.splits if_splits)

context store
begin

lemma list_cases [case_names error ok]:
  assumes "\<And>e. list_or_empty B E (view t) key = Inl e \<Longrightarrow> loadList B E key t = Inl e \<Longrightarrow> P"
    and "\<And>xs x ttl. list_or_empty B E (view t) key = Inr (xs, x) \<Longrightarrow> loadList B E key t = Inr (xs, ttl) \<Longrightarrow>
           set_expiry B E ttl = x \<Longrightarrow> P"
  shows P
  by (cases rule: lst.load_cases [of t key])
    (auto simp: list_or_empty_def loadList_def set_expiry_def intro: assms)

lemma applyPush_spec: "run_spec view (applyPush B E cmd) t = spec_push B E cmd (view t)"
proof (cases rule: lst.load_cases [of t "Key cmd"])
  case absent
  then have "view t (Key cmd) = None" by (simp add: coll_at_None_iff)
  with absent show ?thesis
    by (simp add: run_spec_def applyPush_def spec_push_def list_or_empty_def monad_simps Let_def
        push_loop_left push_loop_right set_expiry_def lst.interp_enc)
next
  case (error e)
  then show ?thesis by (simp add: run_spec_def applyPush_def spec_push_def list_or_empty_def)
next
  case (present xs x ttl)
  then obtain w where "view t (Key cmd) = Some w"
    using coll_at_None_iff [of "''list''" sel_list "view t" "Key cmd"] by fastforce
  with present show ?thesis
    by (simp add: run_spec_def applyPush_def spec_push_def list_or_empty_def monad_simps Let_def
        push_loop_left push_loop_right lst.interp_enc)
qed

lemma applyPop_spec: "run_spec view (applyPop B E cmd) t = spec_pop B E cmd (view t)"
proof (cases rule: list_cases [of t "Key cmd"])
  case (error e)
  then show ?thesis by (simp add: run_spec_def applyPop_def spec_pop_def monad_simps)
next
  case (ok xs x ttl)
  show ?thesis
  proof (cases "popCount cmd")
    case (Inl e)
    with ok show ?thesis by (simp add: run_spec_def applyPop_def spec_pop_def monad_simps)
  next
    case (Inr c)
    let ?n = "int (length xs)"
    have c: "0 \<le> c" "Args cmd = [] \<Longrightarrow> c = 1" using popCount_Inr [OF Inr] by auto
    then have k: "nat (if ?n < c then ?n else c) = min (nat c) (length xs)"
      "nat (?n - (if ?n < c then ?n else c)) = length xs - min (nat c) (length xs)" by auto
    have hd: "ys ! 0 = hd ys" if "Args cmd = []" "ys = take (min (nat c) (length xs)) zs"
      "xs \<noteq> []" "length zs = length xs" for ys zs :: "bytes list"
      using that c by (intro hd_conv_nth [symmetric]) auto
    have map: "map (\<lambda>i. xs ! (length xs - Suc i)) [0..<min (nat c) (length xs)] =
        take (min (nat c) (length xs)) (rev xs)"
      by (rule map_nth_rev) simp
    show ?thesis using ok Inr
      by (auto simp: run_spec_def applyPop_def spec_pop_def monad_simps Let_def k map hd
          simp del: take_eq_Nil drop_eq_Nil)
  qed
qed

lemma argAt_01: "2 \<le> length (Args cmd) \<Longrightarrow> argAt cmd 0 = Inr (Args cmd ! 0) \<and> argAt cmd (Suc 0) = Inr (Args cmd ! 1)"
  by (auto simp: argAt_def)

lemma applyLTrim_spec:
  "2 \<le> length (Args cmd) \<Longrightarrow> run_spec view (applyLTrim B E cmd) t =
     spec_list_update B E (Key cmd)
       (\<lambda>xs. between xs (fst (atoi (Args cmd ! 0))) (fst (atoi (Args cmd ! 1))))
       (\<lambda>_. GStr ''OK'') (view t)"
  by (cases rule: list_cases [of t "Key cmd"])
    (simp_all add: run_spec_def applyLTrim_def spec_list_update_def argAt_01 monad_simps Let_def
      sliceList_between)

lemma applyLRem_spec:
  "2 \<le> length (Args cmd) \<Longrightarrow> run_spec view (applyLRem B E cmd) t =
     (let f = spec_lrem (fst (atoi (Args cmd ! 0))) (Args cmd ! 1)
      in spec_list_update B E (Key cmd) f (\<lambda>xs. GInt (int (length xs - length (f xs)))) (view t))"
  by (cases rule: list_cases [of t "Key cmd"])
    (simp_all add: run_spec_def applyLRem_def spec_list_update_def argAt_01 monad_simps Let_def
      lrem_spec)

lemma LRange_spec:
  "LRange B E key start stop t =
     (case list_at (view t) key of
        Inl e \<Rightarrow> Inl e
      | Inr None \<Rightarrow> Inr []
      | Inr (Some (xs, _)) \<Rightarrow> Inr (between xs start stop))"
  by (cases rule: lst.load_cases [of t key])
    (simp_all add: LRange_def sliceList_between, simp add: between_def)

lemma between_all [simp]: "between xs 0 (- 1) = xs"
  unfolding between_def
  by (subst nths_same [where C = UNIV]) (auto simp: index_of_def intro: nths_all)

lemma LLen_spec:
  "LLen B E key t =
     (case list_at (view t) key of
        Inl e \<Rightarrow> Inl e
      | Inr None \<Rightarrow> Inr 0
      | Inr (Some (xs, _)) \<Rightarrow> Inr (int (length xs)))"
  by (simp add: LLen_def LRange_spec split: sum.split option.split)

lemma LIndex_spec:
  "LIndex B E key i t =
     (case list_at (view t) key of
        Inl e \<Rightarrow> Inl e
      | Inr None \<Rightarrow> Inr None
      | Inr (Some (xs, _)) \<Rightarrow>
          Inr (if index_of xs i \<in> {0..<int (length xs)} then Some (xs ! nat (index_of xs i)) else None))"
  by (auto simp: LIndex_def LRange_spec Let_def index_of_def split: sum.split option.split)

end

end
