(* ===== verification/FsmHash.thy ===== *)
theory FsmHash
  imports FsmTyped
begin

text \<open>
  Hash commands of \<open>store/fsm.go\<close>: the cases \<open>HSET\<close>/\<open>HSETNX\<close> and \<open>HDEL\<close> of
  \<open>applyCmdInTxn\<close>, and the read methods \<open>HGet\<close>, \<open>HGetAll\<close>, \<open>HLen\<close>, \<open>HExists\<close>,
  \<open>HMGet\<close>, \<open>HKeys\<close> and \<open>HVals\<close>.
\<close>

section \<open>Writes\<close>

fun hset_loop :: "bytes \<Rightarrow> bytes list \<Rightarrow> gomap \<Rightarrow> int \<Rightarrow> gomap \<times> int" where
  "hset_loop opn (field # v # args) hash cnt =
     (if opn = ''HSETNX'' \<and> map_of hash field \<noteq> None then hset_loop opn args hash cnt
      else hset_loop opn args (map_put field v hash)
             (if map_of hash field = None then cnt + 1 else cnt))"
| "hset_loop opn _ hash cnt = (hash, cnt)"

definition applyHSet :: "('d, 't) badger \<Rightarrow> env \<Rightarrow> Command \<Rightarrow> ('t, goval) tx" where
  "applyHSet B E cmd =
     (if length (Args cmd) mod 2 \<noteq> 0 then throw (Errf (Op cmd @ '' invalid args''))
      else
        bind (readE (loadTyped B E ''hash'' (decodeMsgpack_map E) (Key cmd)))
          (\<lambda>found.
             (let (hash, oldTTLMs) = (case found of None \<Rightarrow> ([], 0) | Some r \<Rightarrow> r);
                  (hash, cnt) = hset_loop (Op cmd) (Args cmd) hash 0
              in bind (setValue B E (Key cmd) (encodeMsgpack_map E hash) ''hash'' oldTTLMs)
                   (\<lambda>_. ret (GInt cnt)))))"

fun hdel_loop :: "bytes list \<Rightarrow> gomap \<Rightarrow> int \<Rightarrow> gomap \<times> int" where
  "hdel_loop [] hash cnt = (hash, cnt)"
| "hdel_loop (field # args) hash cnt =
     (if map_of hash field \<noteq> None then hdel_loop args (map_del field hash) (cnt + 1)
      else hdel_loop args hash cnt)"

definition applyHDel :: "('d, 't) badger \<Rightarrow> env \<Rightarrow> Command \<Rightarrow> ('t, goval) tx" where
  "applyHDel B E cmd =
     bind (readE (loadTyped B E ''hash'' (decodeMsgpack_map E) (Key cmd)))
       (\<lambda>found. case found of
          None \<Rightarrow> ret (GInt 0)
        | Some (hash, oldTTLMs) \<Rightarrow>
            (let (hash, cnt) = hdel_loop (Args cmd) hash 0
             in bind (storeOrDrop B E (Key cmd) (hash = []) (encodeMsgpack_map E hash)
                        ''hash'' oldTTLMs)
                  (\<lambda>_. ret (GInt cnt))))"

section \<open>Reads\<close>

definition HGet :: "('d, 't) badger \<Rightarrow> env \<Rightarrow> bytes \<Rightarrow> bytes \<Rightarrow> 't \<Rightarrow> err + bytes option" where
  "HGet B E key field t =
     (case readTyped B E ''hash'' (decodeMsgpack_map E) key t of
        Inl e \<Rightarrow> Inl e
      | Inr None \<Rightarrow> Inr None
      | Inr (Some hash) \<Rightarrow> Inr (map_of hash field))"

definition HGetAll :: "('d, 't) badger \<Rightarrow> env \<Rightarrow> bytes \<Rightarrow> 't \<Rightarrow> err + gomap" where
  "HGetAll B E key t =
     (case readTyped B E ''hash'' (decodeMsgpack_map E) key t of
        Inl e \<Rightarrow> Inl e
      | Inr None \<Rightarrow> Inr []
      | Inr (Some hash) \<Rightarrow> Inr hash)"

definition HLen :: "('d, 't) badger \<Rightarrow> env \<Rightarrow> bytes \<Rightarrow> 't \<Rightarrow> err + int" where
  "HLen B E key t =
     (case HGetAll B E key t of Inl e \<Rightarrow> Inl e | Inr hash \<Rightarrow> Inr (int (length hash)))"

definition HExists :: "('d, 't) badger \<Rightarrow> env \<Rightarrow> bytes \<Rightarrow> bytes \<Rightarrow> 't \<Rightarrow> err + int" where
  "HExists B E key field t =
     (case HGetAll B E key t of
        Inl e \<Rightarrow> Inl e
      | Inr hash \<Rightarrow> Inr (if map_of hash field \<noteq> None then 1 else 0))"

definition HMGet :: "('d, 't) badger \<Rightarrow> env \<Rightarrow> bytes \<Rightarrow> bytes list \<Rightarrow> 't \<Rightarrow> err + bytes option list" where
  "HMGet B E key fs t =
     (case HGetAll B E key t of
        Inl e \<Rightarrow> Inl e
      | Inr hash \<Rightarrow> Inr (map (map_of hash) fs))"

definition HKeys :: "('d, 't) badger \<Rightarrow> env \<Rightarrow> bytes \<Rightarrow> 't \<Rightarrow> err + bytes list" where
  "HKeys B E key t =
     (case HGetAll B E key t of
        Inl e \<Rightarrow> Inl e
      | Inr hash \<Rightarrow> Inr (range_order E (map fst hash)))"

definition HVals :: "('d, 't) badger \<Rightarrow> env \<Rightarrow> bytes \<Rightarrow> 't \<Rightarrow> err + bytes list" where
  "HVals B E key t =
     (case HGetAll B E key t of
        Inl e \<Rightarrow> Inl e
      | Inr hash \<Rightarrow> Inr (map (\<lambda>k. the (map_of hash k)) (range_order E (map fst hash))))"

section \<open>Specification on the key space\<close>

abbreviation hash_at :: "keyspace \<Rightarrow> bytes \<Rightarrow> err + ((bytes \<rightharpoonup> bytes) \<times> 64 word) option" where
  "hash_at \<equiv> coll_at ''hash'' sel_hash"

fun pairs :: "'a list \<Rightarrow> ('a \<times> 'a) list" where
  "pairs (f # v # args) = (f, v) # pairs args"
| "pairs _ = []"

text \<open>
  \<open>HSET\<close> writes every pair, the last one for a field winning; \<open>HSETNX\<close> writes only
  fs that are not there, the first pair for a field winning.
\<close>

definition hash_written :: "bytes \<Rightarrow> bytes list \<Rightarrow> (bytes \<rightharpoonup> bytes) \<Rightarrow> bytes \<rightharpoonup> bytes" where
  "hash_written opn args h =
     (if opn = ''HSETNX'' then map_of (pairs args) ++ h else h ++ map_of (rev (pairs args)))"

definition spec_hset ::
  "('d, 't) badger \<Rightarrow> env \<Rightarrow> Command \<Rightarrow> keyspace \<Rightarrow> (err + goval) \<times> keyspace" where
  "spec_hset B E cmd m =
     (if odd (length (Args cmd)) then (Inl (Errf (Op cmd @ '' invalid args'')), m)
      else
        (case hash_at m (Key cmd) of
           Inl e \<Rightarrow> (Inl e, m)
         | Inr found \<Rightarrow>
             (let (h, x) = (case found of None \<Rightarrow> (Map.empty, 0) | Some (h, x) \<Rightarrow> (h, kept_expiry B E x));
                  h' = hash_written (Op cmd) (Args cmd) h
              in (Inr (GInt (int (card (dom h' - dom h)))), put E (Key cmd) (RHash h') x m))))"

definition spec_hdel ::
  "('d, 't) badger \<Rightarrow> env \<Rightarrow> Command \<Rightarrow> keyspace \<Rightarrow> (err + goval) \<times> keyspace" where
  "spec_hdel B E cmd m =
     (case hash_at m (Key cmd) of
        Inl e \<Rightarrow> (Inl e, m)
      | Inr None \<Rightarrow> (Inr (GInt 0), m)
      | Inr (Some (h, x)) \<Rightarrow>
          (let h' = h |` (- set (Args cmd))
           in (Inr (GInt (int (card (dom h \<inter> set (Args cmd))))),
               put_or_drop E (Key cmd) (h' = Map.empty) (RHash h') (kept_expiry B E x) m)))"

section \<open>Lemmas\<close>

lemma hset_loop_keys: "distinct (map fst hash) \<Longrightarrow> distinct (map fst (fst (hset_loop opn args hash c)))"
  by (induction opn args hash c rule: hset_loop.induct) simp_all

lemma hash_written_Cons:
  "hash_written opn (f # v # args) h =
     hash_written opn args (if opn = ''HSETNX'' \<and> h f \<noteq> None then h else h(f \<mapsto> v))"
  by (rule ext) (auto simp: hash_written_def map_add_def split: option.split)

lemma hset_loop_map: "map_of (fst (hset_loop opn args hash c)) = hash_written opn args (map_of hash)"
proof (induction opn args hash c rule: hset_loop.induct)
  case (1 opn f v args hash c)
  then show ?case
    by (cases "opn = ''HSETNX'' \<and> map_of hash f \<noteq> None")
      (simp_all only: hset_loop.simps hash_written_Cons map_of_map_put simp_thms if_True if_False)
qed (simp_all add: hash_written_def)

lemma dom_hash_written: "dom (hash_written opn args h) = dom h \<union> fst ` set (pairs args)"
  by (auto simp: hash_written_def dom_map_of_conv_image_fst)

lemma dom_map_put: "dom (map_of (map_put f v hash)) = insert f (dom (map_of hash))"
  by (auto split: if_splits)

lemma dom_map_del: "dom (map_of (map_del f hash)) = dom (map_of hash) - {f}"
  by (auto split: if_splits)

lemma hset_loop_count:
  "snd (hset_loop opn args hash c) = c + int (card (fst ` set (pairs args) - dom (map_of hash)))"
proof (induction opn args hash c rule: hset_loop.induct)
  case (1 opn f v args hash c)
  let ?F = "fst ` set (pairs args)" and ?D = "dom (map_of hash)"
  show ?case
  proof (cases "map_of hash f")
    case None
    then have "f \<notin> ?D" by auto
    then have "insert f ?F - ?D = insert f (?F - insert f ?D)" by auto
    then have "card (insert f ?F - ?D) = Suc (card (?F - insert f ?D))" by simp
    with None 1 show ?thesis by (simp add: dom_map_put del: map_of_map_put)
  next
    case (Some w)
    then have "f \<in> ?D" by auto
    then have "insert f ?F - ?D = ?F - ?D" "insert f ?D = ?D" by auto
    with Some 1 show ?thesis by (auto simp: dom_map_put simp del: map_of_map_put)
  qed
qed simp_all

lemma hdel_loop_keys: "distinct (map fst hash) \<Longrightarrow> distinct (map fst (fst (hdel_loop args hash c)))"
  by (induction args hash c rule: hdel_loop.induct) simp_all

lemma hdel_loop_map: "map_of (fst (hdel_loop args hash c)) = map_of hash |` (- set args)"
proof (induction args hash c rule: hdel_loop.induct)
  case (2 f args hash c)
  have "(map_of hash)(f := None) |` (- set args) = map_of hash |` (- insert f (set args))"
    by (auto simp: restrict_map_def)
  moreover have "map_of hash |` (- set args) = map_of hash |` (- insert f (set args))"
    if "map_of hash f = None"
    using that by (auto simp: restrict_map_def)
  ultimately show ?case using 2
    by (cases "map_of hash f = None")
      (simp_all only: hdel_loop.simps map_of_map_del list.set simp_thms if_True if_False)
qed simp

lemma hdel_loop_count:
  "snd (hdel_loop args hash c) = c + int (card (dom (map_of hash) \<inter> set args))"
proof (induction args hash c rule: hdel_loop.induct)
  case (2 f args hash c)
  let ?D = "dom (map_of hash)"
  show ?case
  proof (cases "map_of hash f")
    case None
    then have "?D \<inter> set (f # args) = ?D \<inter> set args" by auto
    with None 2 show ?thesis by simp
  next
    case (Some v)
    then have "?D \<inter> set (f # args) = insert f ((?D - {f}) \<inter> set args)" by auto
    then have "card (?D \<inter> set (f # args)) = Suc (card ((?D - {f}) \<inter> set args))"
      by (simp add: finite_dom_map_of)
    with Some 2 show ?thesis by (simp add: dom_map_del del: map_of_map_del)
  qed
qed simp

context store
begin

lemma applyHSet_spec: "run_spec view (applyHSet B E cmd) t = spec_hset B E cmd (view t)"
proof (cases "even (length (Args cmd))")
  case False
  then show ?thesis by (simp add: run_spec_def applyHSet_def spec_hset_def monad_simps odd_iff_mod_2_eq_one)
next
  case True
  have diff: "dom (hash_written opn args h) - dom h = fst ` set (pairs args) - dom h" for opn args h
    by (auto simp: dom_hash_written)
  obtain H C where loop0: "hset_loop (Op cmd) (Args cmd) [] 0 = (H, C)" by fastforce
  note eqs = run_spec_def applyHSet_def spec_hset_def monad_simps Let_def diff
  show ?thesis
  proof (cases rule: hsh.load_cases [of t "Key cmd"])
    case absent
    with True loop0 hset_loop_keys [of "[]" "Op cmd" "Args cmd" 0]
      hset_loop_map [of "Op cmd" "Args cmd" "[]" 0] hset_loop_count [of "Op cmd" "Args cmd" "[]" 0]
    show ?thesis by (simp add: eqs even_iff_mod_2_eq_zero set_expiry_def hsh.interp_enc)
  next
    case (error e)
    with True show ?thesis by (simp add: eqs even_iff_mod_2_eq_zero)
  next
    case (present h x ttl)
    obtain H C where "hset_loop (Op cmd) (Args cmd) h 0 = (H, C)" by fastforce
    with present True hset_loop_keys [of h "Op cmd" "Args cmd" 0]
      hset_loop_map [of "Op cmd" "Args cmd" h 0] hset_loop_count [of "Op cmd" "Args cmd" h 0]
    show ?thesis by (simp add: eqs even_iff_mod_2_eq_zero hsh.interp_enc)
  qed
qed

lemma applyHDel_spec: "run_spec view (applyHDel B E cmd) t = spec_hdel B E cmd (view t)"
proof (cases rule: hsh.load_cases [of t "Key cmd"])
  case (present h x ttl)
  obtain H C where loop: "hdel_loop (Args cmd) h 0 = (H, C)" by fastforce
  have none: "H = [] \<longleftrightarrow> map_of H = Map.empty" by (cases H) auto
  with present loop hdel_loop_keys [of h "Args cmd" 0]
    hdel_loop_map [of "Args cmd" h 0] hdel_loop_count [of "Args cmd" h 0]
  show ?thesis by (simp add: run_spec_def applyHDel_def spec_hdel_def monad_simps Let_def)
qed (simp_all add: run_spec_def applyHDel_def spec_hdel_def monad_simps)

lemma HGet_spec:
  "HGet B E key field t =
     (case hash_at (view t) key of
        Inl e \<Rightarrow> Inl e
      | Inr None \<Rightarrow> Inr None
      | Inr (Some (h, _)) \<Rightarrow> Inr (h field))"
  by (cases rule: hsh.load_cases [of t key]) (simp_all add: HGet_def)

lemma HGetAll_spec:
  obtains (error) e where "hash_at (view t) key = Inl e" and "HGetAll B E key t = Inl e"
  | (absent) "hash_at (view t) key = Inr None" and "HGetAll B E key t = Inr []"
  | (present) hash x where "hash_at (view t) key = Inr (Some (map_of hash, x))"
      and "distinct (map fst hash)" and "HGetAll B E key t = Inr hash"
  by (cases rule: hsh.load_cases [of t key]) (auto simp: HGetAll_def)

lemma HLen_spec:
  "HLen B E key t =
     (case hash_at (view t) key of
        Inl e \<Rightarrow> Inl e
      | Inr None \<Rightarrow> Inr 0
      | Inr (Some (h, _)) \<Rightarrow> Inr (int (card (dom h))))"
  by (cases rule: HGetAll_spec [of t key]) (simp_all add: HLen_def length_of_map_of)

lemma HExists_spec:
  "HExists B E key field t =
     (case hash_at (view t) key of
        Inl e \<Rightarrow> Inl e
      | Inr None \<Rightarrow> Inr 0
      | Inr (Some (h, _)) \<Rightarrow> Inr (if field \<in> dom h then 1 else 0))"
  by (cases rule: HGetAll_spec [of t key]) (auto simp: HExists_def)

lemma HMGet_spec:
  "HMGet B E key fs t =
     (case hash_at (view t) key of
        Inl e \<Rightarrow> Inl e
      | Inr None \<Rightarrow> Inr (map (\<lambda>_. None) fs)
      | Inr (Some (h, _)) \<Rightarrow> Inr (map h fs))"
  by (cases rule: HGetAll_spec [of t key]) (simp_all add: HMGet_def)

lemma HKeys_spec:
  assumes "hash_at (view t) key = Inr (Some (h, x))"
  obtains ks where "HKeys B E key t = Inr ks" and "distinct ks" and "set ks = dom h"
    and "HVals B E key t = Inr (map (\<lambda>k. the (h k)) ks)"
  using assms
  by (cases rule: HGetAll_spec [of t key])
    (auto simp: HKeys_def HVals_def dom_map_of_conv_image_fst)

end

end
