(* ===== verification/FsmSet.thy ===== *)
theory FsmSet
  imports FsmTyped
begin

text \<open>
  Set commands of \<open>store/fsm.go\<close>: the cases \<open>SADD\<close> and \<open>SREM\<close>/\<open>SPOP\<close> of
  \<open>applyCmdInTxn\<close>, and the read methods \<open>SMembers\<close>, \<open>SCard\<close>, \<open>SRandMember\<close> and
  \<open>SIsMember\<close>. A set is stored as the encoded list of its members, in the order the Go
  map was ranged over.
\<close>

section \<open>Writes\<close>

text \<open>\<open>for _, m := range members { set[m] = struct{}{} }\<close>\<close>

definition set_of_members :: "bytes list \<Rightarrow> bytes list" where
  "set_of_members members = fold set_put members []"

fun sadd_loop :: "bytes list \<Rightarrow> bytes list \<Rightarrow> int \<Rightarrow> bytes list \<times> int" where
  "sadd_loop [] s cnt = (s, cnt)"
| "sadd_loop (arg # args) s cnt =
     (if arg \<notin> set s then sadd_loop args (set_put arg s) (cnt + 1) else sadd_loop args s cnt)"

definition applySAdd :: "('d, 't) badger \<Rightarrow> env \<Rightarrow> Command \<Rightarrow> ('t, goval) tx" where
  "applySAdd B E cmd =
     bind (readE (loadTyped B E ''set'' (decodeMsgpack_list E) (Key cmd)))
       (\<lambda>found.
          (let (s, oldTTLMs) = (case found of None \<Rightarrow> ([], 0) | Some (ms, ttl) \<Rightarrow> (set_of_members ms, ttl));
               (s, cnt) = sadd_loop (Args cmd) s 0
           in bind (setValue B E (Key cmd) (encodeMsgpack_list E (range_order E s)) ''set'' oldTTLMs)
                (\<lambda>_. ret (GInt cnt))))"

fun srem_loop :: "bytes list \<Rightarrow> bytes list \<Rightarrow> int \<Rightarrow> bytes list \<times> int" where
  "srem_loop [] s cnt = (s, cnt)"
| "srem_loop (arg # args) s cnt =
     (if arg \<in> set s then srem_loop args (set_del arg s) (cnt + 1) else srem_loop args s cnt)"

text \<open>
  The \<open>SPOP\<close> loop ranges over the set and deletes what it pops; \<open>todo\<close> are the members
  the range has not produced yet.
\<close>

fun spop_loop :: "bytes list \<Rightarrow> int \<Rightarrow> bytes list \<Rightarrow> bytes list \<Rightarrow> bytes list \<times> bytes list" where
  "spop_loop [] cnt popped s = (popped, s)"
| "spop_loop (m # todo) cnt popped s =
     (if cnt \<le> int (length popped) then (popped, s)
      else spop_loop todo cnt (popped @ [m]) (set_del m s))"

definition spopCount :: "Command \<Rightarrow> int" where
  "spopCount cmd = (case Args cmd of [] \<Rightarrow> 1 | a # _ \<Rightarrow> fst (atoi a))"

definition applySRemPop :: "('d, 't) badger \<Rightarrow> env \<Rightarrow> Command \<Rightarrow> ('t, goval) tx" where
  "applySRemPop B E cmd =
     bind (readE (loadTyped B E ''set'' (decodeMsgpack_list E) (Key cmd)))
       (\<lambda>found. case found of
          None \<Rightarrow>
            ret (if Op cmd = ''SPOP'' \<and> Args cmd \<noteq> [] then GStrs []
                 else if Op cmd = ''SPOP'' then GNil
                 else GInt 0)
        | Some (ms, oldTTLMs) \<Rightarrow>
            (let s = set_of_members ms;
                 (s, cnt, popped) =
                   (if Op cmd = ''SREM'' then (let (s, cnt) = srem_loop (Args cmd) s 0 in (s, cnt, []))
                    else (let (popped, s) = spop_loop (range_order E s) (spopCount cmd) [] s
                          in (s, spopCount cmd, popped)));
                 members = range_order E s
             in bind (storeOrDrop B E (Key cmd) (members = []) (encodeMsgpack_list E members)
                        ''set'' oldTTLMs)
                  (\<lambda>_. ret (if Op cmd = ''SPOP''
                            then (if Args cmd \<noteq> [] then GStrs popped
                                  else if popped = [] then GNil
                                  else GBytes (Some (popped ! 0)))
                            else GInt cnt))))"

section \<open>Reads\<close>

definition SMembers :: "('d, 't) badger \<Rightarrow> env \<Rightarrow> bytes \<Rightarrow> 't \<Rightarrow> err + bytes list" where
  "SMembers B E key t =
     (case readTyped B E ''set'' (decodeMsgpack_list E) key t of
        Inl e \<Rightarrow> Inl e
      | Inr None \<Rightarrow> Inr []
      | Inr (Some ms) \<Rightarrow> Inr ms)"

definition SCard :: "('d, 't) badger \<Rightarrow> env \<Rightarrow> bytes \<Rightarrow> 't \<Rightarrow> err + int" where
  "SCard B E key t =
     (case SMembers B E key t of Inl e \<Rightarrow> Inl e | Inr ms \<Rightarrow> Inr (int (length ms)))"

text \<open>
  \<open>make\<close> panics when the length is negative or the slice, of elements of the given size, is
  larger than the address space of the runtime, $2^{48}$ bytes on 64-bit Linux. A string
  header takes 16 bytes. This is the check of the runtime only: a slice within the limit that
  does not fit the memory of the host passes it, and ends the process when it is filled. The
  model takes memory to suffice.
\<close>

definition slice_too_long :: "int \<Rightarrow> int \<Rightarrow> bool" where
  "slice_too_long width n \<longleftrightarrow> n < 0 \<or> 281474976710656 < n * width"

definition SRandMember ::
  "('d, 't) badger \<Rightarrow> env \<Rightarrow> bytes \<Rightarrow> int option \<Rightarrow> 't \<Rightarrow> err + bytes list" where
  "SRandMember B E key cnt t =
     (case SMembers B E key t of
        Inl e \<Rightarrow> Inl e
      | Inr ms \<Rightarrow>
          (case cnt of
             None \<Rightarrow> Inr ms
           | Some c \<Rightarrow>
               if c < 0 then
                 (if ms = [] then Inr []
                  else if slice_too_long 16 (wrap64 (- c)) then Inl (GoPanic ''makeslice: len out of range'')
                  else Inr (map (\<lambda>i. ms ! (i mod length ms)) [0..<nat (wrap64 (- c))]))
               else if int (length ms) \<le> c then Inr ms
               else Inr (take (nat c) ms)))"

definition SIsMember :: "('d, 't) badger \<Rightarrow> env \<Rightarrow> bytes \<Rightarrow> bytes \<Rightarrow> 't \<Rightarrow> err + int" where
  "SIsMember B E key member t =
     (case readTyped B E ''set'' (decodeMsgpack_list E) key t of
        Inl e \<Rightarrow> Inl e
      | Inr found \<Rightarrow>
          Inr (if member \<in> set (case found of None \<Rightarrow> [] | Some ms \<Rightarrow> ms) then 1 else 0))"

section \<open>Specification on the key space\<close>

abbreviation set_at :: "keyspace \<Rightarrow> bytes \<Rightarrow> err + (bytes set \<times> 64 word) option" where
  "set_at \<equiv> coll_at ''set'' sel_set"

definition spec_sadd ::
  "('d, 't) badger \<Rightarrow> env \<Rightarrow> Command \<Rightarrow> keyspace \<Rightarrow> (err + goval) \<times> keyspace" where
  "spec_sadd B E cmd m =
     (case set_at m (Key cmd) of
        Inl e \<Rightarrow> (Inl e, m)
      | Inr found \<Rightarrow>
          (let (s, x) = (case found of None \<Rightarrow> ({}, 0) | Some (s, x) \<Rightarrow> (s, kept_expiry B E x))
           in (Inr (GInt (int (card (set (Args cmd) - s)))),
               put E (Key cmd) (RSet (s \<union> set (Args cmd))) x m)))"

definition spec_srem ::
  "('d, 't) badger \<Rightarrow> env \<Rightarrow> Command \<Rightarrow> keyspace \<Rightarrow> (err + goval) \<times> keyspace" where
  "spec_srem B E cmd m =
     (case set_at m (Key cmd) of
        Inl e \<Rightarrow> (Inl e, m)
      | Inr None \<Rightarrow> (Inr (GInt 0), m)
      | Inr (Some (s, x)) \<Rightarrow>
          (let s' = s - set (Args cmd)
           in (Inr (GInt (int (card (s \<inter> set (Args cmd))))),
               put_or_drop E (Key cmd) (s' = {}) (RSet s') (kept_expiry B E x) m)))"

text \<open>
  \<open>SPOP\<close> may take any members; the specification is told which ones went and checks that
  they were distinct members and as many as asked for.
\<close>

definition spop_reply :: "Command \<Rightarrow> bytes list \<Rightarrow> goval" where
  "spop_reply cmd popped =
     (case Args cmd of
        [] \<Rightarrow> (case popped of [] \<Rightarrow> GNil | p # _ \<Rightarrow> GBytes (Some p))
      | _ # _ \<Rightarrow> GStrs popped)"

definition spec_spop ::
  "('d, 't) badger \<Rightarrow> env \<Rightarrow> Command \<Rightarrow> bytes list \<Rightarrow> keyspace \<Rightarrow> (err + goval) \<times> keyspace" where
  "spec_spop B E cmd popped m =
     (case set_at m (Key cmd) of
        Inl e \<Rightarrow> (Inl e, m)
      | Inr None \<Rightarrow> (Inr (spop_reply cmd []), m)
      | Inr (Some (s, x)) \<Rightarrow>
          (Inr (spop_reply cmd popped),
           put_or_drop E (Key cmd) (s - set popped = {}) (RSet (s - set popped)) (kept_expiry B E x) m))"

definition spop_choice :: "Command \<Rightarrow> bytes list \<Rightarrow> keyspace \<Rightarrow> bool" where
  "spop_choice cmd popped m =
     (case set_at m (Key cmd) of
        Inr (Some (s, _)) \<Rightarrow>
          distinct popped \<and> set popped \<subseteq> s \<and> length popped = min (nat (spopCount cmd)) (card s)
      | _ \<Rightarrow> popped = [])"

section \<open>Lemmas\<close>

lemma fold_set_put: "set (fold set_put ms s) = set ms \<union> set s"
  "distinct s \<Longrightarrow> distinct (fold set_put ms s)"
  by (induction ms arbitrary: s) auto

lemma set_of_members [simp]: "set (set_of_members ms) = set ms" "distinct (set_of_members ms)"
  by (simp_all add: set_of_members_def fold_set_put)

lemma sadd_loop_set: "set (fst (sadd_loop args s c)) = set s \<union> set args"
  by (induction args s c rule: sadd_loop.induct) auto

lemma sadd_loop_count: "snd (sadd_loop args s c) = c + int (card (set args - set s))"
proof (induction args s c rule: sadd_loop.induct)
  case (2 a args s c)
  have "set (a # args) - set s = insert a (set args - insert a (set s))" if "a \<notin> set s"
    using that by auto
  then have "card (set (a # args) - set s) = Suc (card (set args - insert a (set s)))" if "a \<notin> set s"
    using that by simp
  moreover have "set (a # args) - set s = set args - set s" if "a \<in> set s" using that by auto
  ultimately show ?case using 2 by auto
qed simp

lemma srem_loop_set: "set (fst (srem_loop args s c)) = set s - set args"
  by (induction args s c rule: srem_loop.induct) auto

lemma srem_loop_count: "snd (srem_loop args s c) = c + int (card (set s \<inter> set args))"
proof (induction args s c rule: srem_loop.induct)
  case (2 a args s c)
  have "set s \<inter> set (a # args) = insert a ((set s - {a}) \<inter> set args)" if "a \<in> set s"
    using that by auto
  then have "card (set s \<inter> set (a # args)) = Suc (card ((set s - {a}) \<inter> set args))" if "a \<in> set s"
    using that by simp
  moreover have "set s \<inter> set (a # args) = set s \<inter> set args" if "a \<notin> set s" using that by auto
  ultimately show ?case using 2 by auto
qed simp

lemma spop_loop_popped:
  "fst (spop_loop todo c popped s) = popped @ take (nat (c - int (length popped))) todo"
proof (induction todo c popped s rule: spop_loop.induct)
  case (2 m todo c popped s)
  have "nat (c - int (length (popped @ [m]))) = nat (c - int (length popped)) - 1" by auto
  with 2 show ?case by (simp add: take_Cons')
qed simp

lemma spop_loop_rest:
  "set (snd (spop_loop todo c popped s)) = set s - set (take (nat (c - int (length popped))) todo)"
proof (induction todo c popped s rule: spop_loop.induct)
  case (2 m todo c popped s)
  have "nat (c - int (length (popped @ [m]))) = nat (c - int (length popped)) - 1" by auto
  with 2 show ?case by (auto simp: take_Cons')
qed simp

lemma spop_reply_eq:
  "spop_reply cmd popped =
     (if Args cmd \<noteq> [] then GStrs popped else if popped = [] then GNil else GBytes (Some (popped ! 0)))"
  by (simp add: spop_reply_def split: list.split)

context store
begin

lemma applySAdd_spec: "run_spec view (applySAdd B E cmd) t = spec_sadd B E cmd (view t)"
proof -
  note eqs = run_spec_def applySAdd_def spec_sadd_def monad_simps Let_def st.interp_enc
  show ?thesis
  proof (cases rule: st.load_cases [of t "Key cmd"])
    case absent
    obtain s c where "sadd_loop (Args cmd) [] 0 = (s, c)" by fastforce
    with absent sadd_loop_set [of "Args cmd" "[]" 0] sadd_loop_count [of "Args cmd" "[]" 0]
    show ?thesis by (simp add: eqs set_expiry_def)
  next
    case (error e)
    then show ?thesis by (simp add: eqs)
  next
    case (present ms x ttl)
    obtain s c where "sadd_loop (Args cmd) (set_of_members ms) 0 = (s, c)" by fastforce
    with present sadd_loop_set [of "Args cmd" "set_of_members ms" 0]
      sadd_loop_count [of "Args cmd" "set_of_members ms" 0]
    show ?thesis by (simp add: eqs)
  qed
qed

lemma range_empty [simp]: "range_order E xs = [] \<longleftrightarrow> xs = []"
  using length_range [of xs] by (metis length_0_conv)

lemma applySRem_spec:
  assumes "Op cmd = ''SREM''"
  shows "run_spec view (applySRemPop B E cmd) t = spec_srem B E cmd (view t)"
proof (cases rule: st.load_cases [of t "Key cmd"])
  case (present ms x ttl)
  obtain s c where "srem_loop (Args cmd) (set_of_members ms) 0 = (s, c)" by fastforce
  moreover from this have s: "set s = set ms - set (Args cmd)" "c = int (card (set ms \<inter> set (Args cmd)))"
    using srem_loop_set [of "Args cmd" "set_of_members ms" 0]
      srem_loop_count [of "Args cmd" "set_of_members ms" 0] by simp_all
  moreover from s have "s = [] \<longleftrightarrow> set ms - set (Args cmd) = {}" by (metis set_empty)
  ultimately show ?thesis using present assms
    by (simp add: run_spec_def applySRemPop_def spec_srem_def monad_simps Let_def del: Diff_eq_empty_iff)
qed (simp_all add: run_spec_def applySRemPop_def spec_srem_def monad_simps assms)

text \<open>What \<open>SPOP\<close> takes are the first members the range over the loaded set visits.\<close>

lemma applySPop_run:
  assumes "Op cmd = ''SPOP''" and "set_at (view t) (Key cmd) = Inr (Some (s, x))"
  obtains ms where "set ms = s" and "distinct ms"
    and "run_spec view (applySRemPop B E cmd) t =
      spec_spop B E cmd (take (nat (spopCount cmd)) (range_order E ms)) (view t)"
proof (cases rule: st.load_cases [of t "Key cmd"])
  case (present ms x' ttl)
  let ?s = "set_of_members ms"
  obtain p r where l: "spop_loop (range_order E ?s) (spopCount cmd) [] ?s = (p, r)" by fastforce
  have p: "p = take (nat (spopCount cmd)) (range_order E ?s)" "set r = set ms - set p"
    using l spop_loop_popped [of "range_order E ?s" "spopCount cmd" "[]" ?s]
      spop_loop_rest [of "range_order E ?s" "spopCount cmd" "[]" ?s] by simp_all
  then have rest: "set r = set ms - set p" "r = [] \<longleftrightarrow> set ms - set p = {}"
    by (auto simp flip: set_empty)
  have "run_spec view (applySRemPop B E cmd) t = spec_spop B E cmd p (view t)"
    using present l rest assms(1)
    by (simp add: run_spec_def applySRemPop_def spec_spop_def spop_reply_eq monad_simps Let_def
        del: Diff_eq_empty_iff)
  with p present(1) assms(2) show ?thesis by (intro that [of ?s]) simp_all
qed (use assms(2) in simp_all)

lemma applySPop_spec:
  assumes "Op cmd = ''SPOP''"
  shows "\<exists>popped. spop_choice cmd popped (view t) \<and>
           run_spec view (applySRemPop B E cmd) t = spec_spop B E cmd popped (view t)"
proof (cases "\<exists>s x. set_at (view t) (Key cmd) = Inr (Some (s, x))")
  case True
  then obtain s x where at: "set_at (view t) (Key cmd) = Inr (Some (s, x))" by blast
  obtain ms where ms: "set ms = s" "distinct ms"
    and run: "run_spec view (applySRemPop B E cmd) t =
      spec_spop B E cmd (take (nat (spopCount cmd)) (range_order E ms)) (view t)"
    using applySPop_run [OF assms at] .
  have "length ms = card s" using ms by (metis distinct_card)
  then have "spop_choice cmd (take (nat (spopCount cmd)) (range_order E ms)) (view t)"
    using at ms by (auto simp: spop_choice_def dest: in_set_takeD)
  with run show ?thesis by blast
next
  case False
  then show ?thesis
    by (cases rule: st.load_cases [of t "Key cmd"])
      (auto simp: run_spec_def applySRemPop_def spec_spop_def spop_choice_def spop_reply_def
        monad_simps assms split: list.split)
qed

lemma SMembers_spec:
  obtains (error) e where "set_at (view t) key = Inl e" and "SMembers B E key t = Inl e"
  | (absent) "set_at (view t) key = Inr None" and "SMembers B E key t = Inr []"
  | (present) ms x where "set_at (view t) key = Inr (Some (set ms, x))" and "SMembers B E key t = Inr ms"
  by (cases rule: st.load_cases [of t key]) (auto simp: SMembers_def)

lemma SIsMember_spec:
  "SIsMember B E key member t =
     (case set_at (view t) key of
        Inl e \<Rightarrow> Inl e
      | Inr None \<Rightarrow> Inr 0
      | Inr (Some (s, _)) \<Rightarrow> Inr (if member \<in> s then 1 else 0))"
  by (cases rule: st.load_cases [of t key]) (simp_all add: SIsMember_def)

end

end
