(* ===== verification/Dispatch.thy ===== *)
theory Dispatch
  imports FsmList FsmHash FsmSet
begin

text \<open>
  The \<open>switch\<close> of \<open>applyCmdInTxn\<close> (\<open>store/fsm.go\<close>) over the commands that do not run
  scripts, and two facts about all of them at once: which keys of the database a command
  can change, whatever the storage engine answers, and that in a run without storage
  faults the key space develops as the specification of the command says.
\<close>

section \<open>The switch\<close>

definition applyPlain :: "('d, 't) badger \<Rightarrow> env \<Rightarrow> Command \<Rightarrow> ('t, goval) tx" where
  "applyPlain B E cmd =
     (if Op cmd \<in> {''SET'', ''GETSET'', ''APPEND''} then applySet B E cmd
      else if Op cmd = ''MSET'' then applyMSet B E cmd
      else if Op cmd = ''DEL'' then applyDel B E cmd
      else if Op cmd = ''FLUSHDB'' then applyFlushDB B E cmd
      else if Op cmd \<in> {''INCR'', ''DECR'', ''INCRBY'', ''DECRBY''} then applyIncr B E cmd
      else if Op cmd = ''EXPIRE'' then applyExpire B E cmd
      else if Op cmd = ''PERSIST'' then applyPersist B E cmd
      else if Op cmd \<in> {''HSET'', ''HSETNX''} then applyHSet B E cmd
      else if Op cmd = ''HDEL'' then applyHDel B E cmd
      else if Op cmd \<in> {''LPUSH'', ''RPUSH'', ''LPUSHX'', ''RPUSHX''} then applyPush B E cmd
      else if Op cmd \<in> {''LPOP'', ''RPOP''} then applyPop B E cmd
      else if Op cmd = ''LTRIM'' then applyLTrim B E cmd
      else if Op cmd = ''LREM'' then applyLRem B E cmd
      else if Op cmd = ''SADD'' then applySAdd B E cmd
      else if Op cmd \<in> {''SREM'', ''SPOP''} then applySRemPop B E cmd
      else throw (Errf (''unknown op: '' @ Op cmd)))"

text \<open>The keys a command names.\<close>

definition named_keys :: "Command \<Rightarrow> bytes set" where
  "named_keys cmd =
     (if Op cmd = ''MSET'' then set (map fst (pairs (Args cmd)))
      else if Op cmd = ''DEL'' then (if Args cmd = [] then {Key cmd} else set (Args cmd))
      else if Op cmd = ''FLUSHDB'' then UNIV
      else {Key cmd})"

text \<open>The database keys that hold the values and types of some user keys.\<close>

definition entries_of :: "bytes set \<Rightarrow> bytes set" where
  "entries_of K = userKey ` K \<union> typeKey ` K"

section \<open>The specification of a command\<close>

text \<open>
  The result and the key space after a command. \<open>popped\<close> are the members an \<open>SPOP\<close> takes,
  which the command is free to choose. \<open>LTRIM\<close> and \<open>LREM\<close> without their two arguments panic
  once the list is loaded.
\<close>

definition spec_two_args ::
  "('d, 't) badger \<Rightarrow> env \<Rightarrow> Command \<Rightarrow> (bytes list \<Rightarrow> bytes list) \<Rightarrow> (bytes list \<Rightarrow> goval) \<Rightarrow>
   keyspace \<Rightarrow> (err + goval) \<times> keyspace" where
  "spec_two_args B E cmd f reply m =
     (if 2 \<le> length (Args cmd) then spec_list_update B E (Key cmd) f reply m
      else (case list_or_empty B E m (Key cmd) of
              Inl e \<Rightarrow> (Inl e, m)
            | Inr _ \<Rightarrow> (Inl (GoPanic ''index out of range''), m)))"

definition spec_plain ::
  "('d, 't) badger \<Rightarrow> env \<Rightarrow> Command \<Rightarrow> bytes list \<Rightarrow> keyspace \<Rightarrow> (err + goval) \<times> keyspace" where
  "spec_plain B E cmd popped m =
     (if Op cmd \<in> {''SET'', ''GETSET'', ''APPEND''} then
        (if Args cmd = [] then (Inl (Errf (Op cmd @ '' missing args'')), m) else spec_set B E cmd m)
      else if Op cmd = ''MSET'' then
        (if odd (length (Args cmd)) then (Inl (Errf ''MSET invalid args''), m)
         else (Inr (GStr ''OK''), spec_mset E (Args cmd) m))
      else if Op cmd = ''DEL'' then spec_del cmd m
      else if Op cmd = ''FLUSHDB'' then (Inr (GStr ''OK''), Map.empty)
      else if Op cmd \<in> {''INCR'', ''DECR'', ''INCRBY'', ''DECRBY''} then spec_incr B E cmd m
      else if Op cmd = ''EXPIRE'' then spec_expire B E cmd m
      else if Op cmd = ''PERSIST'' then spec_persist cmd m
      else if Op cmd \<in> {''HSET'', ''HSETNX''} then spec_hset B E cmd m
      else if Op cmd = ''HDEL'' then spec_hdel B E cmd m
      else if Op cmd \<in> {''LPUSH'', ''RPUSH'', ''LPUSHX'', ''RPUSHX''} then spec_push B E cmd m
      else if Op cmd \<in> {''LPOP'', ''RPOP''} then spec_pop B E cmd m
      else if Op cmd = ''LTRIM'' then
        spec_two_args B E cmd
          (\<lambda>xs. between xs (fst (atoi (Args cmd ! 0))) (fst (atoi (Args cmd ! 1))))
          (\<lambda>_. GStr ''OK'') m
      else if Op cmd = ''LREM'' then
        (let f = spec_lrem (fst (atoi (Args cmd ! 0))) (Args cmd ! 1)
         in spec_two_args B E cmd f (\<lambda>xs. GInt (int (length xs - length (f xs)))) m)
      else if Op cmd = ''SADD'' then spec_sadd B E cmd m
      else if Op cmd = ''SREM'' then spec_srem B E cmd m
      else if Op cmd = ''SPOP'' then spec_spop B E cmd popped m
      else (Inl (Errf (''unknown op: '' @ Op cmd)), m))"

section \<open>Frames\<close>

text \<open>An operation stays within a set of database keys, also when calls of it fail.\<close>

context badger_txn
begin

definition frame :: "bytes set \<Rightarrow> ('t, 'a) tx \<Rightarrow> bool" where
  "frame R f \<longleftrightarrow> (\<forall>t k. k \<notin> R \<longrightarrow> contents (snd (f t)) k = contents t k)"

lemma frameI: "(\<And>t k. k \<notin> R \<Longrightarrow> contents (snd (f t)) k = contents t k) \<Longrightarrow> frame R f"
  by (simp add: frame_def)

lemma frameD: "frame R f \<Longrightarrow> k \<notin> R \<Longrightarrow> contents (snd (f t)) k = contents t k"
  by (simp add: frame_def)

lemma frame_mono: "frame R f \<Longrightarrow> R \<subseteq> R' \<Longrightarrow> frame R' f"
  by (auto simp: frame_def)

lemma frame_ret: "frame R (ret x)"
  by (simp add: frame_def monad_simps)

lemma frame_throw: "frame R (throw e)"
  by (simp add: frame_def monad_simps)

lemma frame_readE: "frame R (readE g)"
  by (simp add: frame_def monad_simps)

lemma frame_bind: "frame R f \<Longrightarrow> (\<And>x. frame R (g x)) \<Longrightarrow> frame R (bind f g)"
  by (auto simp: frame_def monad_simps split: sum.split)

lemma frame_ignore: "frame R f \<Longrightarrow> frame R (ignore_err f)"
  by (simp add: frame_def monad_simps)

lemma frame_for_each: "(\<And>x. x \<in> set xs \<Longrightarrow> frame R (f x)) \<Longrightarrow> frame R (for_each f xs)"
  by (induction xs) (simp_all add: frame_ret frame_bind)

lemma frame_set: "e_key e \<in> R \<Longrightarrow> frame R (b_set B e)"
proof (rule frameI)
  fix t k assume "e_key e \<in> R" "k \<notin> R"
  then show "contents (snd (b_set B e t)) k = contents t k"
    by (cases "fst (b_set B e t)") (auto simp: set_contents set_failed)
qed

lemma frame_del: "k \<in> R \<Longrightarrow> frame R (b_del B k)"
proof (rule frameI)
  fix t k' assume "k \<in> R" "k' \<notin> R"
  then show "contents (snd (b_del B k t)) k' = contents t k'"
    by (cases "fst (b_del B k t)") (auto simp: del_contents del_failed)
qed

text \<open>An operation that looks at the transaction first and then acts.\<close>

lemma frame_dep: "(\<And>t. frame R (f t)) \<Longrightarrow> frame R (\<lambda>t. f t t)"
  by (simp add: frame_def)

lemma frame_const: "frame R (\<lambda>t. (x, t))"
  by (simp add: frame_def)

lemmas frame_intros = frame_ret frame_throw frame_readE frame_bind frame_ignore frame_for_each
  frame_set frame_del frame_const

lemma frame_setValue: "frame (entries_of {key}) (setValue B E key v typ ttl)"
  unfolding setValue_def Let_def
  by (intro frame_intros) (auto simp: NewEntry_def WithTTL_def entries_of_def)

lemma frame_dropKey: "frame (entries_of {key}) (dropKey B key)"
  unfolding dropKey_def by (intro frame_intros) (auto simp: entries_of_def)

lemma frame_storeOrDrop: "frame (entries_of {key}) (storeOrDrop B E key none v typ ttl)"
  by (simp add: storeOrDrop_def frame_setValue frame_dropKey)

text \<open>The cases of the switch.\<close>

lemma frame_applySet: "frame (entries_of {Key cmd}) (applySet B E cmd)"
proof -
  have "frame (entries_of {Key cmd}) (setTail B E cmd ex old ttl)" for ex old ttl
    by (simp add: setTail_def Let_def frame_bind frame_ret frame_setValue)
  from frameD [OF this] show ?thesis
    by (intro frameI) (auto simp: applySet_def split: sum.split)
qed

lemma frame_applyMSet: "frame (entries_of (set (map fst (pairs (Args cmd))))) (applyMSet B E cmd)"
proof -
  have "frame (entries_of (set (map fst (pairs args)))) (mset_loop B E args)" for args
  proof (induction args rule: pairs.induct)
    case (1 k v args)
    let ?R = "entries_of (set (map fst (pairs (k # v # args))))"
    have "frame ?R (setValue B E k v ''string'' 0)" "frame ?R (mset_loop B E args)"
      by (rule frame_mono [OF frame_setValue], force simp: entries_of_def)
        (rule frame_mono [OF 1], force simp: entries_of_def)
    then show ?case by (simp add: frame_bind)
  qed (simp_all add: frame_intros)
  then show ?thesis by (simp add: applyMSet_def frame_intros)
qed

lemma frame_applyDel: "frame (entries_of (named_keys cmd)) (applyDel B E cmd)" if "Op cmd = ''DEL''"
proof -
  have loop: "frame (entries_of (set ks)) (del_loop B E ks cnt)" for ks cnt
  proof (induction ks arbitrary: cnt)
    case (Cons k ks)
    let ?R = "entries_of (set (k # ks))"
    have "frame ?R (del_loop B E ks cnt)" for cnt
      by (rule frame_mono [OF Cons]) (auto simp: entries_of_def)
    moreover have "userKey k \<in> ?R" "typeKey k \<in> ?R" by (auto simp: entries_of_def)
    ultimately have "frame ?R (bind (b_del B (userKey k))
        (\<lambda>_. bind (ignore_err (b_del B (typeKey k))) (\<lambda>_. del_loop B E ks (cnt + 1))))"
      and "frame ?R (del_loop B E ks cnt)" by (auto intro!: frame_intros)
    from frameD [OF this(1)] frameD [OF this(2)] show ?case
      by (intro frameI) (auto split: sum.split)
  qed (simp add: frame_const)
  have "entries_of (set (Args cmd)) \<subseteq> entries_of (named_keys cmd)"
    using that by (auto simp: named_keys_def entries_of_def)
  moreover have "frame (entries_of (named_keys cmd)) (b_del B (userKey (Key cmd)))" if "Args cmd = []"
    using \<open>Op cmd = ''DEL''\<close> that by (intro frame_del) (simp add: named_keys_def entries_of_def)
  moreover have "snd (case p of (Inl _, t') \<Rightarrow> (a, t') | (Inr _, t') \<Rightarrow> (b, t')) = snd p"
    for p :: "(err + unit) \<times> 't" and a b :: "err + goval"
    by (simp split: prod.split sum.split)
  ultimately show ?thesis unfolding applyDel_def
    by (intro frame_bind frame_mono [OF loop]) (auto simp: frame_def split: sum.split)
qed

lemma frame_delete_prefix: "frame {k. prefix p k} (delete_prefix B E p)"
proof -
  have "frame {k. prefix p k} (for_each (b_del B) (scan_prefix p ks))" for ks
    by (intro frame_intros) (auto simp: scan_prefix_def dest: set_takeWhileD)
  from frameD [OF this] show ?thesis
    by (intro frameI) (simp add: delete_prefix_def)
qed

lemma entries_of_UNIV: "entries_of UNIV = {k. prefix [prefixUser] k} \<union> {k. prefix [prefixType] k}"
  by (auto simp: entries_of_def userKey_def typeKey_def prefix_def image_iff)

lemma frame_applyFlushDB: "frame (entries_of UNIV) (applyFlushDB B E cmd)"
  unfolding applyFlushDB_def entries_of_UNIV
  by (intro frame_bind frame_ret frame_mono [OF frame_delete_prefix]) auto

lemma frame_applyExpire: "frame (entries_of {Key cmd}) (applyExpire B E cmd)"
proof -
  have "frame (entries_of {Key cmd})
      (bind (b_set B (WithTTL B (clock E) ttl (NewEntry (userKey (Key cmd)) v))) (\<lambda>_. ret r))" for ttl v r
    by (intro frame_intros) (simp add: WithTTL_def NewEntry_def entries_of_def)
  from frameD [OF this] show ?thesis
    by (intro frameI) (auto simp: applyExpire_def Let_def split: sum.split)
qed

lemma frame_applyPersist: "frame (entries_of {Key cmd}) (applyPersist B E cmd)"
proof -
  have "frame (entries_of {Key cmd}) (bind (setValue B E (Key cmd) v ty 0) (\<lambda>_. ret r))" for v ty r
    by (intro frame_bind frame_ret frame_setValue)
  from frameD [OF this] show ?thesis
    by (intro frameI) (auto simp: applyPersist_def Let_def split: sum.split)
qed

lemma frame_applyPush: "frame (entries_of {Key cmd}) (applyPush B E cmd)"
proof -
  have "frame (entries_of {Key cmd}) (bind (setValue B E (Key cmd) v ty ttl) (\<lambda>_. ret r))" for v ty ttl r
    by (intro frame_bind frame_ret frame_setValue)
  from frameD [OF this] show ?thesis
    by (intro frameI) (auto simp: applyPush_def Let_def split: sum.split prod.split)
qed

lemmas frame_collection = frame_bind frame_readE frame_ret frame_throw frame_setValue frame_storeOrDrop

lemma frame_applyIncr: "frame (entries_of {Key cmd}) (applyIncr B E cmd)"
  by (auto simp: applyIncr_def Let_def intro!: frame_collection)

lemma frame_applyHSet: "frame (entries_of {Key cmd}) (applyHSet B E cmd)"
  by (auto simp: applyHSet_def Let_def intro!: frame_collection split: prod.split)

lemma frame_applyHDel: "frame (entries_of {Key cmd}) (applyHDel B E cmd)"
  by (auto simp: applyHDel_def Let_def intro!: frame_collection split: prod.split option.split)

lemma frame_applyPop: "frame (entries_of {Key cmd}) (applyPop B E cmd)"
  by (auto simp: applyPop_def Let_def intro!: frame_collection split: prod.split)

lemma frame_applyLTrim: "frame (entries_of {Key cmd}) (applyLTrim B E cmd)"
  by (auto simp: applyLTrim_def Let_def intro!: frame_collection split: prod.split)

lemma frame_applyLRem: "frame (entries_of {Key cmd}) (applyLRem B E cmd)"
  by (auto simp: applyLRem_def Let_def intro!: frame_collection split: prod.split)

lemma frame_applySAdd: "frame (entries_of {Key cmd}) (applySAdd B E cmd)"
  by (auto simp: applySAdd_def Let_def intro!: frame_collection split: prod.split)

lemma frame_applySRemPop: "frame (entries_of {Key cmd}) (applySRemPop B E cmd)"
  by (auto simp: applySRemPop_def Let_def intro!: frame_collection split: prod.split option.split)

lemmas frame_cases = frame_applySet frame_applyMSet frame_applyDel frame_applyFlushDB frame_applyIncr
  frame_applyExpire frame_applyPersist frame_applyHSet frame_applyHDel frame_applyPush frame_applyPop
  frame_applyLTrim frame_applyLRem frame_applySAdd frame_applySRemPop frame_throw

lemma frame_applyPlain: "frame (entries_of (named_keys cmd)) (applyPlain B E cmd)"
  using frame_cases
  by (simp add: applyPlain_def) (auto simp: named_keys_def)

end

section \<open>The switch implements the specification\<close>

context store
begin

lemma argAt_missing:
  "length (Args cmd) < 2 \<Longrightarrow>
     argAt cmd 0 = Inl (GoPanic ''index out of range'') \<or>
     (\<exists>a. argAt cmd 0 = Inr a) \<and> argAt cmd (Suc 0) = Inl (GoPanic ''index out of range'')"
  by (auto simp: argAt_def)

lemma applyLTrim_two:
  "run_spec view (applyLTrim B E cmd) t =
     spec_two_args B E cmd
       (\<lambda>xs. between xs (fst (atoi (Args cmd ! 0))) (fst (atoi (Args cmd ! 1))))
       (\<lambda>_. GStr ''OK'') (view t)"
proof (cases "2 \<le> length (Args cmd)")
  case True
  then show ?thesis by (simp add: applyLTrim_spec spec_two_args_def)
next
  case False
  with argAt_missing [of cmd] show ?thesis
    by (cases rule: list_cases [of t "Key cmd"])
      (auto simp: run_spec_def applyLTrim_def spec_two_args_def monad_simps split: sum.split)
qed

lemma applyLRem_two:
  "run_spec view (applyLRem B E cmd) t =
     (let f = spec_lrem (fst (atoi (Args cmd ! 0))) (Args cmd ! 1)
      in spec_two_args B E cmd f (\<lambda>xs. GInt (int (length xs - length (f xs)))) (view t))"
proof (cases "2 \<le> length (Args cmd)")
  case True
  then show ?thesis by (simp add: applyLRem_spec spec_two_args_def)
next
  case False
  with argAt_missing [of cmd] show ?thesis
    by (cases rule: list_cases [of t "Key cmd"])
      (auto simp: run_spec_def applyLRem_def spec_two_args_def monad_simps Let_def split: sum.split)
qed

lemma applySet_all:
  "run_spec view (applySet B E cmd) t =
     (if Args cmd = [] then (Inl (Errf (Op cmd @ '' missing args'')), view t)
      else spec_set B E cmd (view t))"
  by (cases "Args cmd = []") (simp_all add: applySet_spec, simp add: run_spec_def applySet_def)

lemma applyMSet_all:
  "run_spec view (applyMSet B E cmd) t =
     (if odd (length (Args cmd)) then (Inl (Errf ''MSET invalid args''), view t)
      else (Inr (GStr ''OK''), spec_mset E (Args cmd) (view t)))"
  by (cases "odd (length (Args cmd))")
    (simp_all add: applyMSet_spec, simp add: run_spec_def applyMSet_def monad_simps odd_iff_mod_2_eq_one)

lemma applyFlushDB_spec: "run_spec view (applyFlushDB B E cmd) t = (Inr (GStr ''OK''), Map.empty)"
  by (simp add: run_spec_def applyFlushDB_run applyFlushDB_view)

lemma throw_spec: "run_spec view (throw e) t = (Inl e, view t)"
  by (simp add: run_spec_def monad_simps)

lemmas switch_specs = applySet_all applyMSet_all applyDel_spec applyFlushDB_spec applyIncr_spec
  applyExpire_spec applyPersist_spec applyHSet_spec applyHDel_spec applyPush_spec applyPop_spec
  applyLTrim_two applyLRem_two applySAdd_spec applySRem_spec throw_spec

lemma applyPlain_spec:
  "\<exists>popped. (Op cmd = ''SPOP'' \<longrightarrow> spop_choice cmd popped (view t)) \<and>
     run_spec view (applyPlain B E cmd) t = spec_plain B E cmd popped (view t)"
proof (cases "Op cmd = ''SPOP''")
  case True
  with applySPop_spec [OF True, of t] show ?thesis by (simp add: applyPlain_def spec_plain_def)
next
  case False
  then have "run_spec view (applyPlain B E cmd) t = spec_plain B E cmd popped (view t)" for popped
    by (simp add: applyPlain_def spec_plain_def switch_specs)
  with False show ?thesis by blast
qed

end

end
