(* ===== verification/Sha1.thy ===== *)
theory Sha1
  imports Prelude
begin

unbundle bit_operations_syntax

text \<open>
  \<open>crypto/sha1\<close> and \<open>encoding/hex\<close> of the standard library, which \<open>SCRIPT LOAD\<close> uses to
  name a script (\<open>store/lua.go\<close>): the message is padded to blocks of 64 bytes, every block
  is expanded to 80 words and folded into the state of five words.
\<close>

type_synonym word32 = "32 word"
type_synonym sha_state = "word32 \<times> word32 \<times> word32 \<times> word32 \<times> word32"

definition rotl32 :: "nat \<Rightarrow> word32 \<Rightarrow> word32" where
  "rotl32 n w = push_bit n w OR drop_bit (32 - n) w"

definition sha_zeros :: "nat \<Rightarrow> nat" where
  "sha_zeros len = (119 - len mod 64) mod 64"

fun be_digits :: "nat \<Rightarrow> int \<Rightarrow> bytes" where
  "be_digits 0 n = []"
| "be_digits (Suc k) n = be_digits k (n div 256) @ [char_of n]"

definition sha_pad :: "bytes \<Rightarrow> bytes" where
  "sha_pad msg =
     msg @ [char_of (0x80 :: nat)] @ replicate (sha_zeros (length msg)) (char_of (0 :: nat)) @
     be_digits 8 ((8 * int (length msg)) mod 2 ^ 64)"

fun be_words :: "bytes \<Rightarrow> word32 list" where
  "be_words (a # b # c # d # r) =
     (push_bit 24 (of_char a) OR push_bit 16 (of_char b) OR push_bit 8 (of_char c) OR of_char d) # be_words r"
| "be_words _ = []"

text \<open>The message schedule, newest word first.\<close>

fun sha_expand :: "nat \<Rightarrow> word32 list \<Rightarrow> word32 list" where
  "sha_expand 0 ws = ws"
| "sha_expand (Suc n) ws =
     sha_expand n (rotl32 1 (ws ! 2 XOR ws ! 7 XOR ws ! 13 XOR ws ! 15) # ws)"

definition sha_f :: "nat \<Rightarrow> word32 \<Rightarrow> word32 \<Rightarrow> word32 \<Rightarrow> word32 \<times> word32" where
  "sha_f i b c d =
     (if i < 20 then ((b AND c) OR (NOT b AND d), 0x5A827999)
      else if i < 40 then (b XOR c XOR d, 0x6ED9EBA1)
      else if i < 60 then ((b AND c) OR (b AND d) OR (c AND d), 0x8F1BBCDC)
      else (b XOR c XOR d, 0xCA62C1D6))"

fun sha_rounds :: "nat \<Rightarrow> word32 list \<Rightarrow> sha_state \<Rightarrow> sha_state" where
  "sha_rounds i [] s = s"
| "sha_rounds i (w # ws) (a, b, c, d, e) =
     (let (f, k) = sha_f i b c d
      in sha_rounds (i + 1) ws (rotl32 5 a + f + e + k + w, a, rotl32 30 b, c, d))"

definition sha_block :: "sha_state \<Rightarrow> word32 list \<Rightarrow> sha_state" where
  "sha_block s ws =
     (case sha_rounds 0 (rev (sha_expand 64 (rev ws))) s of
        (a, b, c, d, e) \<Rightarrow> (case s of (h0, h1, h2, h3, h4) \<Rightarrow> (h0 + a, h1 + b, h2 + c, h3 + d, h4 + e)))"

function sha_blocks :: "sha_state \<Rightarrow> word32 list \<Rightarrow> sha_state" where
  "sha_blocks s ws =
     (if length ws < 16 then s else sha_blocks (sha_block s (take 16 ws)) (drop 16 ws))"
  by pat_completeness auto
termination by (relation "measure (\<lambda>(s, ws). length ws)") auto

definition sha1 :: "bytes \<Rightarrow> bytes" where
  "sha1 msg =
     (case sha_blocks (0x67452301, 0xEFCDAB89, 0x98BADCFE, 0x10325476, 0xC3D2E1F0) (be_words (sha_pad msg)) of
        (a, b, c, d, e) \<Rightarrow> concat (map (\<lambda>w. be_digits 4 (uint w)) [a, b, c, d, e]))"

text \<open>\<open>hex.EncodeToString\<close>.\<close>

definition hex_digit :: "nat \<Rightarrow> char" where
  "hex_digit n = ''0123456789abcdef'' ! n"

definition hex :: "bytes \<Rightarrow> bytes" where
  "hex b = concat (map (\<lambda>c. [hex_digit (of_char c div 16), hex_digit (of_char c mod 16)]) b)"

section \<open>Lemmas\<close>

declare sha_blocks.simps [simp del]

lemma length_be_digits [simp]: "length (be_digits k n) = k"
  by (induction k arbitrary: n) simp_all

lemma length_sha1: "length (sha1 msg) = 20"
  by (simp add: sha1_def split: prod.split)

lemma length_hex [simp]: "length (hex b) = 2 * length b"
  by (induction b) (simp_all add: hex_def)

text \<open>The padded message is a whole number of blocks.\<close>

lemma sha_pad_blocks: "length (sha_pad msg) mod 64 = 0"
proof -
  have "(m + 9 + (119 - m mod 64) mod 64) mod 64 = 0" for m :: nat
  proof -
    define r where "r = m mod 64"
    then have m: "m = 64 * (m div 64) + r" and r: "r < 64" by simp_all
    have "(119 - r) mod 64 = (if r \<le> 55 then 55 - r else 119 - r)"
      using r by (simp add: le_mod_geq)
    then have "m + 9 + (119 - r) mod 64 = 64 * (m div 64 + (if r \<le> 55 then 1 else 2))"
      using m r by auto
    then show ?thesis by (simp add: r_def)
  qed
  from this [of "length msg"] show ?thesis by (simp add: sha_pad_def sha_zeros_def add.assoc)
qed

section \<open>A known digest\<close>

text \<open>
  The digest of the script \<open>return 1\<close> is computed step by step, on integers below \<open>2 ^ 32\<close>, and is
  the one Redis documents for it.
\<close>

abbreviation w32 :: "int \<Rightarrow> word32" where
  "w32 \<equiv> word_of_int"

lemma w32_ops:
  "w32 x + w32 y = w32 ((x + y) mod 4294967296)"
  "w32 x AND w32 y = w32 (x AND y)" "w32 x OR w32 y = w32 (x OR y)" "w32 x XOR w32 y = w32 (x XOR y)"
  "NOT (w32 x) = w32 ((- 1 - x) mod 4294967296)"
  "push_bit n (w32 x) = w32 (x * 2 ^ n mod 4294967296)"
  "drop_bit n (w32 x) = w32 (x mod 4294967296 div 2 ^ n)"
  by (transfer, simp add: take_bit_eq_mod not_int_def minus_diff_commute push_bit_eq_mult drop_bit_eq_div
      mod_mult_left_eq)+

lemma rotl32_int: "rotl32 n (w32 x) = w32 (x * 2 ^ n mod 4294967296 OR (x mod 4294967296 div 2 ^ (32 - n)))"
  by (simp add: rotl32_def w32_ops)

lemma sha_expand_int:
  "sha_expand (numeral k) ws =
     sha_expand (pred_numeral k) (rotl32 1 (ws ! 2 XOR ws ! 7 XOR ws ! 13 XOR ws ! 15) # ws)"
  by (simp add: numeral_eq_Suc)

lemma sha_round_int:
  "sha_rounds i (w32 w # ws) (w32 a, w32 b, w32 c, w32 d, w32 e) =
     sha_rounds (i + 1) ws
       (w32 (((a * 32 mod 4294967296 OR a mod 4294967296 div 134217728) + e + w +
          (if i < 20 then ((b AND c) OR ((- 1 - b) mod 4294967296 AND d)) + 0x5A827999
           else if i < 40 then (b XOR c XOR d) + 0x6ED9EBA1
           else if i < 60 then ((b AND c) OR (b AND d) OR (c AND d)) + 0x8F1BBCDC
           else (b XOR c XOR d) + 0xCA62C1D6)) mod 4294967296),
        w32 a, w32 (b * 1073741824 mod 4294967296 OR b mod 4294967296 div 4), w32 c, w32 d)"
proof -
  have "sha_f i (w32 b) (w32 c) (w32 d) =
     (if i < 20 then (w32 ((b AND c) OR ((- 1 - b) mod 4294967296 AND d)), w32 0x5A827999)
      else if i < 40 then (w32 (b XOR c XOR d), w32 0x6ED9EBA1)
      else if i < 60 then (w32 ((b AND c) OR (b AND d) OR (c AND d)), w32 0x8F1BBCDC)
      else (w32 (b XOR c XOR d), w32 0xCA62C1D6))"
    by (simp add: sha_f_def w32_ops)
  then show ?thesis
    by (simp add: rotl32_int w32_ops mod_add_left_eq mod_add_right_eq ac_simps
        del: word_of_int_numeral of_int_numeral)
qed

lemma return_1_words:
  "be_words (sha_pad ''return 1'') = [0x72657475, 0x726E2031, 0x80000000] @ replicate 12 0 @ [64]"
proof -
  have d: "be_digits 8 64 = replicate 7 (char_of (0 :: nat)) @ [char_of (64 :: nat)]" by code_simp
  have r: "replicate 47 c = c # c # c # concat (replicate 11 [c, c, c, c])" "replicate 7 c = [c, c, c, c, c, c, c]"
    "replicate 12 w = replicate 11 w @ [w]" for c :: char and w :: word32
    by (simp_all add: numeral_eq_Suc)
  have z: "be_words (concat (replicate n [c, c, c, c]) @ r) = replicate n (hd (be_words [c, c, c, c])) @ be_words r"
    for n c r
    by (induction n) simp_all
  have c: "char_of (0 :: nat) = CHR 0x00" "char_of (64 :: nat) = CHR ''@''" "char_of (128 :: nat) = CHR 0x80"
    by code_simp+
  show ?thesis by (simp add: sha_pad_def sha_zeros_def d r z c)
qed

lemma return_1_block:
  "sha_block (w32 0x67452301, w32 0xEFCDAB89, w32 0x98BADCFE, w32 0x10325476, w32 0xC3D2E1F0)
     ([w32 0x72657475, w32 0x726E2031, w32 0x80000000] @ replicate 12 (w32 0) @ [w32 64]) =
   (w32 0xE0E1F9FA, w32 0xBFC9D480, w32 0x0C877A70, w32 0x3B823AC0, w32 0x578FF8DB)"
proof -
  have r: "replicate 12 w = [w, w, w, w, w, w, w, w, w, w, w, w]" for w :: word32
    by (simp add: numeral_eq_Suc)
  show ?thesis unfolding r
    by (simp add: sha_block_def sha_expand_int rotl32_int w32_ops sha_round_int
        del: sha_rounds.simps(2) word_of_int_numeral word_of_int_0 word_of_int_1 of_int_numeral of_int_0 of_int_1)
qed

lemma sha1_return_1: "hex (sha1 ''return 1'') = ''e0e1f9fabfc9d4800c877a703b823ac0578ff8db''"
proof -
  have one: "sha_blocks s ws = sha_block s ws" if "length ws = 16" for s ws
    using that by (simp add: sha_blocks.simps [of s] sha_blocks.simps [of _ "[]"])
  have "sha1 ''return 1'' = concat (map (\<lambda>w. be_digits 4 (uint w))
      [0xE0E1F9FA :: word32, 0xBFC9D480, 0x0C877A70, 0x3B823AC0, 0x578FF8DB])"
    unfolding sha1_def return_1_words
    by (subst one) (simp, unfold return_1_block [unfolded word_of_int_numeral word_of_int_0] prod.case, rule refl)
  also have "\<dots> = [CHR 0xE0, CHR 0xE1, CHR 0xF9, CHR 0xFA, CHR 0xBF, CHR 0xC9, CHR 0xD4, CHR 0x80, CHR 0x0C, CHR 0x87,
      CHR 0x7A, CHR 0x70, CHR 0x3B, CHR 0x82, CHR 0x3A, CHR 0xC0, CHR 0x57, CHR 0x8F, CHR 0xF8, CHR 0xDB]"
    by code_simp
  finally show ?thesis by (simp only:) (simp add: hex_def hex_digit_def)
qed

end
