(* ===== verification/Lua.thy ===== *)
theory Lua
  imports Dispatch Sha1
begin

text \<open>
  Scripts (\<open>store/lua.go\<close>): \<open>handleLuaCommand\<close>, \<open>runLua\<close>, \<open>luaRedisCall\<close>,
  \<open>parseCommandForLua\<close>, \<open>goToLuaValue\<close> and \<open>luaToGoValue\<close>. The interpreter
  (\<open>gopher-lua\<close>) is not code of the repository: it is a parameter, a machine that is loaded
  with a script and its two tables, runs in steps, and between steps asks for a
  \<open>redis.call\<close> or \<open>redis.pcall\<close>. A script may never end, so running one may not return;
  not returning is \<open>None\<close>.
\<close>

section \<open>The interpreter\<close>

text \<open>
  Lua values as the program sees them. \<open>'n\<close> is the interpreter's number type, a table is a
  reference, and \<open>LOther\<close> stands for functions, userdata and threads by their text.
\<close>

datatype 'n lval =
    LNil
  | LBool bool
  | LNumber 'n
  | LString bytes
  | LTable nat
  | LOther bytes

text \<open>The values of a table in the order \<open>ForEach\<close> visits them.\<close>

type_synonym 'n lheap = "nat \<Rightarrow> 'n lval list"

text \<open>
  What the machine does next: go on, end with the value on top of the stack (\<open>L.Get(-1)\<close>),
  fail with an error text, or call \<open>redis.call\<close> (\<open>False\<close>) or \<open>redis.pcall\<close> (\<open>True\<close>)
  with the arguments on the stack.
\<close>

datatype ('s, 'n) lua_event =
    Running 's
  | Finished "'n lval" "'n lheap"
  | Failed bytes
  | Calls bool "'n lval list"

text \<open>
  What the two functions leave for the script: a value, a fresh table, a raised error, or a
  run-time panic, which unwinds the interpreter up to the next protected call of the script or
  to \<open>DoString\<close>.
\<close>

datatype 'n lreply =
    Push "'n lval"
  | PushTable "'n lval list"
  | PushErr bytes
  | RaiseError bytes
  | RaisePanic bytes

record ('s, 'n) lua =
  l_load :: "bytes \<Rightarrow> bytes list \<Rightarrow> bytes list \<Rightarrow> 's"
  l_step :: "'s \<Rightarrow> ('s, 'n) lua_event"
  l_resume :: "'s \<Rightarrow> 'n lreply \<Rightarrow> 's"
  l_ToString :: "'n lval \<Rightarrow> bytes"
  l_num :: "int \<Rightarrow> 'n"
  l_int64 :: "'n \<Rightarrow> int"

section \<open>Conversions\<close>

text \<open>\<open>fmt.Sprintf\<close> with the verb \<open>v\<close>, on the results a command can have.\<close>

fun join_sp :: "bytes list \<Rightarrow> bytes" where
  "join_sp [] = []"
| "join_sp [s] = s"
| "join_sp (s # r) = s @ '' '' @ join_sp r"

fun fmt_v :: "goval \<Rightarrow> bytes" where
  "fmt_v GNil = ''<nil>''"
| "fmt_v (GStr s) = s"
| "fmt_v (GBytes b) = ''['' @ join_sp (map (\<lambda>c. formatInt (of_char c)) (slice b)) @ '']''"
| "fmt_v (GInt i) = formatInt i"
| "fmt_v (GInt64 i) = formatInt i"
| "fmt_v (GStrs ss) = ''['' @ join_sp ss @ '']''"
| "fmt_v (GInt64s is) = ''['' @ join_sp (map formatInt is) @ '']''"
| "fmt_v (GArr vs) = ''['' @ join_sp (map fmt_v vs) @ '']''"

text \<open>
  The cases for \<open>float64\<close>, \<open>bool\<close>, \<open>[][]byte\<close> and maps are left out: no command returns
  a value of these types.
\<close>

fun goToLuaValue :: "('s, 'n) lua \<Rightarrow> goval \<Rightarrow> 'n lreply" where
  "goToLuaValue L GNil = Push (LBool False)"
| "goToLuaValue L (GStr v) = Push (LString v)"
| "goToLuaValue L (GBytes v) = Push (LString (slice v))"
| "goToLuaValue L (GInt v) = Push (LNumber (l_num L v))"
| "goToLuaValue L (GInt64 v) = Push (LNumber (l_num L v))"
| "goToLuaValue L (GStrs v) = PushTable (map LString v)"
| "goToLuaValue L v = Push (LString (fmt_v v))"

text \<open>
  \<open>luaToGoValue\<close> recurs through tables, which may contain themselves. The function works
  on the list of values still to convert; on a table the list of its values comes first.
\<close>

partial_function (option) luaToGoValues :: "('s, 'n) lua \<Rightarrow> 'n lheap \<Rightarrow> 'n lval list \<Rightarrow> goval list option" where
  "luaToGoValues L h vals =
     (case vals of
        [] \<Rightarrow> Some []
      | v # rest \<Rightarrow>
          Option.bind
            (case v of
               LNil \<Rightarrow> Some GNil
             | LBool b \<Rightarrow> Some (if b then GInt64 1 else GNil)
             | LNumber n \<Rightarrow> Some (GInt64 (l_int64 L n))
             | LString s \<Rightarrow> Some (GStr s)
             | LTable r \<Rightarrow> Option.bind (luaToGoValues L h (h r)) (\<lambda>arr. Some (GArr arr))
             | LOther s \<Rightarrow> Some (GStr s))
            (\<lambda>g. Option.bind (luaToGoValues L h rest) (\<lambda>gs. Some (g # gs))))"

declare luaToGoValues.simps [code]

definition luaToGoValue :: "('s, 'n) lua \<Rightarrow> 'n lheap \<Rightarrow> 'n lval \<Rightarrow> goval option" where
  "luaToGoValue L h v = map_option hd (luaToGoValues L h [v])"

section \<open>redis.call\<close>

fun lua_set_options :: "env \<Rightarrow> bytes list \<Rightarrow> Command \<Rightarrow> err + Command" where
  "lua_set_options E [] cmd = Inr cmd"
| "lua_set_options E (a # r) cmd =
     (let arg = toUpper (uni_upper E) a in
      if arg = ''NX'' \<or> arg = ''XX'' then lua_set_options E r (cmd\<lparr>Condition := arg\<rparr>)
      else if arg = ''GET'' then lua_set_options E r (cmd\<lparr>ReturnOld := True\<rparr>)
      else if arg = ''EX'' \<or> arg = ''PX'' then
        (case r of
           [] \<Rightarrow> Inl (Errf ''ERR syntax error'')
         | n # r' \<Rightarrow>
             (case parseInt n of
                (_, Some _) \<Rightarrow> Inl (Errf ''ERR value is not an integer or out of range'')
              | (ttl, None) \<Rightarrow>
                  lua_set_options E r' (cmd\<lparr>TTLMs := (if arg = ''EX'' then wrap64 (ttl * 1000) else ttl)\<rparr>)))
      else lua_set_options E r cmd)"

text \<open>\<open>args\<close> are the texts of the stack, from index 1.\<close>

definition newCommand :: "bytes \<Rightarrow> bytes \<Rightarrow> bytes list \<Rightarrow> Command" where
  "newCommand opn key args =
     \<lparr>Op = opn, Key = key, Args = args, TTLMs = 0, Condition = [], ReturnOld = False\<rparr>"

definition parseCommandForLua :: "env \<Rightarrow> bytes \<Rightarrow> bytes list \<Rightarrow> Command \<Rightarrow> err + Command" where
  "parseCommandForLua E opn args cmd =
     (if opn = ''SET'' then
        (if length args < 3 then Inl (Errf ''ERR wrong number of arguments for 'set' command'')
         else lua_set_options E (drop 3 args) (cmd\<lparr>Key := args ! 1, Args := [args ! 2]\<rparr>))
      else Inr (cmd\<lparr>Key := (if 1 < length args then args ! 1 else []), Args := drop 2 args\<rparr>))"

fun lua_exists_loop :: "('d, 't) badger \<Rightarrow> env \<Rightarrow> bytes list \<Rightarrow> int \<Rightarrow> 't \<Rightarrow> err + int" where
  "lua_exists_loop B E [] cnt t = Inr cnt"
| "lua_exists_loop B E (key # keys) cnt t =
     (case b_get B (clock E) (userKey key) t of
        Inr _ \<Rightarrow> lua_exists_loop B E keys (cnt + 1) t
      | Inl e \<Rightarrow> if e \<noteq> ErrKeyNotFound then Inl e else lua_exists_loop B E keys cnt t)"

text \<open>The commands answered from the transaction directly; \<open>None\<close> for any other.\<close>

definition luaReadCall ::
  "('d, 't) badger \<Rightarrow> env \<Rightarrow> ('s, 'n) lua \<Rightarrow> bytes \<Rightarrow> bytes list \<Rightarrow> 't \<Rightarrow> (err + 'n lreply) option" where
  "luaReadCall B E L opn args t =
     (if opn = ''GET'' then
        Some (if length args \<noteq> 2 then Inl (Errf ''ERR wrong number of arguments for 'get' command'')
              else (case b_get B (clock E) (userKey (args ! 1)) t of
                      Inl e \<Rightarrow> if e = ErrKeyNotFound then Inr (Push LNil) else Inl e
                    | Inr item \<Rightarrow>
                        (case b_copy B item of
                           Inl e \<Rightarrow> Inl e | Inr val \<Rightarrow> Inr (Push (LString (slice val))))))
      else if opn = ''EXISTS'' then
        Some (if length args < 2 then Inl (Errf ''ERR wrong number of arguments for 'exists' command'')
              else (case lua_exists_loop B E (tl args) 0 t of
                      Inl e \<Rightarrow> Inl e | Inr n \<Rightarrow> Inr (Push (LNumber (l_num L n)))))
      else if opn = ''TYPE'' then
        Some (if length args \<noteq> 2 then Inl (Errf ''ERR wrong number of arguments for 'type' command'')
              else (case b_get B (clock E) (typeKey (args ! 1)) t of
                      Inl e \<Rightarrow> if e = ErrKeyNotFound then Inr (Push (LString ''none'')) else Inl e
                    | Inr item \<Rightarrow>
                        (case b_copy B item of
                           Inl e \<Rightarrow> Inl e | Inr val \<Rightarrow> Inr (Push (LString (slice val))))))
      else None)"

text \<open>
  \<open>apply\<close> is \<open>applyCmdInTxn\<close>, which calls scripts that call this function: the nesting is
  tied together in \<open>Fsm\<close>.
\<close>

definition luaRedisCall ::
  "('d, 't) badger \<Rightarrow> env \<Rightarrow> ('s, 'n) lua \<Rightarrow> (Command \<Rightarrow> 't \<Rightarrow> ((err + goval) \<times> 't) option) \<Rightarrow>
   'n lval list \<Rightarrow> 't \<Rightarrow> ((err + 'n lreply) \<times> 't) option" where
  "luaRedisCall B E L apply stack t =
     (if stack = [] then Some (Inl (Errf ''Please specify at least one argument for redis.call()''), t)
      else
        (let args = map (l_ToString L) stack; opn = toUpper (uni_upper E) (hd args) in
         case luaReadCall B E L opn args t of
           Some r \<Rightarrow> Some (r, t)
         | None \<Rightarrow>
             (case parseCommandForLua E opn args
                     (newCommand opn (if 1 < length args then args ! 1 else []) (drop 2 args)) of
                Inl e \<Rightarrow> Some (Inl e, t)
              | Inr cmd \<Rightarrow>
                  map_option (\<lambda>(r, t'). (map_sum id (goToLuaValue L) r, t')) (apply cmd t))))"

text \<open>How the two functions hand the outcome to the script; neither of them stops a panic.\<close>

definition call_reply :: "bool \<Rightarrow> err + 'n lreply \<Rightarrow> 'n lreply" where
  "call_reply protected r =
     (case r of
        Inr res \<Rightarrow> res
      | Inl (GoPanic m) \<Rightarrow> RaisePanic m
      | Inl e \<Rightarrow> if protected then PushErr (err_text e) else RaiseError (err_text e))"

section \<open>Running a script\<close>

text \<open>\<open>call\<close> is \<open>luaRedisCall\<close>.\<close>

partial_function (option) script_loop ::
  "('s, 'n) lua \<Rightarrow> ('n lval list \<Rightarrow> 't \<Rightarrow> ((err + 'n lreply) \<times> 't) option) \<Rightarrow> 's \<Rightarrow> 't \<Rightarrow>
   ((bytes + 'n lval \<times> 'n lheap) \<times> 't) option" where
  "script_loop L call s t =
     (case l_step L s of
        Running s' \<Rightarrow> script_loop L call s' t
      | Finished v h \<Rightarrow> Some (Inr (v, h), t)
      | Failed msg \<Rightarrow> Some (Inl msg, t)
      | Calls protected args \<Rightarrow>
          Option.bind (call args t)
            (\<lambda>(r, t'). script_loop L call (l_resume L s (call_reply protected r)) t'))"

declare script_loop.simps [code]

definition runLua ::
  "('s, 'n) lua \<Rightarrow> ('n lval list \<Rightarrow> 't \<Rightarrow> ((err + 'n lreply) \<times> 't) option) \<Rightarrow> bytes \<Rightarrow> bytes list \<Rightarrow> 't \<Rightarrow>
   ((err + goval) \<times> 't) option" where
  "runLua L call script evalArgs t =
     (case evalArgs of
        [] \<Rightarrow> Some (Inl (GoPanic ''index out of range''), t)
      | a # rest \<Rightarrow>
          (case atoi a of
             (_, Some _) \<Rightarrow> Some (Inl (Errf ''ERR value is not an integer or out of range''), t)
           | (numKeys, None) \<Rightarrow>
               if numKeys < 0 then Some (Inl (Errf ''ERR value is not an integer or out of range''), t)
               else if int (length rest) < numKeys then
                 Some (Inl (Errf ''ERR Number of keys can't be greater than number of args''), t)
               else
                 Option.bind
                   (script_loop L call (l_load L script (take (nat numKeys) rest) (drop (nat numKeys) rest)) t)
                   (\<lambda>(r, t'). case r of
                      Inl msg \<Rightarrow> Some (Inl (Errf (''ERR Error running script: '' @ msg)), t')
                    | Inr (v, h) \<Rightarrow> map_option (\<lambda>g. (Inr g, t')) (luaToGoValue L h v))))"

fun script_exists_loop :: "('d, 't) badger \<Rightarrow> env \<Rightarrow> bytes list \<Rightarrow> 't \<Rightarrow> err + int list" where
  "script_exists_loop B E [] t = Inr []"
| "script_exists_loop B E (sha # shas) t =
     (case (case b_get B (clock E) (getScriptKey sha) t of
              Inl e \<Rightarrow> if e = ErrKeyNotFound then Inr 0 else Inl e
            | Inr _ \<Rightarrow> Inr 1) of
        Inl e \<Rightarrow> Inl e
      | Inr n \<Rightarrow> (case script_exists_loop B E shas t of Inl e \<Rightarrow> Inl e | Inr ns \<Rightarrow> Inr (n # ns)))"

text \<open>The loop of \<open>SCRIPT FLUSH\<close> passes the iterator's own key to \<open>txn.Delete\<close>.\<close>

definition flush_scripts :: "('d, 't) badger \<Rightarrow> env \<Rightarrow> ('t, unit) tx" where
  "flush_scripts B E t = for_each (b_del_item B) (scan_prefix scriptPrefix (b_keys B (clock E) t)) t"

definition handleLuaCommand ::
  "('d, 't) badger \<Rightarrow> env \<Rightarrow> (bytes \<Rightarrow> bytes list \<Rightarrow> 't \<Rightarrow> ((err + goval) \<times> 't) option) \<Rightarrow>
   Command \<Rightarrow> 't \<Rightarrow> ((err + goval) \<times> 't) option" where
  "handleLuaCommand B E run cmd t =
     (if Op cmd = ''SCRIPT_LOAD'' then
        (if length (Args cmd) \<noteq> 1 then
           Some (Inl (Errf ''ERR wrong number of arguments for SCRIPT LOAD''), t)
         else
           (let script = hd (Args cmd); sha = hex (sha1 script) in
            Some (bind (b_set B (NewEntry (getScriptKey sha) script)) (\<lambda>_. ret (GStr sha)) t)))
      else if Op cmd = ''SCRIPT_EXISTS'' then
        Some (map_sum id GInt64s (script_exists_loop B E (Args cmd) t), t)
      else if Op cmd = ''SCRIPT_FLUSH'' then
        Some (bind (flush_scripts B E) (\<lambda>_. ret (GStr ''OK'')) t)
      else if Op cmd = ''EVALSHA'' then
        (if length (Args cmd) < 2 then
           Some (Inl (Errf ''ERR wrong number of arguments for EVALSHA''), t)
         else
           (case b_get B (clock E) (getScriptKey (hd (Args cmd))) t of
              Inl e \<Rightarrow>
                if e = ErrKeyNotFound
                then Some (Inl (Errf ''NOSCRIPT No matching script. Please use EVAL.''), t)
                else Some (Inl e, t)
            | Inr item \<Rightarrow>
                (case b_copy B item of
                   Inl e \<Rightarrow> Some (Inl e, t)
                 | Inr scriptBytes \<Rightarrow> run (slice scriptBytes) (tl (Args cmd)) t)))
      else if Op cmd = ''EVAL'' then
        (if length (Args cmd) < 2 then
           Some (Inl (Errf ''ERR wrong number of arguments for EVAL''), t)
         else run (hd (Args cmd)) (tl (Args cmd)) t)
      else Some (Inl (Errf ''unknown lua command''), t))"

lemma newCommand_sel [simp]: "Op (newCommand opn key args) = opn" "Key (newCommand opn key args) = key"
  "Args (newCommand opn key args) = args" "TTLMs (newCommand opn key args) = 0"
  "Condition (newCommand opn key args) = []" "ReturnOld (newCommand opn key args) = False"
  by (simp_all add: newCommand_def)

section \<open>Lemmas: tables\<close>

text \<open>A heap without cycles: every table has a rank above the tables it holds.\<close>

definition ranked :: "'n lheap \<Rightarrow> (nat \<Rightarrow> nat) \<Rightarrow> bool" where
  "ranked h rank \<longleftrightarrow> (\<forall>r r'. LTable r' \<in> set (h r) \<longrightarrow> rank r' < rank r)"

fun lrank :: "(nat \<Rightarrow> nat) \<Rightarrow> 'n lval \<Rightarrow> nat" where
  "lrank rank (LTable r) = Suc (rank r)"
| "lrank rank _ = 0"

lemma luaToGoValues_Nil: "luaToGoValues L h [] = Some []"
  by (simp add: luaToGoValues.simps)

lemma luaToGoValues_Cons:
  "luaToGoValues L h (v # rest) =
     Option.bind
       (case v of
          LNil \<Rightarrow> Some GNil
        | LBool b \<Rightarrow> Some (if b then GInt64 1 else GNil)
        | LNumber n \<Rightarrow> Some (GInt64 (l_int64 L n))
        | LString s \<Rightarrow> Some (GStr s)
        | LTable r \<Rightarrow> Option.bind (luaToGoValues L h (h r)) (\<lambda>arr. Some (GArr arr))
        | LOther s \<Rightarrow> Some (GStr s))
       (\<lambda>g. Option.bind (luaToGoValues L h rest) (\<lambda>gs. Some (g # gs)))"
  by (subst luaToGoValues.simps) simp

lemma luaToGoValues_ranked:
  assumes "ranked h rank" and "\<And>v. v \<in> set vals \<Longrightarrow> lrank rank v \<le> n"
  shows "\<exists>gs. luaToGoValues L h vals = Some gs \<and> length gs = length vals"
  using assms(2)
proof (induction n arbitrary: vals)
  case 0
  then show ?case
  proof (induction vals)
    case (Cons v vals)
    then obtain gs where "luaToGoValues L h vals = Some gs" "length gs = length vals" by auto
    moreover have "lrank rank v = 0" using Cons.prems by simp
    ultimately show ?case by (cases v) (simp_all add: luaToGoValues_Cons)
  qed (simp add: luaToGoValues_Nil)
next
  case (Suc n)
  note inner = Suc.IH
  show ?case using Suc.prems
  proof (induction vals)
    case (Cons v vals)
    then obtain gs where gs: "luaToGoValues L h vals = Some gs" "length gs = length vals" by auto
    have "\<exists>ts. luaToGoValues L h (h r) = Some ts" if "v = LTable r" for r
    proof -
      have "lrank rank w \<le> n" if "w \<in> set (h r)" for w
        using assms(1) that Cons.prems [of v] \<open>v = LTable r\<close> by (cases w) (fastforce simp: ranked_def)+
      then show ?thesis using inner [of "h r"] by blast
    qed
    with gs show ?case by (cases v) (auto simp: luaToGoValues_Cons)
  qed (simp add: luaToGoValues_Nil)
qed

lemma luaToGoValues_cyclic:
  fixes L :: "('s, 'n) lua"
  assumes "LTable r \<in> set (h r)" and "LTable r \<in> set vals"
  shows "luaToGoValues L h vals = None"
proof -
  let ?P = "\<lambda>(L' :: ('s, 'n) lua) h' vals' res. h' = h \<longrightarrow> LTable r \<notin> set vals'"
  have "?P L' h' vals' res" if "luaToGoValues L' h' vals' = Some res"
    for L' :: "('s, 'n) lua" and h' vals' res
  proof (rule luaToGoValues.raw_induct [where P = ?P, OF _ that])
    fix conv and L' :: "('s, 'n) lua" and h' vals' res
    assume IH: "\<And>L' h' vals' res. conv L' h' vals' = Some res \<Longrightarrow> ?P L' h' vals' res"
      and run: "(case vals' of
        [] \<Rightarrow> Some []
      | v # rest \<Rightarrow>
          Option.bind
            (case v of
               LNil \<Rightarrow> Some GNil
             | LBool b \<Rightarrow> Some (if b then GInt64 1 else GNil)
             | LNumber n \<Rightarrow> Some (GInt64 (l_int64 L' n))
             | LString s \<Rightarrow> Some (GStr s)
             | LTable r \<Rightarrow> Option.bind (conv L' h' (h' r)) (\<lambda>arr. Some (GArr arr))
             | LOther s \<Rightarrow> Some (GStr s))
            (\<lambda>g. Option.bind (conv L' h' rest) (\<lambda>gs. Some (g # gs)))) = Some res"
    show "?P L' h' vals' res"
    proof
      assume h: "h' = h"
      show "LTable r \<notin> set vals'"
      proof (cases vals')
        case (Cons v rest)
        with run obtain gs where "conv L' h' rest = Some gs"
          by (auto simp: bind_eq_Some_conv)
        with IH h have "LTable r \<notin> set rest" by blast
        moreover have "v \<noteq> LTable r"
        proof
          assume "v = LTable r"
          with run Cons obtain ts where "conv L' h' (h' r) = Some ts"
            by (auto simp: bind_eq_Some_conv)
          with IH h have "LTable r \<notin> set (h r)" by blast
          with assms(1) show False by blast
        qed
        ultimately show ?thesis by (simp add: Cons)
      qed simp
    qed
  qed
  with assms(2) show ?thesis by (metis option.exhaust)
qed

section \<open>Lemmas: loading a script\<close>

lemma getScriptKey_prefix [simp]: "prefix scriptPrefix (getScriptKey sha)"
  by (simp add: getScriptKey_def)

context store
begin

lemma script_load:
  assumes "Op cmd = ''SCRIPT_LOAD''" and "Args cmd = [script]"
  shows "\<exists>t'. handleLuaCommand B E run cmd t = Some (Inr (GStr (hex (sha1 script))), t') \<and>
    contents t' = (contents t)(getScriptKey (hex (sha1 script)) \<mapsto> \<lparr>it_val = script, it_exp = 0\<rparr>)"
  using assms by (simp add: handleLuaCommand_def Let_def monad_simps NewEntry_def)

lemma evalsha_runs:
  assumes "contents t (getScriptKey sha) = Some \<lparr>it_val = script, it_exp = 0\<rparr>"
    and "Op cmd = ''EVALSHA''" and "Args cmd = sha # a # args"
  shows "handleLuaCommand B E run cmd t = run script (a # args) t"
proof -
  have "live (clock E) (contents t (getScriptKey sha)) = Some \<lparr>it_val = script, it_exp = 0\<rparr>"
    by (simp add: assms(1))
  then have "b_get B (clock E) (getScriptKey sha) t = Inr \<lparr>it_val = script, it_exp = 0\<rparr>"
    by (simp add: b_get_eq)
  moreover obtain v where "b_copy B \<lparr>it_val = script, it_exp = 0\<rparr> = Inr v" using copy_ok by blast
  moreover from this have "slice v = script" using copy_value by fastforce
  ultimately show ?thesis using assms(2,3) by (simp add: handleLuaCommand_def)
qed

end

end
