(* ===== verification/RefBadger.thy ===== *)
theory RefBadger
  imports Badger
begin

text \<open>
  A key-value store that keeps the contract of \<open>Badger\<close>: it shows that the contract can
  be met, and the theorems about every store that meets it are run on this one. The store
  keeps an association list; a transaction is a copy of it; a commit replaces it.
\<close>

type_synonym refdb = "(bytes \<times> item) list"

definition ref_live_keys :: "int \<Rightarrow> refdb \<Rightarrow> bytes list" where
  "ref_live_keys tm t =
     sort (remdups (filter (\<lambda>k. live tm (map_of t k) \<noteq> None) (map fst t)))"

definition ref_badger :: "(refdb, refdb) badger" where
  "ref_badger =
     \<lparr>b_get = (\<lambda>tm k t. case live tm (map_of t k) of None \<Rightarrow> Inl ErrKeyNotFound | Some it \<Rightarrow> Inr it),
      b_set = (\<lambda>e t. (Inr (), AList.update (e_key e) \<lparr>it_val = e_val e, it_exp = e_exp e\<rparr> t)),
      b_del = (\<lambda>k t. (Inr (), AList.delete k t)),
      b_del_item = (\<lambda>k t. (Inr (), AList.delete k t)),
      b_keys = ref_live_keys,
      b_copy = (\<lambda>it. Inr (Some (it_val it))),
      b_ttl = (\<lambda>tm dur. word_of_int (unix_sec (tm + dur))),
      b_begin = (\<lambda>d. d),
      b_commit = (\<lambda>t d. Inr t)\<rparr>"

lemma ref_badger_live: "badger_live ref_badger map_of"
proof unfold_locales
  fix tm and t :: refdb
  show "set (b_keys ref_badger tm t) = {k. live tm (map_of t k) \<noteq> None}"
    by (auto simp: ref_badger_def ref_live_keys_def live_def image_iff dest: map_of_SomeD
        split: option.splits if_splits) (metis fst_conv map_of_SomeD)+
qed (auto simp: ref_badger_def ref_live_keys_def update_conv' delete_conv')

interpretation refb: badger_live ref_badger map_of
  by (rule ref_badger_live)

text \<open>The same store with a limit on the writes of a transaction, which counts them.\<close>

definition ref_bounded :: "nat \<Rightarrow> (refdb, nat \<times> refdb) badger" where
  "ref_bounded limit =
     (let counted = (\<lambda>f t. if limit \<le> fst t then (Inl (Errf ''Txn is too big to fit into one request''), t)
                           else (Inr (), (Suc (fst t), f (snd t))))
      in \<lparr>b_get = (\<lambda>tm k t. b_get ref_badger tm k (snd t)),
          b_set = (\<lambda>e. counted (AList.update (e_key e) \<lparr>it_val = e_val e, it_exp = e_exp e\<rparr>)),
          b_del = (\<lambda>k. counted (AList.delete k)),
          b_del_item = (\<lambda>k. counted (AList.delete k)),
          b_keys = (\<lambda>tm t. ref_live_keys tm (snd t)),
          b_copy = (\<lambda>it. Inr (Some (it_val it))),
          b_ttl = (\<lambda>tm dur. word_of_int (unix_sec (tm + dur))),
          b_begin = (\<lambda>d. (0, d)),
          b_commit = (\<lambda>t d. Inr (snd t))\<rparr>)"

lemma ref_bounded_bounded: "badger_bounded (ref_bounded limit) (\<lambda>t. map_of (snd t)) fst limit"
proof unfold_locales
  fix tm and t :: "nat \<times> refdb"
  show "set (b_keys (ref_bounded limit) tm t) = {k. live tm (map_of (snd t) k) \<noteq> None}"
    using refb.keys_live [of tm "snd t"] by (simp add: ref_bounded_def ref_badger_def Let_def)
qed (auto simp: ref_bounded_def ref_badger_def ref_live_keys_def update_conv' delete_conv' Let_def
    split: if_splits)

interpretation refbb: badger_bounded "ref_bounded limit" "\<lambda>t. map_of (snd t)" fst limit for limit
  by (rule ref_bounded_bounded)

end
