(* ===== verification/RaftStore.thy ===== *)
theory RaftStore
  imports KeyLayout RefBadger
begin

text \<open>
  The Raft log store and stable store kept in the same database (\<open>store/raft_store.go\<close>):
  \<open>FirstIndex\<close>, \<open>LastIndex\<close>, \<open>GetLog\<close>, \<open>StoreLog\<close>, \<open>StoreLogs\<close>, \<open>DeleteRange\<close>, and
  \<open>Set\<close>, \<open>Get\<close>, \<open>SetUint64\<close>, \<open>GetUint64\<close>. The type \<open>raft.Log\<close> and the codec are not
  code of the repository: a log entry is a value of a type \<open>'l\<close>, of which the store reads
  the index, and the codec is a pair of functions.
\<close>

record 'l logcodec =
  log_Index :: "'l \<Rightarrow> 64 word"
  enc_Log :: "'l \<Rightarrow> err + bytes"
  dec_Log :: "bytes \<Rightarrow> err + 'l"

definition encodeLog :: "'l logcodec \<Rightarrow> 'l \<Rightarrow> err + bytes" where
  "encodeLog C log = enc_Log C log"

definition decodeLog :: "'l logcodec \<Rightarrow> bytes \<Rightarrow> err + 'l" where
  "decodeLog C buf = dec_Log C buf"

section \<open>The log store\<close>

definition FirstIndex :: "('d, 't) badger \<Rightarrow> int \<Rightarrow> 'd \<Rightarrow> err + 64 word" where
  "FirstIndex B tm =
     db_view B (\<lambda>t.
       case seek prefixLog (b_keys B tm t) of
         [] \<Rightarrow> Inr 0
       | k # _ \<Rightarrow> if prefix prefixLog k then Uint64 (drop 1 k) else Inr 0)"

definition prefixEnd :: bytes where
  "prefixEnd = butlast prefixLog @ [char_of ((of_char (last prefixLog) :: nat) + 1)]"

definition LastIndex :: "('d, 't) badger \<Rightarrow> int \<Rightarrow> 'd \<Rightarrow> err + 64 word" where
  "LastIndex B tm =
     db_view B (\<lambda>t.
       case seek_rev prefixEnd (b_keys B tm t) of
         [] \<Rightarrow> Inr 0
       | k # _ \<Rightarrow> if prefix prefixLog k then Uint64 (drop 1 k) else Inr 0)"

definition ErrLogNotFound :: err where
  "ErrLogNotFound = ErrExt ''log not found''"

definition GetLog :: "('d, 't) badger \<Rightarrow> 'l logcodec \<Rightarrow> int \<Rightarrow> 64 word \<Rightarrow> 'd \<Rightarrow> err + 'l" where
  "GetLog B C tm index =
     db_view B (\<lambda>t.
       case b_get B tm (logKey index) t of
         Inl e \<Rightarrow> if e = ErrKeyNotFound then Inl ErrLogNotFound else Inl e
       | Inr item \<Rightarrow>
           (case b_copy B item of Inl e \<Rightarrow> Inl e | Inr val \<Rightarrow> decodeLog C (slice val)))"

text \<open>The entries are encoded before the transaction starts.\<close>

fun encode_logs :: "'l logcodec \<Rightarrow> 'l list \<Rightarrow> err + (bytes \<times> bytes) list" where
  "encode_logs C [] = Inr []"
| "encode_logs C (log # logs) =
     (case encodeLog C log of
        Inl e \<Rightarrow> Inl e
      | Inr val \<Rightarrow>
          (case encode_logs C logs of
             Inl e \<Rightarrow> Inl e
           | Inr data \<Rightarrow> Inr ((logKey (log_Index C log), val) # data)))"

definition StoreLogs :: "('d, 't) badger \<Rightarrow> 'l logcodec \<Rightarrow> 'l list \<Rightarrow> 'd \<Rightarrow> (err + unit) \<times> 'd" where
  "StoreLogs B C logs d =
     (case encode_logs C logs of
        Inl e \<Rightarrow> (Inl e, d)
      | Inr data \<Rightarrow> db_update B (for_each (\<lambda>(k, v). b_set B (NewEntry k v)) data) d)"

definition StoreLog :: "('d, 't) badger \<Rightarrow> 'l logcodec \<Rightarrow> 'l \<Rightarrow> 'd \<Rightarrow> (err + unit) \<times> 'd" where
  "StoreLog B C log = StoreLogs B C [log]"

text \<open>
  \<open>for i := min; i <= max; i++\<close> on \<open>uint64\<close>: the increment wraps, so the loop need not
  end; not ending is \<open>None\<close>.
\<close>

partial_function (option) delete_loop ::
  "('d, 't) badger \<Rightarrow> 64 word \<Rightarrow> 64 word \<Rightarrow> 't \<Rightarrow> ((err + unit) \<times> 't) option" where
  "delete_loop B i hi t =
     (if i \<le> hi then
        (case b_del B (logKey i) t of
           (Inl e, t') \<Rightarrow> if e \<noteq> ErrKeyNotFound then Some (Inl e, t') else delete_loop B (i + 1) hi t'
         | (Inr _, t') \<Rightarrow> delete_loop B (i + 1) hi t')
      else Some (Inr (), t))"

declare delete_loop.simps [code]

definition DeleteRange ::
  "('d, 't) badger \<Rightarrow> 64 word \<Rightarrow> 64 word \<Rightarrow> 'd \<Rightarrow> ((err + unit) \<times> 'd) option" where
  "DeleteRange B lo hi d =
     map_option (\<lambda>r. db_update B (\<lambda>_. r) d) (delete_loop B lo hi (b_begin B d))"

section \<open>The stable store\<close>

definition stable_Set :: "('d, 't) badger \<Rightarrow> bytes \<Rightarrow> bytes \<Rightarrow> 'd \<Rightarrow> (err + unit) \<times> 'd" where
  "stable_Set B key val = db_update B (b_set B (NewEntry (stableKey key) val))"

definition stable_Get :: "('d, 't) badger \<Rightarrow> int \<Rightarrow> bytes \<Rightarrow> 'd \<Rightarrow> err + bytes option" where
  "stable_Get B tm key d =
     (case db_view B (\<lambda>t.
             case b_get B tm (stableKey key) t of Inl e \<Rightarrow> Inl e | Inr item \<Rightarrow> b_copy B item) d of
        Inl e \<Rightarrow> if e = ErrKeyNotFound then Inr None else Inl e
      | Inr val \<Rightarrow> Inr val)"

definition SetUint64 :: "('d, 't) badger \<Rightarrow> bytes \<Rightarrow> 64 word \<Rightarrow> 'd \<Rightarrow> (err + unit) \<times> 'd" where
  "SetUint64 B key val = stable_Set B key (PutUint64 val)"

definition GetUint64 :: "('d, 't) badger \<Rightarrow> int \<Rightarrow> bytes \<Rightarrow> 'd \<Rightarrow> err + 64 word" where
  "GetUint64 B tm key d =
     (case stable_Get B tm key d of
        Inl e \<Rightarrow> Inl e
      | Inr val \<Rightarrow> if length (slice val) = 0 then Inr 0 else Uint64 (slice val))"

section \<open>What the database holds\<close>

text \<open>
  The layout the log store relies on: every key is in one of the four regions, and the
  keys of the log region are encoded indices, stored without expiry.
\<close>

definition log_layout :: "(bytes \<Rightarrow> item option) \<Rightarrow> bool" where
  "log_layout m \<longleftrightarrow>
     (\<forall>k it. m k = Some it \<longrightarrow>
        (\<exists>c r. k = c # r \<and> c \<in> {CHR ''K'', CHR ''T'', CHR ''S''}) \<or>
        (\<exists>i. k = logKey i) \<and> it_exp it = 0)"

definition log_indices :: "(bytes \<Rightarrow> item option) \<Rightarrow> 64 word set" where
  "log_indices m = {i. m (logKey i) \<noteq> None}"

definition drop_logs :: "64 word \<Rightarrow> 64 word \<Rightarrow> (bytes \<Rightarrow> item option) \<Rightarrow> bytes \<Rightarrow> item option" where
  "drop_logs lo hi m = (\<lambda>k. if k \<in> logKey ` {lo..hi} then None else m k)"

section \<open>Lemmas: iterating over the log\<close>

lemma sorted_hd: "sorted (x # xs) \<Longrightarrow> m \<in> set (x # xs) \<Longrightarrow> (\<And>y. y \<in> set (x # xs) \<Longrightarrow> m \<le> y) \<Longrightarrow> x = m"
  for m :: "'a::linorder"
  by (auto intro: antisym)

lemma sorted_rev_hd:
  "rev xs = x # ys \<Longrightarrow> sorted xs \<Longrightarrow> m \<in> set xs \<Longrightarrow> (\<And>y. y \<in> set xs \<Longrightarrow> y \<le> m) \<Longrightarrow> x = m"
  for m :: "'a::linorder"
proof -
  assume r: "rev xs = x # ys" and s: "sorted xs" and m: "m \<in> set xs"
    and up: "\<And>y. y \<in> set xs \<Longrightarrow> y \<le> m"
  have xs: "xs = rev ys @ [x]" using r by (metis rev.simps(2) rev_rev_ident)
  then have "y \<le> x" if "y \<in> set xs" for y using s that by (auto simp: sorted_append)
  with m up xs show ?thesis by (intro antisym) auto
qed

lemma dropWhile_rev_filter:
  "sorted ks \<Longrightarrow> dropWhile (\<lambda>k. p < k) (rev ks) = rev (filter (\<lambda>k. k \<le> p) ks)" for p :: "'a::linorder"
proof (induction ks rule: rev_induct)
  case (snoc k ks)
  show ?case
  proof (cases "p < k")
    case False
    with snoc.prems have "filter (\<lambda>k. k \<le> p) (ks @ [k]) = ks @ [k]"
      by (intro filter_True) (auto simp: sorted_append)
    with False show ?thesis by simp
  qed (use snoc in \<open>simp add: sorted_append\<close>)
qed simp

lemma logKey_form: "logKey i = CHR ''L'' # PutUint64 i"
  by (simp add: logKey_def prefixLog_def)

lemma prefixEnd_eq: "prefixEnd = ''M''"
  by code_simp

context badger_txn
begin

lemma log_keys:
  assumes "log_layout (contents t)" and "k \<in> set (b_keys B tm t)" and "prefix prefixLog k"
  obtains i where "k = logKey i" and "i \<in> log_indices (contents t)"
  using assms by (force simp: keys_live log_layout_def log_indices_def prefixLog_def dest!: live_SomeD)

lemma log_key_live:
  assumes "log_layout (contents t)" and "i \<in> log_indices (contents t)"
  shows "logKey i \<in> set (b_keys B tm t)" and "live tm (contents t (logKey i)) = contents t (logKey i)"
proof -
  obtain it where it: "contents t (logKey i) = Some it" using assms(2) by (auto simp: log_indices_def)
  then have "it_exp it = 0" using assms(1) by (auto simp: log_layout_def logKey_form)
  then show "live tm (contents t (logKey i)) = contents t (logKey i)" by (simp add: it)
  then show "logKey i \<in> set (b_keys B tm t)" by (simp add: keys_live it)
qed

lemma FirstIndex_Min:
  assumes lay: "log_layout (contents (b_begin B d))"
  shows "FirstIndex B tm d =
    Inr (let I = log_indices (contents (b_begin B d)) in if I = {} then 0 else Min I)"
proof -
  let ?t = "b_begin B d" and ?I = "log_indices (contents (b_begin B d))"
  let ?ks = "b_keys B tm ?t"
  have sk: "seek prefixLog ?ks = filter (\<lambda>k. prefixLog \<le> k) ?ks"
    by (simp add: seek_def dropWhile_sorted_filter keys_sorted)
  then have sorted: "sorted (seek prefixLog ?ks)" using keys_sorted [of tm ?t] sorted_filter [of id] by simp
  have inseek: "logKey i \<in> set (seek prefixLog ?ks)" if "i \<in> ?I" for i
    using log_key_live(1) [OF lay that, of tm] sk by (simp add: logKey_form prefixLog_def)
  show ?thesis
  proof (cases "seek prefixLog ?ks")
    case Nil
    with inseek have "?I = {}" by auto
    with Nil show ?thesis by (simp add: FirstIndex_def db_view_def)
  next
    case (Cons k r)
    then have "k \<in> set (filter (\<lambda>k. prefixLog \<le> k) ?ks)" using sk by simp
    then have k: "k \<in> set ?ks" "prefixLog \<le> k" by auto
    show ?thesis
    proof (cases "prefix prefixLog k")
      case True
      then obtain i where i: "k = logKey i" "i \<in> ?I" using log_keys [OF lay k(1)] by blast
      have "i \<le> j" if "j \<in> ?I" for j
        using sorted inseek [OF that] i by (auto simp: Cons)
      then have "Min ?I = i" using i by (intro Min_eqI) auto
      then have "Uint64 (drop 1 k) = Inr (Min ?I)" using i by (simp add: drop_Suc)
      moreover have "?I \<noteq> {}" using i by blast
      ultimately show ?thesis using Cons True by (simp add: FirstIndex_def db_view_def Let_def)
    next
      case False
      have "?I = {}"
      proof (rule ccontr)
        assume "?I \<noteq> {}"
        then obtain j where "j \<in> ?I" by blast
        with inseek sorted have "k \<le> logKey j" by (auto simp: Cons)
        moreover have "prefix prefixLog (logKey j)" by (simp add: logKey_form prefixLog_def)
        ultimately show False using prefix_between k(2) False by blast
      qed
      with Cons False show ?thesis by (simp add: FirstIndex_def db_view_def)
    qed
  qed
qed

text \<open>No key of the database lies between the log region and the end of it.\<close>

lemma keys_upto_end:
  assumes "log_layout (contents t)" and "k \<in> set (b_keys B tm t)" and "k \<le> prefixEnd"
  shows "prefix prefixLog k \<or> (\<forall>i. k < logKey i)"
  using assms
  by (force simp: keys_live log_layout_def prefixEnd_eq logKey_form prefixLog_def less_char_def
      dest!: live_SomeD)

lemma LastIndex_Max:
  assumes lay: "log_layout (contents (b_begin B d))"
  shows "LastIndex B tm d =
    Inr (let I = log_indices (contents (b_begin B d)) in if I = {} then 0 else Max I)"
proof -
  let ?t = "b_begin B d" and ?I = "log_indices (contents (b_begin B d))"
  let ?ks = "b_keys B tm ?t" and ?F = "filter (\<lambda>k. k \<le> prefixEnd) (b_keys B tm (b_begin B d))"
  have sk: "seek_rev prefixEnd ?ks = rev ?F"
    by (simp add: seek_rev_def dropWhile_rev_filter keys_sorted)
  have sorted: "sorted ?F" using keys_sorted [of tm ?t] sorted_filter [of id] by simp
  have inF: "logKey i \<in> set ?F" if "i \<in> ?I" for i
    using log_key_live(1) [OF lay that, of tm] by (simp add: logKey_form prefixEnd_eq less_char_def)
  show ?thesis
  proof (cases "rev ?F")
    case Nil
    then have "set ?F = {}" by (metis rev_is_Nil_conv set_empty)
    then have "?I = {}" using inF by (metis equals0D equals0I)
    with Nil sk show ?thesis by (simp add: LastIndex_def db_view_def)
  next
    case (Cons k r)
    have "set ?F = set (k # r)" using Cons by (metis set_rev)
    then have k: "k \<in> set ?ks" "k \<le> prefixEnd" by auto
    have up: "x \<le> k" if "x \<in> set ?F" for x
    proof -
      have "?F = rev r @ [k]" using Cons by (metis rev.simps(2) rev_rev_ident)
      with sorted that show ?thesis by (auto simp: sorted_append)
    qed
    show ?thesis
    proof (cases "prefix prefixLog k")
      case True
      then obtain i where i: "k = logKey i" "i \<in> ?I" using log_keys [OF lay k(1)] by blast
      have "j \<le> i" if "j \<in> ?I" for j using up [OF inF [OF that]] i by simp
      then have "Max ?I = i" using i by (intro Max_eqI) auto
      then have "Uint64 (drop 1 k) = Inr (Max ?I)" using i by (simp add: drop_Suc)
      moreover have "?I \<noteq> {}" using i by blast
      ultimately show ?thesis using Cons True sk by (simp add: LastIndex_def db_view_def Let_def)
    next
      case False
      then have "k < logKey j" for j using keys_upto_end [OF lay k] by blast
      then have "?I = {}" using up [OF inF] by (meson ex_in_conv leD)
      with Cons False sk show ?thesis by (simp add: LastIndex_def db_view_def)
    qed
  qed
qed

end

section \<open>Lemmas: deleting a range\<close>

lemma word_step:
  assumes "i \<le> hi" and "hi \<noteq> (- 1 :: 64 word)"
  shows "unat (i + 1) = Suc (unat i)"
proof -
  have "1 + i \<noteq> 0" using assms by (metis add.commute eq_neg_iff_add_eq_0 word_order.extremum_uniqueI)
  then show ?thesis by (simp add: unatSuc add.commute)
qed

lemma word_interval:
  assumes "i \<le> hi" and "hi \<noteq> (- 1 :: 64 word)"
  shows "{i..hi} = insert i {i + 1..hi}"
  using word_step [OF assms] assms(1)
  by (auto simp: word_le_nat_alt word_unat_eq_iff)

lemma drop_logs_step:
  assumes "i \<le> hi" and "hi \<noteq> - 1"
  shows "drop_logs (i + 1) hi (m(logKey i := None)) = drop_logs i hi m"
  by (rule ext) (auto simp: drop_logs_def word_interval [OF assms])

lemma drop_logs_none: "\<not> lo \<le> hi \<Longrightarrow> drop_logs lo hi m = m"
  by (rule ext) (auto simp: drop_logs_def)

text \<open>
  With a limit on the size of a transaction the loop always ends, and it ends well exactly
  for a range that fits.
\<close>

definition range_fits :: "nat \<Rightarrow> 64 word \<Rightarrow> 64 word \<Rightarrow> bool" where
  "range_fits room lo hi \<longleftrightarrow> hi \<noteq> - 1 \<and> (lo \<le> hi \<longrightarrow> unat (hi - lo) + 1 \<le> room)"

lemma range_fits_step:
  assumes "i \<le> hi"
  shows "range_fits (Suc room) i hi \<longleftrightarrow> range_fits room (i + 1) hi"
proof (cases "i = hi \<or> hi = - 1")
  case True
  then show ?thesis using word_step [of hi hi] by (auto simp: range_fits_def word_le_nat_alt)
next
  case False
  with assms have "i + 1 \<le> hi" "unat (hi - i) = Suc (unat (hi - (i + 1)))"
    by (auto simp: word_le_nat_alt word_step unat_sub word_unat_eq_iff)
  with assms False show ?thesis by (simp add: range_fits_def)
qed

context badger_bounded
begin

lemma delete_loop_bounded:
  "used t \<le> limit \<Longrightarrow> \<exists>r t'. delete_loop B i hi t = Some (r, t') \<and>
     (if range_fits (limit - used t) i hi
      then r = Inr () \<and> used t' \<le> limit \<and> contents t' = drop_logs i hi (contents t)
      else \<exists>e. r = Inl e)"
proof (induction "limit - used t" arbitrary: i t)
  case 0
  then show ?case
    using del_limit [of "logKey i" t] del_error [of "logKey i" t]
    by (cases "b_del B (logKey i) t"; cases "fst (b_del B (logKey i) t)")
      (auto simp: delete_loop.simps [of B i] range_fits_def drop_logs_none)
next
  case (Suc room)
  show ?case
  proof (cases "i \<le> hi")
    case True
    from Suc.hyps(2) obtain t1 where t1: "b_del B (logKey i) t = (Inr (), t1)"
      using del_limit [of "logKey i" t] by (cases "b_del B (logKey i) t") auto
    then have c1: "contents t1 = (contents t)(logKey i := None)" and u1: "used t1 = Suc (used t)"
      using del_contents [of "logKey i" t] del_counts [of "logKey i" t] by simp_all
    with Suc.hyps(2) have room: "room = limit - used t1" "used t1 \<le> limit" by simp_all
    have "delete_loop B i hi t = delete_loop B (i + 1) hi t1"
      using True t1 by (simp add: delete_loop.simps [of B i])
    moreover have "drop_logs (i + 1) hi (contents t1) = drop_logs i hi (contents t)" if "range_fits room (i + 1) hi"
      using True that c1 drop_logs_step [of i hi "contents t"] by (simp add: range_fits_def)
    ultimately show ?thesis
      using Suc.hyps(1) [OF room, of "i + 1"] range_fits_step [OF True, of room]
      by (auto simp: Suc.hyps(2) [symmetric] room(1) [symmetric] split: if_splits)
  next
    case False
    then have "hi \<noteq> - 1" by auto
    with False Suc.prems show ?thesis by (simp add: delete_loop.simps drop_logs_none range_fits_def)
  qed
qed

end

context badger_live
begin

lemma delete_loop_contents:
  assumes "hi \<noteq> - 1"
  shows "\<exists>t'. delete_loop B i hi t = Some (Inr (), t') \<and> contents t' = drop_logs i hi (contents t)"
proof (induction "Suc (unat hi) - unat i" arbitrary: i t rule: less_induct)
  case less
  show ?case
  proof (cases "i \<le> hi")
    case True
    obtain t1 where t1: "b_del B (logKey i) t = (Inr (), t1)"
      using del_ok [of "logKey i" t] by (cases "b_del B (logKey i) t") simp
    then have c1: "contents t1 = (contents t)(logKey i := None)" using del_view [of "logKey i" t] by simp
    have "Suc (unat hi) - unat (i + 1) < Suc (unat hi) - unat i"
      using True by (simp add: word_step [OF True assms] word_le_nat_alt)
    from less [OF this, of t1] show ?thesis
      using True by (simp add: delete_loop.simps [of B i] t1 c1 drop_logs_step [OF True assms])
  qed (simp add: delete_loop.simps drop_logs_none)
qed

text \<open>With the largest index as the bound the loop never ends.\<close>

lemma delete_loop_diverges: "delete_loop B i (- 1) t = None"
proof -
  let ?P = "\<lambda>B' i hi t r. hi = - 1 \<and> (\<forall>k t. \<exists>t'. b_del B' k t = (Inr (), t')) \<longrightarrow> False"
  have "?P B' i hi t r" if "delete_loop B' i hi t = Some r"
    for B' :: "('d, 't) badger" and i hi t r
  proof (rule delete_loop.raw_induct [where P = ?P, OF _ that])
    fix loop and B' :: "('d, 't) badger" and i hi t r
    assume IH: "\<And>B' i hi t r. loop B' i hi t = Some r \<Longrightarrow> ?P B' i hi t r"
      and run: "(if i \<le> hi then
        (case b_del B' (logKey i) t of
           (Inl e, t') \<Rightarrow> if e \<noteq> ErrKeyNotFound then Some (Inl e, t') else loop B' (i + 1) hi t'
         | (Inr _, t') \<Rightarrow> loop B' (i + 1) hi t')
      else Some (Inr (), t)) = Some r"
    show "?P B' i hi t r"
    proof
      assume H: "hi = - 1 \<and> (\<forall>k t. \<exists>t'. b_del B' k t = (Inr (), t'))"
      then obtain t' where "b_del B' (logKey i) t = (Inr (), t')" by blast
      with run H have "loop B' (i + 1) hi t' = Some r" by simp
      with IH H show False by blast
    qed
  qed
  moreover have "\<exists>t'. b_del B k t = (Inr (), t')" for k t
    using del_ok [of k t] by (cases "b_del B k t") simp
  ultimately show ?thesis by (metis option.exhaust)
qed

end

section \<open>Lemmas: storing entries\<close>

definition stored_item :: "bytes \<Rightarrow> item" where
  "stored_item v = \<lparr>it_val = v, it_exp = 0\<rparr>"

text \<open>The last entry of a batch with an index.\<close>

definition last_with :: "'l logcodec \<Rightarrow> 'l list \<Rightarrow> 64 word \<Rightarrow> 'l option" where
  "last_with C logs i = find (\<lambda>log. log_Index C log = i) (rev logs)"

lemma findSomeD: "find P xs = Some x \<Longrightarrow> x \<in> set xs"
  by (auto simp: find_Some_iff)

lemma encode_logs_Inr:
  "encode_logs C logs = Inr data \<Longrightarrow>
     (\<forall>log \<in> set logs. \<exists>b. enc_Log C log = Inr b) \<and>
     data = map (\<lambda>log. (logKey (log_Index C log), projr (enc_Log C log))) logs"
  by (induction logs arbitrary: data) (auto simp: encodeLog_def split: sum.splits)

lemma encode_logs_ok:
  "(\<And>log. log \<in> set logs \<Longrightarrow> \<exists>b. enc_Log C log = Inr b) \<Longrightarrow> \<exists>data. encode_logs C logs = Inr data"
proof (induction logs)
  case (Cons log logs)
  then obtain b data where "enc_Log C log = Inr b" "encode_logs C logs = Inr data" by fastforce
  then show ?case by (simp add: encodeLog_def)
qed simp

lemma stored_lookup:
  "map_of (rev (map (\<lambda>log. (logKey (log_Index C log), f log)) logs)) (logKey i) =
     map_option f (last_with C logs i)"
proof -
  have "map_of (map (\<lambda>log. (logKey (log_Index C log), f log)) xs) (logKey i) =
      map_option f (find (\<lambda>log. log_Index C log = i) xs)" for xs
    by (induction xs) auto
  from this [of "rev logs"] show ?thesis by (simp add: last_with_def rev_map)
qed

lemma stored_lookup_other:
  "(\<And>i. k \<noteq> logKey i) \<Longrightarrow> map_of (rev (map (\<lambda>log. (logKey (log_Index C log), f log)) logs)) k = None"
  by (force simp: map_of_eq_None_iff)

lemma log_layout_upd_log: "log_layout m \<Longrightarrow> log_layout (m(logKey i \<mapsto> stored_item v))"
  by (auto simp: log_layout_def stored_item_def)

lemma log_layout_upd_stable: "log_layout m \<Longrightarrow> log_layout (m(stableKey k \<mapsto> it))"
  by (auto simp: log_layout_def stableKey_def prefixStable_def)


context badger_live
begin

lemma for_each_set:
  "\<exists>t'. for_each (\<lambda>(k, v). b_set B (NewEntry k v)) data t = (Inr (), t') \<and>
     contents t' = contents t ++ map_of (rev (map (\<lambda>(k, v). (k, stored_item v)) data))"
proof (induction data arbitrary: t)
  case (Cons kv data)
  obtain k v where kv: "kv = (k, v)" by fastforce
  let ?t1 = "snd (b_set B (NewEntry k v) t)"
  obtain t' where t': "for_each (\<lambda>(k, v). b_set B (NewEntry k v)) data ?t1 = (Inr (), t')"
    "contents t' = contents ?t1 ++ map_of (rev (map (\<lambda>(k, v). (k, stored_item v)) data))"
    using Cons.IH by blast
  have "contents ?t1 = (contents t)(k \<mapsto> stored_item v)"
    by (simp add: NewEntry_def stored_item_def)
  with t' kv show ?case by (simp add: monad_simps)
qed (simp add: monad_simps)

lemma StoreLogs_contents:
  assumes "\<And>log. log \<in> set logs \<Longrightarrow> \<exists>b. enc_Log C log = Inr b"
  shows "\<exists>d'. StoreLogs B C logs d = (Inr (), d') \<and>
    contents (b_begin B d') = contents (b_begin B d) ++
      map_of (rev (map (\<lambda>log. (logKey (log_Index C log), stored_item (projr (enc_Log C log)))) logs))"
proof -
  obtain data where data: "encode_logs C logs = Inr data" using encode_logs_ok assms by blast
  obtain t' where "for_each (\<lambda>(k, v). b_set B (NewEntry k v)) data (b_begin B d) = (Inr (), t')"
    "contents t' = contents (b_begin B d) ++ map_of (rev (map (\<lambda>(k, v). (k, stored_item v)) data))"
    using for_each_set by blast
  with db_update_commits [of _ d "()" t'] data encode_logs_Inr [OF data]
  show ?thesis by (fastforce simp: StoreLogs_def comp_def)
qed

lemma GetLog_contents:
  assumes "contents (b_begin B d) (logKey i) = Some (stored_item v)"
  shows "GetLog B C tm i d = dec_Log C v"
proof -
  obtain w where "b_copy B (stored_item v) = Inr w" using copy_ok by blast
  moreover from this have "slice w = v" using copy_value by (fastforce simp: stored_item_def)
  moreover have "live tm (Some (stored_item v)) = Some (stored_item v)" by (simp add: stored_item_def)
  ultimately show ?thesis
    using assms by (simp add: GetLog_def db_view_def b_get_eq decodeLog_def)
qed

lemma stable_Get_contents:
  assumes "contents (b_begin B d) (stableKey k) = Some (stored_item v)"
  shows "\<exists>w. stable_Get B tm k d = Inr w \<and> slice w = v"
proof -
  obtain w where "b_copy B (stored_item v) = Inr w" using copy_ok by blast
  moreover from this have "slice w = v" using copy_value by (fastforce simp: stored_item_def)
  moreover have "live tm (Some (stored_item v)) = Some (stored_item v)" by (simp add: stored_item_def)
  ultimately show ?thesis using assms by (simp add: stable_Get_def db_view_def b_get_eq)
qed

lemma stable_Set_contents:
  "\<exists>d'. stable_Set B k v d = (Inr (), d') \<and>
     contents (b_begin B d') = (contents (b_begin B d))(stableKey k \<mapsto> stored_item v)"
proof -
  have "b_set B (NewEntry (stableKey k) v) (b_begin B d) =
      (Inr (), snd (b_set B (NewEntry (stableKey k) v) (b_begin B d)))"
    by (simp add: prod_eq_iff)
  from db_update_commits [where f = "b_set B (NewEntry (stableKey k) v)", OF this] show ?thesis
    by (simp add: stable_Set_def NewEntry_def stored_item_def)
qed

text \<open>A read of the log depends on what is stored at the index only.\<close>

lemma GetLog_cong:
  "contents (b_begin B d) (logKey i) = contents (b_begin B d') (logKey i) \<Longrightarrow>
     GetLog B C tm i d = GetLog B C tm i d'"
  by (simp add: GetLog_def db_view_def b_get_eq)

lemma GetLog_none:
  "contents (b_begin B d) (logKey i) = None \<Longrightarrow> GetLog B C tm i d = Inl ErrLogNotFound"
  by (simp add: GetLog_def db_view_def b_get_eq)

lemma log_layout_StoreLogs:
  "log_layout m \<Longrightarrow>
     log_layout (m ++ map_of (rev (map (\<lambda>log. (logKey (log_Index C log), stored_item (f log))) logs)))"
  by (induction logs arbitrary: m) (simp_all add: log_layout_upd_log map_add_upd_left)

end

section \<open>A codec and a database to run the properties on\<close>

definition ref_logcodec :: "(64 word \<times> bytes) logcodec" where
  "ref_logcodec =
     \<lparr>log_Index = fst,
      enc_Log = (\<lambda>(i, data). Inr (PutUint64 i @ data)),
      dec_Log = (\<lambda>b. case Uint64 b of Inl e \<Rightarrow> Inl e | Inr i \<Rightarrow> Inr (i, drop 8 b))\<rparr>"

definition ref_logdb :: refdb where
  "ref_logdb = [(logKey 3, stored_item ''a''), (''Kx'', stored_item ''b''), (logKey 7, stored_item ''c'')]"

lemma ref_logcodec_back:
  "enc_Log ref_logcodec log = Inr b \<Longrightarrow> dec_Log ref_logcodec b = Inr log"
  by (cases log) (auto simp: ref_logcodec_def Uint64_def)

lemma ref_logcodec_enc: "\<exists>b. enc_Log ref_logcodec log = Inr b"
  by (cases log) (auto simp: ref_logcodec_def)

lemma ref_logdb_layout: "log_layout (map_of (b_begin ref_badger ref_logdb))"
  by (auto simp: ref_badger_def ref_logdb_def log_layout_def stored_item_def split: if_splits)

lemma ref_logdb_indices: "log_indices (map_of (b_begin ref_badger ref_logdb)) = {3, 7}"
  by (auto simp: ref_badger_def ref_logdb_def log_indices_def) (auto simp: logKey_form)

section \<open>Properties\<close>

text \<open>
  C14: on a database with the log layout \<open>FirstIndex\<close> and \<open>LastIndex\<close> return the least and the
  greatest stored index, and 0 when no entry is stored.
\<close>

theorem log_bounds_exact:
  assumes "badger_live B contents"
    and "log_layout (contents (b_begin B d))"
  shows "let I = log_indices (contents (b_begin B d)) in
    FirstIndex B tm d = Inr (if I = {} then 0 else Min I) \<and>
    LastIndex B tm d = Inr (if I = {} then 0 else Max I)"
  using badger_txn.FirstIndex_Min [OF badger_live.axioms(1) [OF assms(1)] assms(2), of tm]
    badger_txn.LastIndex_Max [OF badger_live.axioms(1) [OF assms(1)] assms(2), of tm]
  by (simp add: Let_def)

theorem log_bounds_exact_witness:
  "FirstIndex ref_badger 0 ref_logdb = Inr 3 \<and> LastIndex ref_badger 0 ref_logdb = Inr 7"
  using log_bounds_exact [OF ref_badger_live ref_logdb_layout, of 0]
  by (simp add: ref_logdb_indices Let_def)

text \<open>
  C15: storing a batch of entries that can be encoded succeeds; \<open>GetLog\<close> then returns the
  last entry of the batch with the index asked for, and what it returned before for every
  other index; no key outside the log region changes, and the log layout is kept.
\<close>

theorem StoreLogs_then_GetLog:
  assumes "badger_live B contents"
    and "\<And>log b. enc_Log C log = Inr b \<Longrightarrow> dec_Log C b = Inr log"
    and "\<And>log. log \<in> set logs \<Longrightarrow> \<exists>b. enc_Log C log = Inr b"
  shows "\<exists>d'. StoreLogs B C logs d = (Inr (), d') \<and>
    (\<forall>i tm. GetLog B C tm i d' =
       (case last_with C logs i of Some log \<Rightarrow> Inr log | None \<Rightarrow> GetLog B C tm i d)) \<and>
    (\<forall>k. k \<notin> range logKey \<longrightarrow> contents (b_begin B d') k = contents (b_begin B d) k) \<and>
    (log_layout (contents (b_begin B d)) \<longrightarrow> log_layout (contents (b_begin B d')))"
proof -
  let ?m = "map_of (rev (map (\<lambda>log. (logKey (log_Index C log), stored_item (projr (enc_Log C log)))) logs))"
  obtain d' where d': "StoreLogs B C logs d = (Inr (), d')"
    "contents (b_begin B d') = contents (b_begin B d) ++ ?m"
    using badger_live.StoreLogs_contents [OF assms(1,3)] by blast
  have "GetLog B C tm i d' =
      (case last_with C logs i of Some log \<Rightarrow> Inr log | None \<Rightarrow> GetLog B C tm i d)" for i tm
  proof (cases "last_with C logs i")
    case None
    then have "contents (b_begin B d') (logKey i) = contents (b_begin B d) (logKey i)"
      by (simp add: d'(2) map_add_def stored_lookup)
    with None badger_live.GetLog_cong [OF assms(1)] show ?thesis by simp
  next
    case (Some log)
    then have "log \<in> set logs" by (metis last_with_def findSomeD set_rev)
    then obtain b where b: "enc_Log C log = Inr b" using assms(3) by blast
    then have "contents (b_begin B d') (logKey i) = Some (stored_item b)"
      using Some by (simp add: d'(2) map_add_def stored_lookup)
    then have "GetLog B C tm i d' = dec_Log C b" by (rule badger_live.GetLog_contents [OF assms(1)])
    with Some b assms(2) show ?thesis by simp
  qed
  moreover have "contents (b_begin B d') k = contents (b_begin B d) k" if "k \<notin> range logKey" for k
  proof -
    have "?m k = None" using that by (intro stored_lookup_other) blast
    then show ?thesis by (simp add: d'(2) map_add_def)
  qed
  moreover have "log_layout (contents (b_begin B d')) " if "log_layout (contents (b_begin B d))"
    using badger_live.log_layout_StoreLogs [OF assms(1) that] by (simp add: d'(2))
  ultimately show ?thesis using d'(1) by blast
qed

theorem StoreLogs_then_GetLog_witness:
  "\<exists>d'. StoreLogs ref_badger ref_logcodec [(7, ''p''), (9, ''q''), (7, ''r'')] ref_logdb = (Inr (), d') \<and>
    GetLog ref_badger ref_logcodec 0 7 d' = Inr (7, ''r'')"
  using StoreLogs_then_GetLog [OF ref_badger_live ref_logcodec_back ref_logcodec_enc,
      of "[(7, ''p''), (9, ''q''), (7, ''r'')]" ref_logdb]
  by (auto simp: last_with_def ref_logcodec_def)



text \<open>
  C17: on a store that limits the size of a transaction, \<open>DeleteRange\<close> always returns. When the
  range has at most as many indices as the limit allows, and its upper bound is not the
  largest index, it deletes exactly the entries of the range; otherwise it returns an error and
  deletes nothing. So a range larger than the limit can never be deleted, and with the largest
  index as the upper bound, where the loop variable wraps around, not even a range of one index.
\<close>

theorem DeleteRange_within_limit:
  assumes "badger_bounded B contents used limit"
  shows "if hi \<noteq> - 1 \<and> (lo \<le> hi \<longrightarrow> unat (hi - lo) + 1 \<le> limit)
    then \<exists>d'. DeleteRange B lo hi d = Some (Inr (), d') \<and>
      contents (b_begin B d') = drop_logs lo hi (contents (b_begin B d))
    else \<exists>e. DeleteRange B lo hi d = Some (Inl e, d)"
proof -
  obtain r t' where r: "delete_loop B lo hi (b_begin B d) = Some (r, t')"
    and ok: "if range_fits limit lo hi
      then r = Inr () \<and> used t' \<le> limit \<and> contents t' = drop_logs lo hi (contents (b_begin B d))
      else \<exists>e. r = Inl e"
    using badger_bounded.delete_loop_bounded [OF assms, of "b_begin B d" lo hi]
      badger_bounded.begin_used [OF assms, of d] by auto
  have txn: "badger_txn B contents" using assms by (simp add: badger_bounded_def)
  show ?thesis unfolding range_fits_def [symmetric]
  proof (cases "range_fits limit lo hi")
    case True
    with ok obtain d' where "b_commit B t' d = Inr d'" using badger_bounded.commit_limit [OF assms] by auto
    with True r ok badger_txn.commit_contents [OF txn this]
    show "if range_fits limit lo hi
      then \<exists>d'. DeleteRange B lo hi d = Some (Inr (), d') \<and>
        contents (b_begin B d') = drop_logs lo hi (contents (b_begin B d))
      else \<exists>e. DeleteRange B lo hi d = Some (Inl e, d)"
      by (simp add: DeleteRange_def db_update_def)
  qed (use r ok in \<open>auto simp: DeleteRange_def db_update_def\<close>)
qed

theorem DeleteRange_within_limit_witness:
  "(\<exists>d'. DeleteRange (ref_bounded 3) 2 4 ref_logdb = Some (Inr (), d') \<and>
      map_of d' = drop_logs 2 4 (map_of ref_logdb)) \<and>
   (\<exists>e. DeleteRange (ref_bounded 3) 2 5 ref_logdb = Some (Inl e, ref_logdb)) \<and>
   (\<exists>e. DeleteRange (ref_bounded 3) (- 1) (- 1) ref_logdb = Some (Inl e, ref_logdb))"
  using DeleteRange_within_limit [OF ref_bounded_bounded [of 3], of 4 2 ref_logdb]
    DeleteRange_within_limit [OF ref_bounded_bounded [of 3], of 5 2 ref_logdb]
    DeleteRange_within_limit [OF ref_bounded_bounded [of 3], of "- 1" "- 1" ref_logdb]
  by (simp add: ref_bounded_def [of 3] Let_def)

text \<open>
  C18: what \<open>Set\<close> and \<open>SetUint64\<close> store is what \<open>Get\<close> and \<open>GetUint64\<close> return, and setting one key
  changes no other key of the stable store and no entry of the log.
\<close>

theorem stable_round_trip:
  assumes "badger_live B contents"
  shows "\<exists>d1 d2. stable_Set B k v d = (Inr (), d1) \<and> SetUint64 B k n d = (Inr (), d2) \<and>
    (\<exists>w. stable_Get B tm k d1 = Inr w \<and> slice w = v) \<and>
    GetUint64 B tm k d2 = Inr n \<and>
    (k' \<noteq> k \<longrightarrow> stable_Get B tm k' d1 = stable_Get B tm k' d) \<and>
    GetLog B C tm i d1 = GetLog B C tm i d"
proof -
  obtain d1 where d1: "stable_Set B k v d = (Inr (), d1)"
    "contents (b_begin B d1) = (contents (b_begin B d))(stableKey k \<mapsto> stored_item v)"
    using badger_live.stable_Set_contents [OF assms] by blast
  obtain d2 where d2: "SetUint64 B k n d = (Inr (), d2)"
    "contents (b_begin B d2) = (contents (b_begin B d))(stableKey k \<mapsto> stored_item (PutUint64 n))"
    using badger_live.stable_Set_contents [OF assms] unfolding SetUint64_def by blast
  obtain w2 where w2: "stable_Get B tm k d2 = Inr w2" "slice w2 = PutUint64 n"
    using badger_live.stable_Get_contents [OF assms, of d2 k "PutUint64 n" tm] d2(2) by auto
  have "GetUint64 B tm k d2 = Inr n" by (simp add: GetUint64_def w2 Uint64_def)
  moreover have "\<exists>w. stable_Get B tm k d1 = Inr w \<and> slice w = v"
    using badger_live.stable_Get_contents [OF assms, of d1] d1(2) by auto
  moreover have "stable_Get B tm k' d1 = stable_Get B tm k' d" if "k' \<noteq> k"
    using that by (simp add: stable_Get_def db_view_def d1(2)
        badger_txn.b_get_eq [OF badger_live.axioms(1) [OF assms]])
  moreover have "GetLog B C tm i d1 = GetLog B C tm i d"
    by (rule badger_live.GetLog_cong [OF assms]) (simp add: d1(2))
  ultimately show ?thesis using d1(1) d2(1) by blast
qed

theorem stable_round_trip_witness:
  "\<exists>d2. SetUint64 ref_badger ''CurrentTerm'' 42 ref_logdb = (Inr (), d2) \<and>
    GetUint64 ref_badger 0 ''CurrentTerm'' d2 = Inr 42"
  using stable_round_trip [OF ref_badger_live, of "''CurrentTerm''" "[]" ref_logdb 42 0 "[]" ref_logcodec 1]
  by blast

end
