(* ===== verification/RefStore.thy ===== *)
theory RefStore
  imports FsmTyped RefBadger
begin

text \<open>
  A codec that keeps the contract of \<open>FsmBase\<close>, and with the key-value store of
  \<open>RefBadger\<close> an instance of the contract the state machine relies on.
\<close>

text \<open>A codec: every character is marked, every element ends with a dot.\<close>

fun ref_enc_elem :: "bytes \<Rightarrow> bytes" where
  "ref_enc_elem [] = [CHR ''.'']"
| "ref_enc_elem (c # cs) = CHR ''!'' # c # ref_enc_elem cs"

definition ref_enc_list :: "bytes list \<Rightarrow> bytes" where
  "ref_enc_list xs = concat (map ref_enc_elem xs)"

fun ref_dec :: "bytes \<Rightarrow> bytes \<Rightarrow> err + bytes list" where
  "ref_dec cur [] = (if cur = [] then Inr [] else Inl (ErrExt ''EOF''))"
| "ref_dec cur (c # cs) =
     (if c = CHR ''.'' then map_sum id (\<lambda>xs. cur # xs) (ref_dec [] cs)
      else
        (case cs of
           [] \<Rightarrow> Inl (ErrExt ''EOF'')
         | c' # cs' \<Rightarrow> ref_dec (cur @ [c']) cs'))"

definition ref_enc_map :: "gomap \<Rightarrow> bytes" where
  "ref_enc_map m = ref_enc_list (concat (map (\<lambda>(k, v). [k, v]) m))"

fun ref_pairs :: "bytes list \<Rightarrow> gomap" where
  "ref_pairs (k # v # xs) = map_put k v (ref_pairs xs)"
| "ref_pairs _ = []"

definition ref_dec_map :: "bytes \<Rightarrow> err + gomap" where
  "ref_dec_map b = map_sum id ref_pairs (ref_dec [] b)"

definition ref_env :: "int \<Rightarrow> env" where
  "ref_env tm =
     \<lparr>clock = tm, range_order = (\<lambda>xs. xs),
      mp_enc_list = ref_enc_list, mp_dec_list = ref_dec [],
      mp_enc_map = ref_enc_map, mp_dec_map = ref_dec_map,
      uni_upper = (\<lambda>s. s), uni_lower = (\<lambda>s. s)\<rparr>"

section \<open>The contracts hold\<close>

lemma ref_dec_elem: "ref_dec cur (ref_enc_elem x @ r) = map_sum id (\<lambda>xs. (cur @ x) # xs) (ref_dec [] r)"
  by (induction x arbitrary: cur) simp_all

lemma ref_dec_enc: "ref_dec [] (ref_enc_list xs) = Inr xs"
  by (induction xs) (simp_all add: ref_enc_list_def ref_dec_elem)

lemma ref_pairs_keys: "distinct (map fst (ref_pairs xs))"
  by (induction xs rule: ref_pairs.induct) simp_all

lemma map_put_fresh: "k \<notin> set (map fst m) \<Longrightarrow> map_put k v m = m @ [(k, v)]"
  by (induction m) (auto simp: map_put_def)

lemma ref_pairs_back:
  "distinct (map fst m) \<Longrightarrow> ref_pairs (concat (map (\<lambda>(k, v). [k, v]) m)) = rev m"
proof (induction m)
  case (Cons p m)
  obtain k v where p: "p = (k, v)" by fastforce
  with Cons have "k \<notin> set (map fst (rev m))" by auto
  with Cons p show ?case by (simp add: map_put_fresh)
qed simp

interpretation ref: store ref_badger map_of "ref_env tm" for tm
proof (intro store.intro ref_badger_live msgpack.intro)
  show "\<exists>m'. mp_dec_map (ref_env tm) (mp_enc_map (ref_env tm) m) = Inr m' \<and> mset m' = mset m"
    if "distinct (map fst m)" for m
    using that by (simp add: ref_env_def ref_dec_map_def ref_enc_map_def ref_dec_enc ref_pairs_back)
  show "distinct (map fst m)" if "mp_dec_map (ref_env tm) b = Inr m" for b m
    using that ref_pairs_keys by (cases "ref_dec [] b") (auto simp: ref_env_def ref_dec_map_def)
qed (simp_all add: ref_env_def ref_dec_enc)

lemma ref_store: "store ref_badger map_of (ref_env tm)"
  by unfold_locales

end
