(* ===== verification/Fsm.thy ===== *)
theory Fsm
  imports Lua RaftStore RefStore
begin

text \<open>
  The state machine as a whole (\<open>store/fsm.go\<close>): \<open>applyCmdInTxn\<close> with scripts, and
  \<open>Apply\<close>, which Raft calls with every committed log entry.
\<close>

section \<open>Commands and scripts\<close>

definition lua_ops :: "bytes set" where
  "lua_ops = {''EVAL'', ''EVALSHA'', ''SCRIPT_LOAD'', ''SCRIPT_EXISTS'', ''SCRIPT_FLUSH''}"

text \<open>
  A script can run scripts through \<open>redis.call\<close>. The number bounds the depth to which
  scripts are nested; a command that needs more does not return in the model. A command
  that runs no script needs none, \<open>EVAL\<close> of a script that calls no \<open>EVAL\<close> needs one, and a
  larger number never changes a result (\<open>applyCmdInTxn_more\<close>).
\<close>

primrec applyCmdInTxn ::
  "('d, 't) badger \<Rightarrow> env \<Rightarrow> ('s, 'n) lua \<Rightarrow> nat \<Rightarrow> Command \<Rightarrow> 't \<Rightarrow> ((err + goval) \<times> 't) option" where
  "applyCmdInTxn B E L 0 = (\<lambda>cmd t.
     if Op cmd \<in> lua_ops then None else Some (applyPlain B E cmd t))"
| "applyCmdInTxn B E L (Suc n) = (\<lambda>cmd t.
     if Op cmd \<in> lua_ops
     then handleLuaCommand B E (runLua L (luaRedisCall B E L (applyCmdInTxn B E L n))) cmd t
     else Some (applyPlain B E cmd t))"

text \<open>
  \<open>Apply\<close>: decode the entry (the codec is a parameter), run the command in one \<open>Update\<close>
  transaction, return the error or the result.
\<close>

definition Apply ::
  "('d, 't) badger \<Rightarrow> env \<Rightarrow> ('s, 'n) lua \<Rightarrow> nat \<Rightarrow> (bytes \<Rightarrow> err + Command) \<Rightarrow> bytes \<Rightarrow> 'd \<Rightarrow>
   ((err + goval) \<times> 'd) option" where
  "Apply B E L n dec data d =
     (case dec data of
        Inl e \<Rightarrow> Some (Inl e, d)
      | Inr cmd \<Rightarrow>
          map_option (\<lambda>r. db_update B (\<lambda>_. r) d) (applyCmdInTxn B E L n cmd (b_begin B d)))"

section \<open>Lemmas: the nesting bound\<close>

lemma script_loop_more:
  assumes "\<And>args t r. call args t = Some r \<Longrightarrow> call' args t = Some r"
    and "script_loop L call s t = Some r"
  shows "script_loop L call' s t = Some r"
proof -
  let ?P = "\<lambda>L c s t r. c = call \<longrightarrow> script_loop L call' s t = Some r"
  have "?P L call s t r"
  proof (rule script_loop.raw_induct [where P = ?P, OF _ assms(2)])
    fix loop L c s t r
    assume IH: "\<And>L c s t r. loop L c s t = Some r \<Longrightarrow> ?P L c s t r"
      and run: "(case l_step L s of
        Running s' \<Rightarrow> loop L c s' t
      | Finished v h \<Rightarrow> Some (Inr (v, h), t)
      | Failed msg \<Rightarrow> Some (Inl msg, t)
      | Calls protected args \<Rightarrow>
          Option.bind (c args t)
            (\<lambda>(r, t'). loop L c (l_resume L s (call_reply protected r)) t')) = Some r"
    show "?P L c s t r"
    proof
      assume c: "c = call"
      show "script_loop L call' s t = Some r"
      proof (cases "l_step L s")
        case (Calls p args)
        with run obtain q t' where q: "call args t = Some (q, t')" by (cases "call args t") (auto simp: c)
        with assms(1) have "call' args t = Some (q, t')" .
        with Calls run IH c q show ?thesis
          by (subst script_loop.simps) auto
      qed (use run IH c in \<open>auto simp: script_loop.simps [of L call' s]\<close>)
    qed
  qed
  then show ?thesis by simp
qed

lemma luaRedisCall_more:
  assumes "\<And>cmd t r. ap cmd t = Some r \<Longrightarrow> ap' cmd t = Some r"
    and "luaRedisCall B E L ap stack t = Some r"
  shows "luaRedisCall B E L ap' stack t = Some r"
  using assms(2) unfolding luaRedisCall_def Let_def
  by (auto dest: assms(1) split: if_splits option.splits sum.splits)

lemma runLua_more:
  assumes "\<And>args t r. call args t = Some r \<Longrightarrow> call' args t = Some r"
    and "runLua L call script args t = Some r"
  shows "runLua L call' script args t = Some r"
proof -
  have "Option.bind (script_loop L call s t) f = Some r \<Longrightarrow> Option.bind (script_loop L call' s t) f = Some r"
    for s t f and r :: "(err + goval) \<times> 'b"
    using script_loop_more [of call call', OF assms(1)] by (fastforce simp: bind_eq_Some_conv)
  with assms(2) show ?thesis
    by (auto simp: runLua_def split: list.splits prod.splits option.splits if_splits)
qed

lemma handleLuaCommand_more:
  assumes "\<And>script args t r. run script args t = Some r \<Longrightarrow> run' script args t = Some r"
    and "handleLuaCommand B E run cmd t = Some r"
  shows "handleLuaCommand B E run' cmd t = Some r"
  using assms(2) unfolding handleLuaCommand_def Let_def
  by (auto intro: assms(1) split: if_splits sum.splits)

lemma applyCmdInTxn_lua:
  "Op cmd \<in> lua_ops \<Longrightarrow> applyCmdInTxn B E L (Suc n) cmd t =
     handleLuaCommand B E (runLua L (luaRedisCall B E L (applyCmdInTxn B E L n))) cmd t"
  by simp

lemma applyCmdInTxn_plain: "Op cmd \<notin> lua_ops \<Longrightarrow> applyCmdInTxn B E L n cmd t = Some (applyPlain B E cmd t)"
  by (cases n) simp_all

declare applyCmdInTxn.simps [simp del]

lemma applyCmdInTxn_Suc:
  "applyCmdInTxn B E L n cmd t = Some r \<Longrightarrow> applyCmdInTxn B E L (Suc n) cmd t = Some r"
proof (induction n arbitrary: cmd t r)
  case 0
  then show ?case by (simp add: applyCmdInTxn.simps split: if_splits)
next
  case (Suc n)
  have call: "luaRedisCall B E L (applyCmdInTxn B E L n) args t = Some r \<Longrightarrow>
      luaRedisCall B E L (applyCmdInTxn B E L (Suc n)) args t = Some r" for args t r
    by (erule luaRedisCall_more [rotated]) (rule Suc.IH)
  have run: "runLua L (luaRedisCall B E L (applyCmdInTxn B E L n)) script args t = Some r \<Longrightarrow>
      runLua L (luaRedisCall B E L (applyCmdInTxn B E L (Suc n))) script args t = Some r" for script args t r
    by (erule runLua_more [rotated]) (rule call)
  show ?case
  proof (cases "Op cmd \<in> lua_ops")
    case True
    show ?thesis
      using Suc.prems unfolding applyCmdInTxn_lua [OF True] by (rule handleLuaCommand_more [rotated]) (rule run)
  qed (use Suc.prems in \<open>simp add: applyCmdInTxn_plain\<close>)
qed

lemma applyCmdInTxn_more:
  "applyCmdInTxn B E L n cmd t = Some r \<Longrightarrow> n \<le> n' \<Longrightarrow> applyCmdInTxn B E L n' cmd t = Some r"
  by (rotate_tac 1, induction n' rule: dec_induct) (simp_all add: applyCmdInTxn_Suc)

section \<open>Lemmas: frames of scripts\<close>

text \<open>The keys a command or a script can change: user entries and scripts.\<close>

definition app_keys :: "bytes set" where
  "app_keys = entries_of UNIV \<union> {k. prefix scriptPrefix k}"

context badger_txn
begin

definition oframe :: "bytes set \<Rightarrow> ('t \<Rightarrow> ('a \<times> 't) option) \<Rightarrow> bool" where
  "oframe R f \<longleftrightarrow> (\<forall>t r t' k. f t = Some (r, t') \<longrightarrow> k \<notin> R \<longrightarrow> contents t' k = contents t k)"

lemma oframeD: "oframe R f \<Longrightarrow> f t = Some (r, t') \<Longrightarrow> k \<notin> R \<Longrightarrow> contents t' k = contents t k"
  by (auto simp: oframe_def)

lemma oframe_Some: "frame R f \<Longrightarrow> oframe R (\<lambda>t. Some (f t))"
  by (auto simp: frame_def oframe_def) (metis snd_conv)

lemma oframe_if: "oframe R (\<lambda>t. if b then f t else g t) = (if b then oframe R f else oframe R g)"
  by simp

lemma frame_flush_scripts: "frame {k. prefix scriptPrefix k} (flush_scripts B E)"
proof -
  have "frame {k. prefix scriptPrefix k} (b_del_item B k)" if "prefix scriptPrefix k" for k
    using that by (intro frameI del_item_other) auto
  then have "frame {k. prefix scriptPrefix k} (for_each (b_del_item B) (scan_prefix scriptPrefix ks))" for ks
    by (intro frame_for_each) (auto simp: scan_prefix_def dest: set_takeWhileD)
  from frameD [OF this] show ?thesis
    by (intro frameI) (simp add: flush_scripts_def)
qed

lemma oframe_luaRedisCall:
  assumes "\<And>cmd. oframe R (ap cmd)"
  shows "oframe R (luaRedisCall B E L ap stack)"
  using assms
  by (auto simp: oframe_def luaRedisCall_def Let_def split: option.splits sum.splits)

lemma oframe_script_loop:
  fixes L :: "('s, 'n) lua"
  assumes "\<And>args. oframe R (call args)"
  shows "oframe R (script_loop L call s)"
proof -
  let ?P = "\<lambda>(L :: ('s, 'n) lua) c s t r. c = call \<longrightarrow> (\<forall>k. k \<notin> R \<longrightarrow> contents (snd r) k = contents t k)"
  have "?P L c s t r" if "script_loop L c s t = Some r" for L :: "('s, 'n) lua" and c s t r
  proof (rule script_loop.raw_induct [where P = ?P, OF _ that])
    fix loop and L :: "('s, 'n) lua" and c s t r
    assume IH: "\<And>L c s t r. loop L c s t = Some r \<Longrightarrow> ?P L c s t r"
      and run: "(case l_step L s of
        Running s' \<Rightarrow> loop L c s' t
      | Finished v h \<Rightarrow> Some (Inr (v, h), t)
      | Failed msg \<Rightarrow> Some (Inl msg, t)
      | Calls protected args \<Rightarrow>
          Option.bind (c args t)
            (\<lambda>(r, t'). loop L c (l_resume L s (call_reply protected r)) t')) = Some r"
    show "?P L c s t r"
    proof (intro impI allI)
      fix k assume c: "c = call" and k: "k \<notin> R"
      show "contents (snd r) k = contents t k"
      proof (cases "l_step L s")
        case (Calls p args)
        with run obtain q t' where q: "call args t = Some (q, t')" by (cases "call args t") (auto simp: c)
        then have "contents t' k = contents t k" using oframeD [OF assms] k by blast
        with Calls run IH c q k show ?thesis by auto
      qed (use run IH c k in auto)
    qed
  qed
  then show ?thesis by (fastforce simp: oframe_def)
qed

lemma oframe_runLua:
  assumes "\<And>args. oframe R (call args)"
  shows "oframe R (runLua L call script args)"
proof -
  have "oframe R (script_loop L call s)" for s by (rule oframe_script_loop) (rule assms)
  note loop = oframeD [OF this]
  have "contents t' k = contents t k"
    if "Option.bind (script_loop L call s t)
          (\<lambda>(r, t'). case r of
             Inl msg \<Rightarrow> Some (Inl (f msg), t')
           | Inr (v, h) \<Rightarrow> map_option (\<lambda>g. (Inr g, t')) (luaToGoValue L h v)) = Some (q, t')"
      and "k \<notin> R" for s t f t' k and q :: "err + goval"
  proof -
    from that(1) obtain r u where "script_loop L call s t = Some (r, u)" "t' = u"
      by (cases "script_loop L call s t") (auto split: sum.splits)
    with loop that(2) show ?thesis by blast
  qed
  then show ?thesis
    by (auto simp: oframe_def runLua_def split: list.splits prod.splits option.splits)
qed

lemma oframe_handleLuaCommand:
  assumes "\<And>script args. oframe app_keys (run script args)"
  shows "oframe app_keys (handleLuaCommand B E run cmd)"
proof -
  have "getScriptKey sha \<in> app_keys" for sha by (simp add: app_keys_def)
  then have load: "oframe app_keys
      (\<lambda>t. Some (bind (b_set B (NewEntry (getScriptKey sha) v)) (\<lambda>_. ret x) t))" for sha v and x :: goval
    by (intro oframe_Some frame_bind frame_ret frame_set) (simp add: NewEntry_def)
  have flush: "oframe app_keys (\<lambda>t. Some (bind (flush_scripts B E) (\<lambda>_. ret x) t))" for x :: goval
    by (intro oframe_Some frame_bind frame_ret frame_mono [OF frame_flush_scripts])
      (auto simp: app_keys_def)
  have const: "oframe app_keys (\<lambda>t. Some (x t, t))" for x :: "'t \<Rightarrow> err + goval"
    by (simp add: oframe_def)
  have sha: "oframe app_keys (\<lambda>t. case g t of
       Inl e \<Rightarrow> if e = ErrKeyNotFound then Some (Inl e1, t) else Some (Inl e, t)
     | Inr it \<Rightarrow> (case b_copy B it of Inl e \<Rightarrow> Some (Inl e, t) | Inr b \<Rightarrow> run (slice b) args t))"
    for g :: "'t \<Rightarrow> err + item" and e1 args
    using assms by (auto simp: oframe_def split: sum.splits)
  show ?thesis
    using load flush const sha assms
    by (simp add: handleLuaCommand_def [abs_def] Let_def oframe_if)
qed

lemma oframe_applyCmdInTxn: "oframe app_keys (applyCmdInTxn B E L n cmd)"
proof (induction n arbitrary: cmd)
  case 0
  have "frame app_keys (applyPlain B E cmd)"
    by (rule frame_mono [OF frame_applyPlain]) (auto simp: app_keys_def entries_of_def)
  from oframe_Some [OF this] show ?case by (simp add: applyCmdInTxn.simps oframe_def)
next
  case (Suc n)
  have "frame app_keys (applyPlain B E cmd)"
    by (rule frame_mono [OF frame_applyPlain]) (auto simp: app_keys_def entries_of_def)
  moreover have "oframe app_keys (luaRedisCall B E L (applyCmdInTxn B E L n) args)" for args
    by (rule oframe_luaRedisCall) (rule Suc)
  then have "oframe app_keys (runLua L (luaRedisCall B E L (applyCmdInTxn B E L n)) script args)"
    for script args by (rule oframe_runLua)
  then have "oframe app_keys
      (handleLuaCommand B E (runLua L (luaRedisCall B E L (applyCmdInTxn B E L n))) cmd)"
    by (rule oframe_handleLuaCommand)
  ultimately show ?case
    by (auto simp: applyCmdInTxn.simps oframe_if intro: oframe_Some)
qed

end

end
