(* ===== verification/FsmProps.thy ===== *)
theory FsmProps
  imports Fsm
begin

text \<open>
  Properties of the state machine: what \<open>Apply\<close> does to the key space, that it is all or
  nothing and stays out of Raft's own records, and that replicas agree.
\<close>

section \<open>A sequence of entries\<close>

text \<open>
  The database after a sequence of committed commands, each applied in its own environment;
  an entry that does not return leaves the sequence stuck.
\<close>

primrec apply_all ::
  "('d, 't) badger \<Rightarrow> ('s, 'n) lua \<Rightarrow> nat \<Rightarrow> (env \<times> Command) list \<Rightarrow> 'd \<Rightarrow> 'd option" where
  "apply_all B L n [] d = Some d"
| "apply_all B L n (c # cs) d =
     Option.bind (Apply B (fst c) L n (\<lambda>_. Inr (snd c)) [] d) (\<lambda>(_, d'). apply_all B L n cs d')"

section \<open>Lemmas: errors of the specification\<close>

text \<open>An outcome that changes nothing when it is an error.\<close>

definition unless_error :: "(err + goval) \<times> keyspace \<Rightarrow> keyspace \<Rightarrow> bool" where
  "unless_error p m \<longleftrightarrow> (\<forall>e. fst p = Inl e \<longrightarrow> snd p = m)"

lemma unless_error_if: "unless_error (if b then p else q) m = (if b then unless_error p m else unless_error q m)"
  by simp

lemma unless_error_pair [simp]: "unless_error (Inl e, m) m" "unless_error (Inr v, m') m"
  by (simp_all add: unless_error_def)

lemma unless_error_two_args: "unless_error (spec_two_args B E cmd f reply m) m"
  by (simp add: spec_two_args_def spec_list_update_def unless_error_if split: sum.split option.split prod.split)

lemma unless_error_set: "unless_error (spec_set B E cmd m) m"
  by (simp add: spec_set_def Let_def unless_error_if split: sum.split option.split prod.split)

lemma unless_error_incr: "unless_error (spec_incr B E cmd m) m"
  by (simp add: spec_incr_def Let_def unless_error_if split: sum.split option.split prod.split)

lemma unless_error_hset: "unless_error (spec_hset B E cmd m) m"
  by (simp add: spec_hset_def Let_def unless_error_if split: sum.split option.split prod.split)

lemma unless_error_hdel: "unless_error (spec_hdel B E cmd m) m"
  by (simp add: spec_hdel_def Let_def unless_error_if split: sum.split option.split prod.split)

lemma unless_error_push: "unless_error (spec_push B E cmd m) m"
  by (simp add: spec_push_def Let_def unless_error_if split: sum.split option.split prod.split)

lemma unless_error_pop: "unless_error (spec_pop B E cmd m) m"
  by (simp add: spec_pop_def Let_def unless_error_if split: sum.split option.split prod.split)

lemma unless_error_sadd: "unless_error (spec_sadd B E cmd m) m"
  by (simp add: spec_sadd_def Let_def unless_error_if split: sum.split option.split prod.split)

lemma unless_error_srem: "unless_error (spec_srem B E cmd m) m"
  by (simp add: spec_srem_def Let_def unless_error_if split: sum.split option.split prod.split)

lemma unless_error_spop: "unless_error (spec_spop B E cmd p m) m"
  by (simp add: spec_spop_def unless_error_if split: sum.split option.split prod.split)

lemma unless_error_del: "unless_error (spec_del cmd m) m"
  by (simp add: spec_del_def unless_error_if split: sum.split option.split prod.split)

lemma unless_error_expire: "unless_error (spec_expire B E cmd m) m"
  by (simp add: spec_expire_def unless_error_if split: sum.split option.split prod.split)

lemma unless_error_persist: "unless_error (spec_persist cmd m) m"
  by (simp add: spec_persist_def unless_error_if split: sum.split option.split prod.split)

text \<open>A command that fails leaves the key space alone.\<close>

lemma spec_plain_error: "fst (spec_plain B E cmd popped m) = Inl e \<Longrightarrow> snd (spec_plain B E cmd popped m) = m"
proof -
  have "unless_error (spec_plain B E cmd popped m) m"
    by (simp only: spec_plain_def Let_def unless_error_if unless_error_pair unless_error_two_args unless_error_set unless_error_incr unless_error_hset
      unless_error_hdel unless_error_push unless_error_pop unless_error_sadd
      unless_error_srem unless_error_spop unless_error_del unless_error_expire
      unless_error_persist
      if_cancel)
  then show "fst (spec_plain B E cmd popped m) = Inl e \<Longrightarrow> snd (spec_plain B E cmd popped m) = m"
    by (simp add: unless_error_def)
qed

lemma Apply_plain:
  "dec data = Inr cmd \<Longrightarrow> Op cmd \<notin> lua_ops \<Longrightarrow>
     Apply B E L n dec data d = Some (db_update B (applyPlain B E cmd) d)"
  by (simp add: Apply_def applyCmdInTxn_plain db_update_def)

context store
begin

lemma update_run:
  assumes "run_spec view (applyPlain B E cmd) (b_begin B d) = (q, m)"
    and "\<And>e. q = Inl e \<Longrightarrow> m = view (b_begin B d)"
  obtains r d' where "db_update B (applyPlain B E cmd) d = (r, d')"
    and "map_sum id norm r = q" and "view (b_begin B d') = m"
proof -
  obtain r t where rt: "applyPlain B E cmd (b_begin B d) = (r, t)" by fastforce
  with assms(1) have q: "q = map_sum id norm r" and m: "m = view t"
    by (simp_all add: run_spec_def)
  show ?thesis
  proof (cases r)
    case (Inl e)
    with rt have "db_update B (applyPlain B E cmd) d = (r, d)" by (simp add: db_update_def)
    with q assms(2) [of e] Inl show ?thesis by (intro that [of r d]) simp_all
  next
    case (Inr x)
    then obtain d' where "db_update B (applyPlain B E cmd) d = (Inr x, d')"
      "contents (b_begin B d') = contents t"
      using db_update_commits [of "applyPlain B E cmd" d x t] rt by blast
    with q m Inr show ?thesis by (intro that [of r d']) (simp_all add: view_def)
  qed
qed

lemma update_refines:
  "\<exists>popped. (Op cmd = ''SPOP'' \<longrightarrow> spop_choice cmd popped (view (b_begin B d))) \<and>
     (case db_update B (applyPlain B E cmd) d of
        (r, d') \<Rightarrow> (map_sum id norm r, view (b_begin B d'))) = spec_plain B E cmd popped (view (b_begin B d))"
proof -
  let ?m = "view (b_begin B d)"
  obtain popped where p: "Op cmd = ''SPOP'' \<longrightarrow> spop_choice cmd popped ?m"
    and s: "run_spec view (applyPlain B E cmd) (b_begin B d) = spec_plain B E cmd popped ?m"
    using applyPlain_spec by blast
  obtain q m where qm: "spec_plain B E cmd popped ?m = (q, m)" by fastforce
  moreover have "m = ?m" if "q = Inl e" for e
    using spec_plain_error [of B E cmd popped ?m e] qm that by simp
  ultimately obtain r d' where "db_update B (applyPlain B E cmd) d = (r, d')"
    "map_sum id norm r = q" "view (b_begin B d') = m"
    using update_run [of cmd d q m] s by metis
  with p qm show ?thesis by (intro exI [of _ popped]) simp
qed

text \<open>\<open>SPOP\<close> of one member, when every range visits a certain member first.\<close>

lemma spop_first:
  assumes "Op cmd = ''SPOP''" and "Args cmd = []"
    and "view (b_begin B d) (Key cmd) = Some (RSet s, 0)" and "a \<in> s" and "s \<noteq> {a}"
    and first: "\<And>xs. a \<in> set xs \<Longrightarrow> hd (range_order E xs) = a"
  obtains r d' where "Apply B E L n (\<lambda>_. Inr cmd) data d = Some (r, d')"
    and "map_sum id norm r = Inr (GBytes (Some a))"
    and "view (b_begin B d') = (view (b_begin B d))(Key cmd \<mapsto> (RSet (s - {a}), 0))"
proof -
  let ?m = "view (b_begin B d)"
  have at: "set_at ?m (Key cmd) = Inr (Some (s, 0))" using assms(3) by (rule st.coll_at_emb)
  obtain ms where ms: "set ms = s" "distinct ms"
    and run: "run_spec view (applySRemPop B E cmd) (b_begin B d) =
      spec_spop B E cmd (take (nat (spopCount cmd)) (range_order E ms)) ?m"
    using applySPop_run [OF assms(1) at] .
  obtain c cs where "range_order E ms = c # cs"
    using ms assms(4) range_empty [of ms] by (cases "range_order E ms") auto
  with first [of ms] ms assms(4) have "take (nat (spopCount cmd)) (range_order E ms) = [a]"
    using assms(2) by (simp add: spopCount_def)
  moreover have "s - {a} \<noteq> {}" using assms(4,5) by blast
  ultimately have "run_spec view (applyPlain B E cmd) (b_begin B d) =
      (Inr (GBytes (Some a)), ?m(Key cmd \<mapsto> (RSet (s - {a}), 0)))"
    using run assms(1,2) at
    by (simp add: applyPlain_def spec_spop_def spop_reply_def put_or_drop_def put_0)
  then obtain r d' where "db_update B (applyPlain B E cmd) d = (r, d')"
    and "map_sum id norm r = Inr (GBytes (Some a))"
    and "view (b_begin B d') = ?m(Key cmd \<mapsto> (RSet (s - {a}), 0))"
    by (rule update_run) simp
  moreover have "Op cmd \<notin> lua_ops" using assms(1) by (simp add: lua_ops_def)
  ultimately show ?thesis
    using Apply_plain [where dec = "\<lambda>_. Inr cmd" and cmd = cmd and data = data and B = B and E = E
        and L = L and n = n and d = d] that by simp
qed

end

section \<open>Lemmas: what the specification depends on\<close>

text \<open>
  Of the environment the specification uses the clock only, and of the storage engine the
  way it computes expiry times.
\<close>

lemma put_clock: "clock E = clock E' \<Longrightarrow> put E = put E'"
  by (intro ext) (simp add: put_def)

lemma set_expiry_clock: "clock E = clock E' \<Longrightarrow> b_ttl B = b_ttl B' \<Longrightarrow> set_expiry B E = set_expiry B' E'"
  by (intro ext) (simp add: set_expiry_def)

lemma kept_expiry_clock: "clock E = clock E' \<Longrightarrow> b_ttl B = b_ttl B' \<Longrightarrow> kept_expiry B E = kept_expiry B' E'"
  by (intro ext) (simp add: kept_expiry_def set_expiry_def remainingTTLMs_def time_until_def)

lemma spec_plain_clock:
  assumes "clock E = clock E'" and "b_ttl B = b_ttl B'"
  shows "spec_plain B E cmd popped m = spec_plain B' E' cmd popped m"
proof -
  note eqs = put_clock [OF assms(1)] set_expiry_clock [OF assms] kept_expiry_clock [OF assms] assms
  have list: "list_or_empty B E = list_or_empty B' E'"
    by (intro ext) (simp only: list_or_empty_def eqs)
  have mset: "spec_mset E args m = spec_mset E' args m" for args m
    by (induction args arbitrary: m rule: induct_list012) (simp_all add: eqs)
  have drop: "put_or_drop E = put_or_drop E'"
    by (intro ext) (simp only: put_or_drop_def eqs)
  have set: "spec_set B E cmd m = spec_set B' E' cmd m" by (simp only: spec_set_def eqs)
  have incr: "spec_incr B E cmd m = spec_incr B' E' cmd m" by (simp only: spec_incr_def eqs)
  have expire: "spec_expire B E cmd m = spec_expire B' E' cmd m" by (simp only: spec_expire_def eqs)
  have hset: "spec_hset B E cmd m = spec_hset B' E' cmd m" by (simp only: spec_hset_def eqs)
  have hdel: "spec_hdel B E cmd m = spec_hdel B' E' cmd m" by (simp only: spec_hdel_def drop eqs)
  have push: "spec_push B E cmd m = spec_push B' E' cmd m" by (simp only: spec_push_def list eqs)
  have pop: "spec_pop B E cmd m = spec_pop B' E' cmd m" by (simp only: spec_pop_def list drop eqs)
  have two: "spec_two_args B E cmd f r m = spec_two_args B' E' cmd f r m" for f r
    by (simp only: spec_two_args_def spec_list_update_def list drop eqs)
  have sadd: "spec_sadd B E cmd m = spec_sadd B' E' cmd m" by (simp only: spec_sadd_def eqs)
  have srem: "spec_srem B E cmd m = spec_srem B' E' cmd m" by (simp only: spec_srem_def drop eqs)
  have spop: "spec_spop B E cmd p m = spec_spop B' E' cmd p m" for p by (simp only: spec_spop_def drop eqs)
  show ?thesis
    by (simp only: spec_plain_def mset set incr expire hset hdel push pop two sadd srem spop)
qed

section \<open>Lemmas: the log and the stable store\<close>

lemma logKey_not_app: "logKey i \<notin> app_keys"
proof -
  have "\<not> prefix scriptPrefix (logKey i)" by (simp add: logKey_form scriptPrefix_def)
  then show ?thesis by (auto simp: app_keys_def entries_of_def)
qed

lemma stableKey_not_app: "stableKey k \<notin> app_keys" if "\<not> prefix ''CRIPT:'' k"
proof -
  have "\<not> prefix scriptPrefix (stableKey k)"
    using that by (simp add: stableKey_def prefixStable_def scriptPrefix_def)
  then show ?thesis by (auto simp: app_keys_def entries_of_def)
qed

lemma app_keys_region: "k \<in> app_keys \<Longrightarrow> \<exists>c r. k = c # r \<and> c \<in> {CHR ''K'', CHR ''T'', CHR ''S''}"
  by (auto simp: app_keys_def entries_of_def userKey_def typeKey_def prefixUser_def prefixType_def
      scriptPrefix_def prefix_def)

lemma log_layout_app:
  assumes "log_layout m" and "\<And>k. k \<notin> app_keys \<Longrightarrow> m' k = m k"
  shows "log_layout m'"
  using assms app_keys_region unfolding log_layout_def by metis

lemma Apply_outside:
  assumes "badger_txn B contents" and "Apply B E L n dec data d = Some (r, d')" and "k \<notin> app_keys"
  shows "contents (b_begin B d') k = contents (b_begin B d) k"
proof (cases "dec data")
  case (Inl e)
  with assms(2) show ?thesis by (simp add: Apply_def)
next
  case (Inr cmd)
  with assms(2) obtain q where q: "applyCmdInTxn B E L n cmd (b_begin B d) = Some q"
    and u: "db_update B (\<lambda>_. q) d = (r, d')"
    by (auto simp: Apply_def)
  from q have "applyCmdInTxn B E L n cmd (b_begin B d) = Some (fst q, snd q)" by simp
  with badger_txn.oframeD [OF assms(1) badger_txn.oframe_applyCmdInTxn [OF assms(1)]] assms(3)
  have "contents (snd q) k = contents (b_begin B d) k" by blast
  with u show ?thesis by (elim badger_txn.db_update_cases [OF assms(1)]) simp_all
qed

section \<open>Databases and scripts to run the properties on\<close>

definition ref_cmd :: "bytes \<Rightarrow> bytes \<Rightarrow> bytes list \<Rightarrow> int \<Rightarrow> Command" where
  "ref_cmd opn key args ttl =
     \<lparr>Op = opn, Key = key, Args = args, TTLMs = ttl, Condition = [], ReturnOld = False\<rparr>"

text \<open>An interpreter for one script, which sets its first key to its first argument and then fails.\<close>

definition ref_lua :: "(nat \<times> bytes list \<times> bytes list, int) lua" where
  "ref_lua =
     \<lparr>l_load = (\<lambda>script keys argv. (0, keys, argv)),
      l_step = (\<lambda>(pc, keys, argv).
        if pc = 0 then Calls False [LString ''SET'', LString (hd keys), LString (hd argv)]
        else Failed ''boom''),
      l_resume = (\<lambda>(pc, keys, argv) reply. (Suc pc, keys, argv)),
      l_ToString = (\<lambda>v. case v of LString s \<Rightarrow> s | LNumber n \<Rightarrow> formatInt n | _ \<Rightarrow> []),
      l_num = (\<lambda>i. i), l_int64 = (\<lambda>i. i)\<rparr>"

section \<open>Properties\<close>

text \<open>
  C2: \<open>Apply\<close> implements the key-space specification. For every command but scripts, on every
  storage engine and codec that keep their contracts, the entry is applied, the reply is the
  one the specification gives, and the key space the next transaction sees is the one the
  specification gives; for \<open>SPOP\<close> this holds for some choice of as many members as asked for.
\<close>

theorem Apply_refines:
  assumes "store B contents E" and "dec data = Inr cmd" and "Op cmd \<notin> lua_ops"
  shows "\<exists>r d' popped. Apply B E L n dec data d = Some (r, d') \<and>
    (Op cmd = ''SPOP'' \<longrightarrow> spop_choice cmd popped (keyspace E (contents (b_begin B d)))) \<and>
    (map_sum id norm r, keyspace E (contents (b_begin B d'))) =
      spec_plain B E cmd popped (keyspace E (contents (b_begin B d)))"
proof -
  have "Apply B E L n dec data d = Some (db_update B (applyPlain B E cmd) d)"
    using assms(2,3) by (rule Apply_plain)
  then show ?thesis
    using store.update_refines [OF assms(1), of cmd d]
    by (cases "db_update B (applyPlain B E cmd) d") (auto simp: store.view_def [OF assms(1)])
qed

theorem Apply_refines_witness:
  "\<exists>r d'. Apply ref_badger (ref_env 0) ref_lua 0
      (\<lambda>_. Inr (ref_cmd ''LPUSH'' ''k'' [''a'', ''b''] 0)) [] [] = Some (r, d') \<and>
    map_sum id norm r = Inr (GInt 2) \<and>
    keyspace (ref_env 0) (map_of (b_begin ref_badger d')) = [''k'' \<mapsto> (RList [''b'', ''a''], 0)]"
proof -
  have none: "keyspace (ref_env 0) (map_of (b_begin ref_badger [])) = Map.empty"
    by (rule ext) (simp add: keyspace_def ref_badger_def)
  have "spec_plain ref_badger (ref_env 0) (ref_cmd ''LPUSH'' ''k'' [''a'', ''b''] 0) popped Map.empty =
      (Inr (GInt 2), [''k'' \<mapsto> (RList [''b'', ''a''], 0)])" for popped
    by (simp add: spec_plain_def spec_push_def list_or_empty_def coll_at_def put_def ref_cmd_def Let_def)
  moreover have "Op (ref_cmd ''LPUSH'' ''k'' [''a'', ''b''] 0) \<notin> lua_ops"
    by (simp add: ref_cmd_def lua_ops_def)
  from Apply_refines [where dec = "\<lambda>_. Inr (ref_cmd ''LPUSH'' ''k'' [''a'', ''b''] 0)" and data = "[]"
      and L = ref_lua and n = 0 and d = "[]", OF ref_store [of 0] refl this]
  obtain r d' popped where "Apply ref_badger (ref_env 0) ref_lua 0
      (\<lambda>_. Inr (ref_cmd ''LPUSH'' ''k'' [''a'', ''b''] 0)) [] [] = Some (r, d')"
    "(map_sum id norm r, keyspace (ref_env 0) (map_of (b_begin ref_badger d'))) =
      spec_plain ref_badger (ref_env 0) (ref_cmd ''LPUSH'' ''k'' [''a'', ''b''] 0) popped
        (keyspace (ref_env 0) (map_of (b_begin ref_badger [])))"
    by blast
  ultimately show ?thesis by (simp add: none)
qed

text \<open>
  Replicas agree on one command. Two state machines on two storage engines, with two codecs and two map
  iteration orders, that hold the same key space and read the same time and compute expiry
  times alike, give the same reply to a command and hold the same key space after it, for
  every command but scripts and \<open>SPOP\<close>.
\<close>

theorem replicas_agree:
  assumes "store B1 contents1 E1" and "store B2 contents2 E2"
    and "clock E1 = clock E2" and "b_ttl B1 = b_ttl B2"
    and "keyspace E1 (contents1 (b_begin B1 d1)) = keyspace E2 (contents2 (b_begin B2 d2))"
    and "Op cmd \<notin> lua_ops" and "Op cmd \<noteq> ''SPOP''"
  shows "\<exists>r1 d1' r2 d2'.
    Apply B1 E1 L1 n1 (\<lambda>_. Inr cmd) data d1 = Some (r1, d1') \<and>
    Apply B2 E2 L2 n2 (\<lambda>_. Inr cmd) data d2 = Some (r2, d2') \<and>
    map_sum id norm r1 = map_sum id norm r2 \<and>
    keyspace E1 (contents1 (b_begin B1 d1')) = keyspace E2 (contents2 (b_begin B2 d2'))"
proof -
  obtain r1 d1' where 1: "db_update B1 (applyPlain B1 E1 cmd) d1 = (r1, d1')" by fastforce
  obtain r2 d2' where 2: "db_update B2 (applyPlain B2 E2 cmd) d2 = (r2, d2')" by fastforce
  have free: "spec_plain B E cmd p m = spec_plain B E cmd q m" for B :: "('x, 'y) badger" and E p q m
    using assms(7) by (simp add: spec_plain_def)
  let ?m = "keyspace E2 (contents2 (b_begin B2 d2))"
  have a: "(map_sum id norm r1, keyspace E1 (contents1 (b_begin B1 d1'))) = spec_plain B1 E1 cmd [] ?m"
    using store.update_refines [OF assms(1), of cmd d1] 1 free
    by (auto simp: store.view_def [OF assms(1)] assms(5))
  have b: "(map_sum id norm r2, keyspace E2 (contents2 (b_begin B2 d2'))) = spec_plain B2 E2 cmd [] ?m"
    using store.update_refines [OF assms(2), of cmd d2] 2 free
    by (auto simp: store.view_def [OF assms(2)])
  have "spec_plain B1 E1 cmd [] ?m = spec_plain B2 E2 cmd [] ?m"
    using assms(3,4) by (rule spec_plain_clock)
  with a b have "(map_sum id norm r1, keyspace E1 (contents1 (b_begin B1 d1'))) =
      (map_sum id norm r2, keyspace E2 (contents2 (b_begin B2 d2')))" by (simp only:)
  moreover have "Apply B1 E1 L1 n1 (\<lambda>_. Inr cmd) data d1 = Some (r1, d1')"
    by (subst Apply_plain [where cmd = cmd]) (simp_all add: 1 assms(6))
  moreover have "Apply B2 E2 L2 n2 (\<lambda>_. Inr cmd) data d2 = Some (r2, d2')"
    by (subst Apply_plain [where cmd = cmd]) (simp_all add: 2 assms(6))
  ultimately show ?thesis by auto
qed

text \<open>A second replica: the same store, with maps ranged over backwards.\<close>

definition ref_env_rev :: "int \<Rightarrow> env" where
  "ref_env_rev tm = ref_env tm\<lparr>range_order := rev\<rparr>"

interpretation rev: store ref_badger map_of "ref_env_rev tm" for tm
proof (intro store.intro ref_badger_live msgpack.intro)
  show "\<exists>m'. mp_dec_map (ref_env_rev tm) (mp_enc_map (ref_env_rev tm) m) = Inr m' \<and> mset m' = mset m"
    if "distinct (map fst m)" for m
    using ref.map_back [OF that] by (simp add: ref_env_rev_def)
  show "distinct (map fst m)" if "mp_dec_map (ref_env_rev tm) b = Inr m" for b m
    using ref.map_keys [of tm b m] that by (simp add: ref_env_rev_def)
qed (simp_all add: ref_env_rev_def ref.list_back)

definition ref_setdb :: refdb where
  "ref_setdb = [(userKey ''s'', stored_item (ref_enc_list [''a'', ''b''])), (typeKey ''s'', stored_item ''set'')]"

lemma rev_store: "store ref_badger map_of (ref_env_rev tm)"
  by unfold_locales

lemma ref_empty: "keyspace E (map_of (b_begin ref_badger [])) = Map.empty"
  by (rule ext) (simp add: keyspace_def ref_badger_def)

theorem replicas_agree_witness:
  "\<exists>r1 d1' r2 d2'.
    Apply ref_badger (ref_env 0) ref_lua 0 (\<lambda>_. Inr (ref_cmd ''SADD'' ''s'' [''a'', ''b''] 0)) [] [] = Some (r1, d1') \<and>
    Apply ref_badger (ref_env_rev 0) ref_lua 0 (\<lambda>_. Inr (ref_cmd ''SADD'' ''s'' [''a'', ''b''] 0)) [] [] = Some (r2, d2') \<and>
    map_sum id norm r1 = map_sum id norm r2 \<and>
    keyspace (ref_env 0) (map_of (b_begin ref_badger d1')) = keyspace (ref_env_rev 0) (map_of (b_begin ref_badger d2'))"
  by (rule replicas_agree [OF ref_store rev_store])
    (simp_all add: ref_env_rev_def ref_env_def ref_empty ref_cmd_def lua_ops_def)

text \<open>An order in which a range visits a given key first; Go may choose it.\<close>

definition visit_first :: "bytes \<Rightarrow> bytes list \<Rightarrow> bytes list" where
  "visit_first a xs = (if a \<in> set xs then a # remove1 a xs else xs)"

lemma store_visit_first: "store B contents E \<Longrightarrow> store B contents (E\<lparr>range_order := visit_first a\<rparr>)"
  by (simp add: store_def msgpack_def visit_first_def)

text \<open>
  C35: \<open>SPOP\<close> takes replicas apart. Take any two replicas, with any storage engines and codecs that
  keep their contracts, that hold the same key space, in which a key holds a set without
  expiry, and any two different members of the set. Go leaves the order of a range over a map
  open; with some orders the two replicas answer the same \<open>SPOP\<close> with these two members, and
  one keeps the member that the other removed.
\<close>

theorem spop_replicas_disagree:
  assumes "store B1 contents1 E1" and "store B2 contents2 E2"
    and "keyspace E1 (contents1 (b_begin B1 d1)) = keyspace E2 (contents2 (b_begin B2 d2))"
    and "keyspace E1 (contents1 (b_begin B1 d1)) key = Some (RSet s, 0)"
    and "a \<in> s" and "b \<in> s" and "a \<noteq> b"
  shows "\<exists>ord1 ord2 r1 d1' r2 d2'.
    store B1 contents1 (E1\<lparr>range_order := ord1\<rparr>) \<and> store B2 contents2 (E2\<lparr>range_order := ord2\<rparr>) \<and>
    Apply B1 (E1\<lparr>range_order := ord1\<rparr>) L1 n1 (\<lambda>_. Inr (ref_cmd ''SPOP'' key [] 0)) data d1 = Some (r1, d1') \<and>
    Apply B2 (E2\<lparr>range_order := ord2\<rparr>) L2 n2 (\<lambda>_. Inr (ref_cmd ''SPOP'' key [] 0)) data d2 = Some (r2, d2') \<and>
    map_sum id norm r1 = Inr (GBytes (Some a)) \<and> map_sum id norm r2 = Inr (GBytes (Some b)) \<and>
    keyspace E1 (contents1 (b_begin B1 d1')) key = Some (RSet (s - {a}), 0) \<and>
    keyspace E2 (contents2 (b_begin B2 d2')) key = Some (RSet (s - {b}), 0)"
proof -
  let ?cmd = "ref_cmd ''SPOP'' key [] 0"
  let ?F1 = "E1\<lparr>range_order := visit_first a\<rparr>" and ?F2 = "E2\<lparr>range_order := visit_first b\<rparr>"
  have cmd: "Op ?cmd = ''SPOP''" "Args ?cmd = []" "Key ?cmd = key" by (simp_all add: ref_cmd_def)
  note st1 = store_visit_first [OF assms(1), of a] and st2 = store_visit_first [OF assms(2), of b]
  have ks: "keyspace (E\<lparr>range_order := ord\<rparr>) = keyspace E" for E ord
  proof -
    have "interp (E\<lparr>range_order := ord\<rparr>) = interp E"
      by (simp add: interp_def fun_eq_iff cong: if_cong)
    moreover have "seen_type (E\<lparr>range_order := ord\<rparr>) = seen_type E"
      by (simp add: seen_type_def fun_eq_iff)
    ultimately show ?thesis by (simp add: keyspace_def fun_eq_iff cong: option.case_cong)
  qed
  note v1 = store.view_def [OF st1, unfolded ks] and v2 = store.view_def [OF st2, unfolded ks]
  have "s \<noteq> {a}" "s \<noteq> {b}" using assms(5-7) by auto
  obtain r1 d1' where 1: "Apply B1 ?F1 L1 n1 (\<lambda>_. Inr ?cmd) data d1 = Some (r1, d1')"
    "map_sum id norm r1 = Inr (GBytes (Some a))"
    "keyspace E1 (contents1 (b_begin B1 d1')) key = Some (RSet (s - {a}), 0)"
  proof (rule store.spop_first [OF st1 cmd(1,2), of d1 s a L1 n1 data])
    show "hd (range_order ?F1 xs) = a" if "a \<in> set xs" for xs using that by (simp add: visit_first_def)
  qed (use assms(4,5) \<open>s \<noteq> {a}\<close> in \<open>simp_all add: v1 cmd(3)\<close>)
  obtain r2 d2' where 2: "Apply B2 ?F2 L2 n2 (\<lambda>_. Inr ?cmd) data d2 = Some (r2, d2')"
    "map_sum id norm r2 = Inr (GBytes (Some b))"
    "keyspace E2 (contents2 (b_begin B2 d2')) key = Some (RSet (s - {b}), 0)"
  proof (rule store.spop_first [OF st2 cmd(1,2), of d2 s b L2 n2 data])
    show "hd (range_order ?F2 xs) = b" if "b \<in> set xs" for xs using that by (simp add: visit_first_def)
  qed (use assms(3,4,6) \<open>s \<noteq> {b}\<close> in \<open>simp_all add: v2 cmd(3)\<close>)
  from st1 st2 1 2 show ?thesis by blast
qed

theorem spop_replicas_disagree_witness:
  "\<exists>ord1 ord2 r1 d1' r2 d2'.
    Apply ref_badger (ref_env 0\<lparr>range_order := ord1\<rparr>) ref_lua 0 (\<lambda>_. Inr (ref_cmd ''SPOP'' ''s'' [] 0)) [] ref_setdb = Some (r1, d1') \<and>
    Apply ref_badger (ref_env 0\<lparr>range_order := ord2\<rparr>) ref_lua 0 (\<lambda>_. Inr (ref_cmd ''SPOP'' ''s'' [] 0)) [] ref_setdb = Some (r2, d2') \<and>
    map_sum id norm r1 = Inr (GBytes (Some ''a'')) \<and> map_sum id norm r2 = Inr (GBytes (Some ''b''))"
proof -
  have "keyspace (ref_env 0) (map_of (b_begin ref_badger ref_setdb)) ''s'' = Some (RSet {''a'', ''b''}, 0)"
    by (simp add: keyspace_def seen_type_def interp_def ref_setdb_def ref_badger_def ref_env_def ref_dec_enc
        stored_item_def)
  from spop_replicas_disagree [OF ref_store ref_store refl this, of "''a''" "''b''" ref_lua 0 "[]" ref_lua 0]
  show ?thesis by (simp del: insert_Diff_if) blast
qed

text \<open>
  C7: no command and no script, however it ends and whatever calls of the storage engine fail
  on the way, changes an entry of the Raft log, or a record of the stable store unless its
  name continues the prefix of the script keys; and it keeps the layout the log store needs.
  (The deletes of \<open>SCRIPT FLUSH\<close>, whose keys the iterator may overwrite before the commit, are
  taken to concern no key but scripts; they could only reach a key of 47 bytes, which Raft
  does not use.)
\<close>

theorem Apply_keeps_raft_records:
  assumes "badger_txn B contents" and "Apply B E L n dec data d = Some (r, d')"
  shows "(\<forall>i. contents (b_begin B d') (logKey i) = contents (b_begin B d) (logKey i)) \<and>
    (\<forall>k. \<not> prefix ''CRIPT:'' k \<longrightarrow>
      contents (b_begin B d') (stableKey k) = contents (b_begin B d) (stableKey k)) \<and>
    (log_layout (contents (b_begin B d)) \<longrightarrow> log_layout (contents (b_begin B d')))"
  using Apply_outside [OF assms] logKey_not_app stableKey_not_app log_layout_app by blast

theorem Apply_keeps_raft_records_witness:
  "\<exists>r d'. Apply ref_badger (ref_env 0) ref_lua 0 (\<lambda>_. Inr (ref_cmd ''FLUSHDB'' [] [] 0)) [] ref_logdb = Some (r, d') \<and>
    map_of (b_begin ref_badger d') (logKey 3) = map_of (b_begin ref_badger ref_logdb) (logKey 3)"
proof -
  have "map_option fst (Apply ref_badger (ref_env 0) ref_lua 0
      (\<lambda>_. Inr (ref_cmd ''FLUSHDB'' [] [] 0)) [] ref_logdb) = Some (Inr (GStr ''OK''))"
    by code_simp
  then obtain r d' where run: "Apply ref_badger (ref_env 0) ref_lua 0
      (\<lambda>_. Inr (ref_cmd ''FLUSHDB'' [] [] 0)) [] ref_logdb = Some (r, d')"
    by auto
  from Apply_keeps_raft_records [OF refb.badger_txn_axioms run] run show ?thesis by blast
qed

end
