(* ===== verification/TypedStore.thy ===== *)
theory TypedStore
  imports FsmProps
begin

text \<open>
  What the two entries of a user key have to do with each other. \<open>store/fsm.go\<close> keeps a value
  under \<open>K\<close> and its type under \<open>T\<close>, each with an expiry of its own. The invariant of this
  theory says that the type entry of every value a reader can see is there as long as the
  value is, and that the value decodes as that type. The commands keep it, all but an
  \<open>EXPIRE\<close> that prolongs a value beyond its type; the records Raft writes to the same
  database do not touch it; and time passing does not break it.
\<close>

section \<open>The invariant\<close>

definition outlives :: "64 word \<Rightarrow> 64 word \<Rightarrow> bool" where
  "outlives y x \<longleftrightarrow> y = 0 \<or> x \<noteq> 0 \<and> x \<le> y"

fun decoded :: "rval \<Rightarrow> bool" where
  "decoded (RBad _ _) = False"
| "decoded _ = True"

definition typed_at :: "env \<Rightarrow> (bytes \<Rightarrow> item option) \<Rightarrow> bytes \<Rightarrow> bool" where
  "typed_at E c key \<longleftrightarrow>
     (case live (clock E) (c (userKey key)) of
        None \<Rightarrow> True
      | Some it \<Rightarrow>
          (case c (typeKey key) of
             None \<Rightarrow> False
           | Some j \<Rightarrow> outlives (it_exp j) (it_exp it) \<and> decoded (interp E (it_val j) (it_val it))))"

definition typed_db :: "env \<Rightarrow> (bytes \<Rightarrow> item option) \<Rightarrow> bool" where
  "typed_db E c \<longleftrightarrow> (\<forall>key. typed_at E c key)"

text \<open>
  An \<open>EXPIRE\<close> that does not give the value a longer life than its type entry has. Every other
  command is fine as it is.
\<close>

definition expire_ok :: "('d, 't) badger \<Rightarrow> env \<Rightarrow> Command \<Rightarrow> (bytes \<Rightarrow> item option) \<Rightarrow> bool" where
  "expire_ok B E cmd c \<longleftrightarrow>
     (Op cmd = ''EXPIRE'' \<longrightarrow>
        (case c (typeKey (Key cmd)) of
           None \<Rightarrow> True
         | Some j \<Rightarrow> outlives (it_exp j) (b_ttl B (clock E) (ms_duration (TTLMs cmd)))))"

lemma outlives_refl [simp]: "outlives x x"
  by (simp add: outlives_def)

lemma outlives_0 [simp]: "outlives 0 x"
  by (simp add: outlives_def)

lemma outlives_live: "outlives y x \<Longrightarrow> \<not> exp_passed tm x \<Longrightarrow> \<not> exp_passed tm y"
  by (auto simp: outlives_def exp_passed_def)

lemma typed_at_cong:
  "c (userKey key) = c' (userKey key) \<Longrightarrow> c (typeKey key) = c' (typeKey key) \<Longrightarrow>
     typed_at E c key = typed_at E c' key"
  by (simp add: typed_at_def cong: option.case_cong)

lemma typed_at_absent: "live (clock E) (c (userKey key)) = None \<Longrightarrow> typed_at E c key"
  by (simp add: typed_at_def)

lemma typed_atE:
  assumes "typed_at E c key" and "live (clock E) (c (userKey key)) = Some it"
  obtains j where "c (typeKey key) = Some j" and "live (clock E) (c (typeKey key)) = Some j"
    and "outlives (it_exp j) (it_exp it)" and "decoded (interp E (it_val j) (it_val it))"
proof -
  from assms obtain j where j: "c (typeKey key) = Some j" "outlives (it_exp j) (it_exp it)"
    "decoded (interp E (it_val j) (it_val it))"
    by (auto simp: typed_at_def split: option.splits)
  from assms(2) have "\<not> exp_passed (clock E) (it_exp it)"
    by (auto simp: live_def split: option.splits if_splits)
  with j(2) have "\<not> exp_passed (clock E) (it_exp j)" by (rule outlives_live)
  with j show ?thesis by (intro that [of j]) (simp_all add: live_def)
qed

lemma typed_keyspace:
  assumes "typed_at E c key" and "keyspace E c key = Some (v, x)"
  shows "decoded v"
  using assms by (auto simp: keyspace_def seen_type_def elim!: typed_atE split: option.splits)

text \<open>The invariant reads two entries per key, so it survives changes elsewhere.\<close>

lemma typed_db_upd_key:
  assumes "typed_db E c" and "typed_at E c' key"
    and "\<And>k. k \<noteq> key \<Longrightarrow> c' (userKey k) = c (userKey k) \<and> c' (typeKey k) = c (typeKey k)"
  shows "typed_db E c'"
  unfolding typed_db_def
proof
  fix k
  show "typed_at E c' k"
    using assms typed_at_cong [of c' k c E] by (cases "k = key") (auto simp: typed_db_def)
qed

lemma typed_db_cong:
  assumes "typed_db E c" and "\<And>k. c' (userKey k) = c (userKey k) \<and> c' (typeKey k) = c (typeKey k)"
  shows "typed_db E c'"
  using assms typed_at_cong [of c' _ c E] by (auto simp: typed_db_def)

section \<open>Time\<close>

text \<open>The clock goes on, the codec stays.\<close>

lemma exp_passed_later:
  assumes "exp_passed tm x" and "0 \<le> tm" and "tm \<le> tm'" and "tm' < 2 ^ 63"
  shows "exp_passed tm' x"
proof -
  let ?s = "unix_sec tm" and ?s' = "unix_sec tm'"
  have "0 \<le> ?s" "?s \<le> ?s'" "?s' < 2 ^ 64"
    using assms(2-4) by (simp_all add: unix_sec_def zdiv_mono1)
  then have "(word_of_int ?s :: 64 word) \<le> word_of_int ?s'"
    by (simp add: word_le_def uint_word_of_int take_bit_int_eq_self)
  with assms(1) show ?thesis by (auto simp: exp_passed_def)
qed

lemma live_later:
  assumes "live tm' oi = Some it" and "0 \<le> tm" and "tm \<le> tm'" and "tm' < 2 ^ 63"
  shows "live tm oi = Some it"
  using assms exp_passed_later [OF _ assms(2-4)] by (auto simp: live_def split: option.splits if_splits)

lemma interp_clock [simp]: "interp (E\<lparr>clock := tm\<rparr>) = interp E"
  by (simp add: fun_eq_iff interp_def)

lemma typed_db_later:
  assumes "typed_db (E\<lparr>clock := tm\<rparr>) c" and "0 \<le> tm" and "tm \<le> tm'" and "tm' < 2 ^ 63"
  shows "typed_db (E\<lparr>clock := tm'\<rparr>) c"
  unfolding typed_db_def
proof
  fix key
  show "typed_at (E\<lparr>clock := tm'\<rparr>) c key"
  proof (cases "live tm' (c (userKey key))")
    case (Some it)
    with live_later [OF Some assms(2-4)] assms(1) show ?thesis
      by (auto simp: typed_db_def typed_at_def dest!: spec [of _ key] split: option.splits)
  qed (simp add: typed_at_def)
qed

lemma keyspace_later:
  assumes "typed_db (E\<lparr>clock := tm\<rparr>) c" and "0 \<le> tm" and "tm \<le> tm'" and "tm' < 2 ^ 63"
    and "keyspace (E\<lparr>clock := tm'\<rparr>) c key = Some r"
  shows "keyspace (E\<lparr>clock := tm\<rparr>) c key = Some r"
proof -
  from assms(5) obtain it where it: "live tm' (c (userKey key)) = Some it"
    and r: "r = (interp E (seen_type (E\<lparr>clock := tm'\<rparr>) c key) (it_val it), it_exp it)"
    by (auto simp: keyspace_def split: option.splits)
  from it have now: "live tm (c (userKey key)) = Some it"
    using assms(2-4) by (rule live_later)
  have later: "typed_at (E\<lparr>clock := tm'\<rparr>) c key"
    using typed_db_later [OF assms(1-4)] by (simp add: typed_db_def)
  obtain j where j: "c (typeKey key) = Some j" "live tm' (c (typeKey key)) = Some j"
    using typed_atE [OF later, of it] it by auto
  moreover have "live tm (c (typeKey key)) = Some j"
    using live_later [OF j(2) assms(2-4)] .
  ultimately have "seen_type (E\<lparr>clock := tm\<rparr>) c key = seen_type (E\<lparr>clock := tm'\<rparr>) c key"
    by (simp add: seen_type_def)
  with now r show ?thesis by (simp add: keyspace_def)
qed

section \<open>The commands keep the invariant\<close>

context store
begin

definition keeps :: "('t, 'a) tx \<Rightarrow> bool" where
  "keeps f \<longleftrightarrow> (\<forall>t. typed_db E (contents t) \<longrightarrow> typed_db E (contents (snd (f t))))"

lemma keepsI: "(\<And>t. typed_db E (contents t) \<Longrightarrow> typed_db E (contents (snd (f t)))) \<Longrightarrow> keeps f"
  by (simp add: keeps_def)

lemma keepsD: "keeps f \<Longrightarrow> typed_db E (contents t) \<Longrightarrow> typed_db E (contents (snd (f t)))"
  by (simp add: keeps_def)

lemma keeps_ret: "keeps (ret x)"
  by (simp add: keeps_def monad_simps)

lemma keeps_throw: "keeps (throw e)"
  by (simp add: keeps_def monad_simps)

lemma keeps_const: "keeps (\<lambda>t. (x, t))"
  by (simp add: keeps_def)

lemma keeps_bind: "keeps f \<Longrightarrow> (\<And>x. keeps (g x)) \<Longrightarrow> keeps (bind f g)"
  by (auto simp: keeps_def monad_simps split: sum.split)

text \<open>After a read the rest knows what the read returned.\<close>

lemma keeps_read: "(\<And>t x. g t = Inr x \<Longrightarrow> keeps (h x)) \<Longrightarrow> keeps (bind (readE g) h)"
  by (auto simp: keeps_def monad_simps split: sum.split)

lemma keeps_setValue:
  assumes "decoded (interp E typ v)"
  shows "keeps (setValue B E key v typ ttl)"
proof (rule keepsI)
  fix t assume "typed_db E (contents t)"
  then show "typed_db E (contents (snd (setValue B E key v typ ttl t)))"
    by (rule typed_db_upd_key [where key = key])
      (simp_all add: setValue_contents typed_at_def live_def assms)
qed

lemma keeps_dropKey: "keeps (dropKey B key)"
proof (rule keepsI)
  fix t assume "typed_db E (contents t)"
  then show "typed_db E (contents (snd (dropKey B key t)))"
    by (rule typed_db_upd_key [where key = key]) (simp_all add: dropKey_contents typed_at_def)
qed

lemma keeps_storeOrDrop:
  "decoded (interp E typ v) \<Longrightarrow> keeps (storeOrDrop B E key none v typ ttl)"
  by (simp add: storeOrDrop_def keeps_setValue keeps_dropKey)

lemma keeps_del_user: "keeps (b_del B (userKey key))"
proof (rule keepsI)
  fix t assume "typed_db E (contents t)"
  then show "typed_db E (contents (snd (b_del B (userKey key) t)))"
    by (rule typed_db_upd_key [where key = key]) (simp_all add: typed_at_def)
qed

lemmas keeps_intros = keeps_bind keeps_ret keeps_throw keeps_setValue keeps_storeOrDrop

lemma keeps_set_list: "keeps (setValue B E key (encodeMsgpack_list E xs) ''list'' ttl)"
  "keeps (setValue B E key (encodeMsgpack_list E xs) ''set'' ttl)"
  by (simp_all add: keeps_setValue encodeMsgpack_list_def)

lemma keeps_store_list: "keeps (storeOrDrop B E key none (encodeMsgpack_list E xs) ''list'' ttl)"
  "keeps (storeOrDrop B E key none (encodeMsgpack_list E xs) ''set'' ttl)"
  by (simp_all add: keeps_storeOrDrop encodeMsgpack_list_def)

lemma keeps_applySet: "keeps (applySet B E cmd)"
proof -
  have "keeps (setTail B E cmd ex old ttl)" for ex old ttl
    by (simp add: setTail_def Let_def keeps_bind keeps_ret keeps_setValue)
  from keepsD [OF this] show ?thesis
    by (intro keepsI) (auto simp: applySet_def split: sum.split)
qed

lemma keeps_applyMSet: "keeps (applyMSet B E cmd)"
proof -
  have "keeps (mset_loop B E args)" for args
    by (induction args rule: pairs.induct) (simp_all add: keeps_intros)
  then show ?thesis by (simp add: applyMSet_def keeps_intros)
qed

lemma keeps_del_both:
  "keeps f \<Longrightarrow> keeps (bind (b_del B (userKey k)) (\<lambda>_. bind (ignore_err (b_del B (typeKey k))) (\<lambda>_. f)))"
proof (rule keepsI)
  fix t assume f: "keeps f" and t: "typed_db E (contents t)"
  let ?t = "snd (dropKey B k t)"
  have "typed_db E (contents ?t)" using keepsD [OF keeps_dropKey t] .
  then have "typed_db E (contents (snd (f ?t)))" by (rule keepsD [OF f])
  then show "typed_db E (contents (snd (bind (b_del B (userKey k))
      (\<lambda>_. bind (ignore_err (b_del B (typeKey k))) (\<lambda>_. f)) t)))"
    by (simp add: dropKey_def monad_simps)
qed

lemma keeps_del_loop: "keeps (del_loop B E ks cnt)"
proof (induction ks arbitrary: cnt)
  case (Cons k ks)
  from keepsD [OF keeps_del_both [OF Cons.IH]] keepsD [OF Cons.IH] show ?case
    by (intro keepsI) (auto split: sum.split)
qed (simp add: keeps_const)

lemma keeps_applyDel: "keeps (applyDel B E cmd)"
proof -
  have "snd (case p of (Inl _, t') \<Rightarrow> (a, t') | (Inr _, t') \<Rightarrow> (b, t')) = snd p"
    for p :: "(err + unit) \<times> 't" and a b :: "err + goval"
    by (simp split: prod.split sum.split)
  then show ?thesis unfolding applyDel_def
    by (intro keeps_bind keeps_del_loop)
      (use keepsD [OF keeps_del_user] in \<open>auto simp: keeps_def split: sum.split\<close>)
qed

lemma keeps_applyFlushDB: "keeps (applyFlushDB B E cmd)"
proof (rule keepsI)
  fix t
  have "keyspace E (contents (snd (applyFlushDB B E cmd t))) = Map.empty"
    using applyFlushDB_view [of cmd t] by (simp add: view_def)
  then have "live (clock E) (contents (snd (applyFlushDB B E cmd t)) (userKey key)) = None" for key
    by (auto simp: keyspace_def fun_eq_iff split: option.splits dest: spec [of _ key])
  then show "typed_db E (contents (snd (applyFlushDB B E cmd t)))"
    by (simp add: typed_db_def typed_at_absent)
qed

lemma keeps_applyIncr: "keeps (applyIncr B E cmd)"
  unfolding applyIncr_def
  by (intro keeps_read) (auto simp: Let_def intro!: keeps_read keeps_intros)

lemma keeps_applyPersist: "keeps (applyPersist B E cmd)"
proof (rule keepsI)
  fix t assume t: "typed_db E (contents t)"
  show "typed_db E (contents (snd (applyPersist B E cmd t)))"
  proof (cases "live (clock E) (contents t (userKey (Key cmd)))")
    case None
    with t show ?thesis by (simp add: applyPersist_def b_get_eq)
  next
    case (Some it)
    from t have "typed_at E (contents t) (Key cmd)" by (simp add: typed_db_def)
    then obtain j where "live (clock E) (contents t (typeKey (Key cmd))) = Some j"
      and "decoded (interp E (it_val j) (it_val it))"
      using Some by (elim typed_atE)
    with Some t keepsD [OF keeps_bind [OF keeps_setValue keeps_ret], of "it_val j" "it_val it" t "Key cmd" 0 "\<lambda>_. GInt 1"]
    show ?thesis
      by (simp add: applyPersist_def b_get_eq Let_def)
  qed
qed

lemma keeps_applyExpire:
  assumes "typed_db E (contents t)" and "Op cmd = ''EXPIRE''" and "expire_ok B E cmd (contents t)"
  shows "typed_db E (contents (snd (applyExpire B E cmd t)))"
proof (cases "live (clock E) (contents t (userKey (Key cmd)))")
  case None
  with assms(1) show ?thesis by (simp add: applyExpire_def b_get_eq)
next
  case (Some it)
  let ?x = "b_ttl B (clock E) (ms_duration (TTLMs cmd))"
  have c: "contents (snd (applyExpire B E cmd t)) =
      (contents t)(userKey (Key cmd) \<mapsto> \<lparr>it_val = it_val it, it_exp = ?x\<rparr>)"
    using Some by (simp add: applyExpire_def b_get_eq Let_def monad_simps WithTTL_def NewEntry_def)
  from assms(1) have "typed_at E (contents t) (Key cmd)" by (simp add: typed_db_def)
  then obtain j where "contents t (typeKey (Key cmd)) = Some j"
    and "decoded (interp E (it_val j) (it_val it))"
    using Some by (elim typed_atE)
  with assms(2,3) have "typed_at E (contents (snd (applyExpire B E cmd t))) (Key cmd)"
    by (simp add: c typed_at_def live_def expire_ok_def)
  with assms(1) show ?thesis by (rule typed_db_upd_key) (simp add: c)
qed

lemma keeps_applyPush: "keeps (applyPush B E cmd)"
proof -
  have "keeps (bind (setValue B E (Key cmd) (encodeMsgpack_list E xs) ''list'' ttl) (\<lambda>_. ret r))" for xs ttl r
    by (intro keeps_bind keeps_ret keeps_set_list)
  from keepsD [OF this] show ?thesis
    by (intro keepsI) (auto simp: applyPush_def Let_def split: sum.split prod.split)
qed

lemmas keeps_collection = keeps_read keeps_bind keeps_ret keeps_throw keeps_set_list keeps_store_list

lemma keeps_applyPop: "keeps (applyPop B E cmd)"
  by (auto simp: applyPop_def Let_def intro!: keeps_collection split: prod.split)

lemma keeps_applyLTrim: "keeps (applyLTrim B E cmd)"
  by (auto simp: applyLTrim_def Let_def intro!: keeps_collection split: prod.split)

lemma keeps_applyLRem: "keeps (applyLRem B E cmd)"
  by (auto simp: applyLRem_def Let_def intro!: keeps_collection split: prod.split)

lemma keeps_applySAdd: "keeps (applySAdd B E cmd)"
  by (auto simp: applySAdd_def Let_def intro!: keeps_collection split: prod.split)

lemma keeps_applySRemPop: "keeps (applySRemPop B E cmd)"
  by (auto simp: applySRemPop_def Let_def intro!: keeps_collection split: prod.split option.split)

text \<open>A hash that was loaded has each field once, and the loops keep that.\<close>

lemma loaded_hash:
  "loadTyped B E ''hash'' (decodeMsgpack_map E) key t = Inr (Some (hash, ttl)) \<Longrightarrow> distinct (map fst hash)"
  by (auto simp: loadTyped_def decodeMsgpack_map_def intro: map_keys split: sum.splits if_splits)

lemma decoded_hash: "distinct (map fst hash) \<Longrightarrow> decoded (interp E ''hash'' (encodeMsgpack_map E hash))"
  by (simp add: encodeMsgpack_map_def)

lemma keeps_applyHSet: "keeps (applyHSet B E cmd)"
proof -
  have "keeps (let (hash, cnt) = hset_loop (Op cmd) (Args cmd) hash 0
      in bind (setValue B E (Key cmd) (encodeMsgpack_map E hash) ''hash'' ttl) (\<lambda>_. ret (GInt cnt)))"
    if "distinct (map fst hash)" for hash ttl
    using hset_loop_keys [OF that, of "Op cmd" "Args cmd" 0]
    by (simp add: case_prod_beta keeps_bind keeps_ret keeps_setValue decoded_hash)
  then show ?thesis unfolding applyHSet_def
    by (auto intro!: keeps_throw keeps_read dest!: loaded_hash split: option.split)
qed

lemma keeps_applyHDel: "keeps (applyHDel B E cmd)"
proof -
  have "keeps (let (hash, cnt) = hdel_loop (Args cmd) hash 0
      in bind (storeOrDrop B E (Key cmd) (hash = []) (encodeMsgpack_map E hash) ''hash'' ttl)
           (\<lambda>_. ret (GInt cnt)))"
    if "distinct (map fst hash)" for hash ttl
    using hdel_loop_keys [OF that, of "Args cmd" 0]
    by (simp add: case_prod_beta keeps_bind keeps_ret keeps_storeOrDrop decoded_hash)
  then show ?thesis unfolding applyHDel_def
    by (auto intro!: keeps_ret keeps_read dest!: loaded_hash split: option.split)
qed

lemmas keeps_cases = keeps_applySet keeps_applyMSet keeps_applyDel keeps_applyFlushDB keeps_applyIncr
  keeps_applyPersist keeps_applyHSet keeps_applyHDel keeps_applyPush keeps_applyPop
  keeps_applyLTrim keeps_applyLRem keeps_applySAdd keeps_applySRemPop keeps_throw

lemma applyPlain_typed:
  assumes "typed_db E (contents t)" and "expire_ok B E cmd (contents t)"
  shows "typed_db E (contents (snd (applyPlain B E cmd t)))"
proof (cases "Op cmd = ''EXPIRE''")
  case True
  with keeps_applyExpire [OF assms(1) True assms(2)] show ?thesis by (simp add: applyPlain_def)
next
  case False
  then have "keeps (applyPlain B E cmd)" by (simp add: applyPlain_def keeps_cases)
  from this assms(1) show ?thesis by (rule keepsD)
qed

lemma Apply_typed:
  assumes "typed_db E (contents (b_begin B d))" and "expire_ok B E cmd (contents (b_begin B d))"
    and "Op cmd \<notin> lua_ops" and "Apply B E L n (\<lambda>_. Inr cmd) data d = Some (r, d')"
  shows "typed_db E (contents (b_begin B d'))"
proof -
  have "db_update B (applyPlain B E cmd) d = (r, d')"
    using assms(3,4) Apply_plain [where dec = "\<lambda>_. Inr cmd" and cmd = cmd and data = data and B = B and E = E
        and L = L and n = n and d = d] by simp
  then show ?thesis
    by (elim db_update_cases) (use assms(1) applyPlain_typed [OF assms(1,2)] in simp_all)
qed

text \<open>The writes of the Raft log and stable store leave the two entries of every key alone.\<close>

lemma StoreLogs_typed:
  assumes "typed_db E (contents (b_begin B d))" and "StoreLogs B C logs d = (r, d')"
  shows "typed_db E (contents (b_begin B d'))"
proof (cases "encode_logs C logs")
  case (Inl e)
  with assms show ?thesis by (simp add: StoreLogs_def)
next
  case (Inr data)
  let ?f = "for_each (\<lambda>(k, v). b_set B (NewEntry k v)) data"
  have "frame (range logKey) ?f"
    using encode_logs_Inr [OF Inr] by (intro frame_for_each) (auto intro!: frame_set simp: NewEntry_def)
  then have same: "contents (snd (?f (b_begin B d))) (userKey k) = contents (b_begin B d) (userKey k) \<and>
      contents (snd (?f (b_begin B d))) (typeKey k) = contents (b_begin B d) (typeKey k)" for k
    by (auto intro!: frameD)
  from assms(2) Inr have "db_update B ?f d = (r, d')" by (simp add: StoreLogs_def)
  then show ?thesis
    by (elim db_update_cases) (use assms(1) typed_db_cong [OF assms(1), OF same] in simp_all)
qed

lemma DeleteRange_typed:
  assumes "typed_db E (contents (b_begin B d))" and "DeleteRange B lo hi d = Some (r, d')"
  shows "typed_db E (contents (b_begin B d'))"
proof -
  from assms(2) have "hi \<noteq> - 1" using delete_loop_diverges [of lo] by (auto simp: DeleteRange_def)
  then obtain t where t: "delete_loop B lo hi (b_begin B d) = Some (Inr (), t)"
    and c: "contents t = drop_logs lo hi (contents (b_begin B d))"
    using delete_loop_contents by blast
  from t assms(2) have "db_update B (\<lambda>_. (Inr (), t)) d = (r, d')" by (simp add: DeleteRange_def)
  moreover have "typed_db E (contents t)"
    by (rule typed_db_cong [OF assms(1)]) (auto simp: c drop_logs_def)
  ultimately show ?thesis by (elim db_update_cases) (use assms(1) in simp_all)
qed

lemma stable_Set_typed:
  assumes "typed_db E (contents (b_begin B d))" and "stable_Set B k v d = (r, d')"
  shows "typed_db E (contents (b_begin B d'))"
  using assms(2) stable_Set_contents [of k v d] by (auto intro!: typed_db_cong [OF assms(1)])

end

section \<open>A node's database over time\<close>

text \<open>
  What happens to the database of a running node, with the clock as part of the state: time
  passes, a committed command is applied at the present time, and Raft writes, trims and
  notes in the same database. The commands are those that run no script, and an \<open>EXPIRE\<close>
  must not outlive the type entry of its key.
\<close>

inductive node_step ::
  "('d, 't) badger \<Rightarrow> ('t \<Rightarrow> bytes \<Rightarrow> item option) \<Rightarrow> env \<Rightarrow> ('s, 'n) lua \<Rightarrow> nat \<Rightarrow> 'l logcodec \<Rightarrow>
   int \<times> 'd \<Rightarrow> int \<times> 'd \<Rightarrow> bool"
  for B contents E L n C where
  tick: "tm \<le> tm' \<Longrightarrow> tm' < 2 ^ 63 \<Longrightarrow> node_step B contents E L n C (tm, d) (tm', d)"
| command: "Op cmd \<notin> lua_ops \<Longrightarrow> expire_ok B (E\<lparr>clock := tm\<rparr>) cmd (contents (b_begin B d)) \<Longrightarrow>
    Apply B (E\<lparr>clock := tm\<rparr>) L n (\<lambda>_. Inr cmd) data d = Some (r, d') \<Longrightarrow>
    node_step B contents E L n C (tm, d) (tm, d')"
| append: "StoreLogs B C logs d = (r, d') \<Longrightarrow> node_step B contents E L n C (tm, d) (tm, d')"
| trim: "DeleteRange B lo hi d = Some (r, d') \<Longrightarrow> node_step B contents E L n C (tm, d) (tm, d')"
| note_down: "stable_Set B k v d = (r, d') \<Longrightarrow> node_step B contents E L n C (tm, d) (tm, d')"

lemma store_clock: "store B contents E \<Longrightarrow> store B contents (E\<lparr>clock := tm\<rparr>)"
  by (simp add: store_def msgpack_def)

lemma node_step_typed:
  assumes "store B contents E" and "node_step B contents E L n C s s'"
    and "0 \<le> fst s" and "typed_db (E\<lparr>clock := fst s\<rparr>) (contents (b_begin B (snd s)))"
  shows "0 \<le> fst s' \<and> typed_db (E\<lparr>clock := fst s'\<rparr>) (contents (b_begin B (snd s')))"
  using assms(2-4)
proof (induction rule: node_step.induct)
  case (tick tm tm' d)
  then show ?case using typed_db_later [where E = E and tm = tm] by auto
qed (auto intro: store.Apply_typed store.StoreLogs_typed store.DeleteRange_typed store.stable_Set_typed
    store_clock [OF assms(1)])

lemma node_run_typed:
  assumes "store B contents E" and "(node_step B contents E L n C)\<^sup>*\<^sup>* s s'"
    and "0 \<le> fst s" and "typed_db (E\<lparr>clock := fst s\<rparr>) (contents (b_begin B (snd s)))"
  shows "0 \<le> fst s' \<and> typed_db (E\<lparr>clock := fst s'\<rparr>) (contents (b_begin B (snd s')))"
  using assms(2)
  by (induction rule: rtranclp_induct) (use assms(3,4) node_step_typed [OF assms(1)] in blast)+

section \<open>Properties\<close>

text \<open>
  C6: a value keeps its type. On a node that starts with an empty database, after any sequence
  of commands (scripts apart), log writes, log trims and stable-store writes at any
  times, provided no \<open>EXPIRE\<close> prolongs a value beyond its type entry: every value that can be
  seen, then or at any later time, decodes as a string, hash, list or set, it is the value
  that was there before the wait, and \<open>TYPE\<close> names its type.
\<close>

theorem values_keep_their_type:
  assumes "store B contents E" and "contents (b_begin B d0) = Map.empty" and "0 \<le> tm0"
    and "(node_step B contents E L n C)\<^sup>*\<^sup>* (tm0, d0) (tm, d)"
    and "tm \<le> tm'" and "tm' < 2 ^ 63"
    and "keyspace (E\<lparr>clock := tm'\<rparr>) (contents (b_begin B d)) key = Some (v, x)"
  shows "decoded v \<and> keyspace (E\<lparr>clock := tm\<rparr>) (contents (b_begin B d)) key = Some (v, x) \<and>
    Type B (E\<lparr>clock := tm'\<rparr>) key (b_begin B d) = Inr (rtype v)"
proof -
  have "typed_db (E\<lparr>clock := tm0\<rparr>) (contents (b_begin B d0))"
    by (simp add: assms(2) typed_db_def typed_at_def)
  then have "0 \<le> tm" and typed: "typed_db (E\<lparr>clock := tm\<rparr>) (contents (b_begin B d))"
    using node_run_typed [OF assms(1,4)] assms(3) by simp_all
  note later = \<open>0 \<le> tm\<close> assms(5,6)
  have "decoded v"
    using typed_db_later [OF typed later] typed_keyspace [OF _ assms(7)] by (simp add: typed_db_def)
  moreover have "keyspace (E\<lparr>clock := tm\<rparr>) (contents (b_begin B d)) key = Some (v, x)"
    using keyspace_later [OF typed later assms(7)] .
  moreover have "Type B (E\<lparr>clock := tm'\<rparr>) key (b_begin B d) = Inr (rtype v)"
    using store.Type_spec [OF store_clock [OF assms(1)], where key = key and t = "b_begin B d"] assms(7)
    by (simp add: store.view_def [OF store_clock [OF assms(1)]])
  ultimately show ?thesis by blast
qed

lemma ref_env_clock [simp]: "ref_env a\<lparr>clock := tm\<rparr> = ref_env tm"
  by (simp add: ref_env_def)

lemma ref_command:
  "Op cmd \<notin> lua_ops \<Longrightarrow> expire_ok ref_badger (ref_env tm) cmd (map_of (b_begin ref_badger d)) \<Longrightarrow>
     Apply ref_badger (ref_env tm) L n (\<lambda>_. Inr cmd) data d = Some (r, d') \<Longrightarrow>
     node_step ref_badger map_of (ref_env 0) L n C (tm, d) (tm, d')"
  using node_step.command [of cmd ref_badger tm "ref_env 0" map_of d L n data r d'] by simp

text \<open>A hash that gets a life of ten seconds at the second second; it is read at five and again at seven.\<close>

definition ref_hashdb :: "64 word \<Rightarrow> 64 word \<Rightarrow> refdb" where
  "ref_hashdb x y =
     [(userKey ''h'', \<lparr>it_val = ref_enc_map [(''f'', ''v'')], it_exp = x\<rparr>),
      (typeKey ''h'', \<lparr>it_val = ''hash'', it_exp = y\<rparr>)]"

theorem values_keep_their_type_witness:
  "Type ref_badger (ref_env 7000000000) ''h'' (ref_hashdb 12 0) = Inr ''hash'' \<and>
   keyspace (ref_env 5000000000) (map_of (ref_hashdb 12 0)) ''h'' =
     Some (RHash [''f'' \<mapsto> ''v''], 12)"
proof -
  let ?step = "node_step ref_badger map_of (ref_env 0) ref_lua 0 ref_logcodec"
  have 1: "Apply ref_badger (ref_env 0) ref_lua 0
      (\<lambda>_. Inr (ref_cmd ''HSET'' ''h'' [''f'', ''v''] 0)) [] [] =
      Some (Inr (GInt 1), ref_hashdb 0 0)"
    and 2: "Apply ref_badger (ref_env 2000000000) ref_lua 0
      (\<lambda>_. Inr (ref_cmd ''EXPIRE'' ''h'' [] 10000)) [] (ref_hashdb 0 0) =
      Some (Inr (GInt 1), ref_hashdb 12 0)"
    by code_simp+
  have "?step (0, []) (0, ref_hashdb 0 0)"
    by (rule ref_command [OF _ _ 1])
      (simp_all add: ref_cmd_def lua_ops_def expire_ok_def)
  then have "?step\<^sup>*\<^sup>* (0, []) (0, ref_hashdb 0 0)" by (rule r_into_rtranclp [of ?step])
  moreover have "?step (0, ref_hashdb 0 0) (2000000000, ref_hashdb 0 0)"
    by (rule node_step.tick) simp_all
  ultimately have "?step\<^sup>*\<^sup>* (0, []) (2000000000, ref_hashdb 0 0)"
    by (rule rtranclp.rtrancl_into_rtrancl [of ?step])
  moreover have "?step (2000000000, ref_hashdb 0 0) (2000000000, ref_hashdb 12 0)"
    by (rule ref_command [OF _ _ 2])
      (simp_all add: ref_cmd_def lua_ops_def expire_ok_def ref_badger_def ref_hashdb_def typeKey_def userKey_def)
  ultimately have "?step\<^sup>*\<^sup>* (0, []) (2000000000, ref_hashdb 12 0)"
    by (rule rtranclp.rtrancl_into_rtrancl [of ?step])
  moreover have "?step (2000000000, ref_hashdb 12 0) (5000000000, ref_hashdb 12 0)"
    by (rule node_step.tick) simp_all
  ultimately have run: "?step\<^sup>*\<^sup>* (0, []) (5000000000, ref_hashdb 12 0)"
    by (rule rtranclp.rtrancl_into_rtrancl [of ?step])
  have seen: "keyspace (ref_env 7000000000) (map_of (ref_hashdb 12 0)) ''h'' =
      Some (RHash [''f'' \<mapsto> ''v''], 12)"
    by (simp add: keyspace_def seen_type_def ref_hashdb_def live_def exp_passed_def unix_sec_def ref_env_def
        interp_def ref_dec_map_def ref_enc_map_def ref_dec_enc map_put_def)
  have init: "map_of (b_begin ref_badger []) = Map.empty"
    by (simp add: ref_badger_def ref_hashdb_def)
  from values_keep_their_type [OF ref_store init _ run, where tm' = 7000000000 and key = "''h''" and v = "RHash [''f'' \<mapsto> ''v'']" and x = 12] seen
  show ?thesis by (simp add: ref_badger_def)
qed

text \<open>
  C21: \<open>EXPIRE\<close> can take a value's type away. It moves the expiry of the value only, so when the
  type entry has an expiry and the new one is later, the command succeeds, and once the type
  entry has expired the key is a string that holds the encoded bytes of what it was.
\<close>

theorem expire_loses_type:
  assumes "store B contents E" and "dec data = Inr cmd" and "Op cmd = ''EXPIRE''"
    and "live (clock E) (contents (b_begin B d) (userKey (Key cmd))) = Some it"
    and "contents (b_begin B d) (typeKey (Key cmd)) = Some j"
    and "exp_passed tm' (it_exp j)"
    and "\<not> exp_passed tm' (b_ttl B (clock E) (ms_duration (TTLMs cmd)))"
  shows "\<exists>d' w. Apply B E L n dec data d = Some (Inr (GInt 1), d') \<and>
    Type B (E\<lparr>clock := tm'\<rparr>) (Key cmd) (b_begin B d') = Inr ''string'' \<and>
    GetString B (E\<lparr>clock := tm'\<rparr>) (Key cmd) (b_begin B d') = Inr w \<and> slice w = it_val it"
proof -
  have live: "badger_live B contents" using assms(1) by (rule store.axioms(1))
  let ?x = "b_ttl B (clock E) (ms_duration (TTLMs cmd))"
  let ?t = "snd (applyExpire B E cmd (b_begin B d))"
  have get: "b_get B (clock E) (userKey (Key cmd)) (b_begin B d) = Inr it"
    using assms(4) by (rule badger_txn.get_live [OF badger_live.axioms(1) [OF live]])
  have run: "applyExpire B E cmd (b_begin B d) = (Inr (GInt 1), ?t)"
    by (simp add: prod_eq_iff applyExpire_def get Let_def monad_simps badger_live.set_ok [OF live])
  have c: "contents ?t = (contents (b_begin B d))(userKey (Key cmd) \<mapsto> \<lparr>it_val = it_val it, it_exp = ?x\<rparr>)"
    by (simp add: applyExpire_def get Let_def monad_simps badger_live.set_ok [OF live]
        badger_live.set_view [OF live] WithTTL_def NewEntry_def store.slice_copy_or_nil [OF assms(1)])
  obtain d' where d': "db_update B (applyExpire B E cmd) d = (Inr (GInt 1), d')" "contents (b_begin B d') = contents ?t"
    using badger_live.db_update_commits [where f = "applyExpire B E cmd", OF live run] by blast
  have "Op cmd \<notin> lua_ops" and plain: "applyPlain B E cmd = applyExpire B E cmd"
    using assms(3) by (simp_all add: lua_ops_def applyPlain_def)
  then have "Apply B E L n dec data d = Some (Inr (GInt 1), d')"
    using Apply_plain [where dec = dec, OF assms(2), of B E L n d] d'(1) by simp
  moreover have ks: "keyspace (E\<lparr>clock := tm'\<rparr>) (contents (b_begin B d')) (Key cmd) = Some (RStr (it_val it), ?x)"
    using assms(5-7) by (simp add: keyspace_def seen_type_def c d'(2) interp_def)
  note st = store_clock [OF assms(1)]
  from ks have "Type B (E\<lparr>clock := tm'\<rparr>) (Key cmd) (b_begin B d') = Inr ''string''"
    by (simp add: store.Type_spec [OF st] store.view_def [OF st])
  moreover from ks obtain w where "GetString B (E\<lparr>clock := tm'\<rparr>) (Key cmd) (b_begin B d') = Inr w" "slice w = it_val it"
    by (simp add: store.GetString_spec [OF st] store.view_def [OF st] str_at_def store.slice_copy_or_nil [OF st])
  ultimately show ?thesis by blast
qed

text \<open>The hash of before is written once more, which gives its type entry the expiry, and then prolonged.\<close>

theorem expire_loses_type_witness:
  "Apply ref_badger (ref_env 2000000000) ref_lua 0
      (\<lambda>_. Inr (ref_cmd ''HSET'' ''h'' [''f'', ''v''] 0)) [] (ref_hashdb 12 0) =
      Some (Inr (GInt 0), ref_hashdb 12 12) \<and>
   (\<exists>d' w. Apply ref_badger (ref_env 5000000000) ref_lua 0
      (\<lambda>_. Inr (ref_cmd ''EXPIRE'' ''h'' [] 100000)) [] (ref_hashdb 12 12) = Some (Inr (GInt 1), d') \<and>
    Type ref_badger (ref_env 20000000000) ''h'' d' = Inr ''string'' \<and>
    GetString ref_badger (ref_env 20000000000) ''h'' d' = Inr w \<and> slice w = ref_enc_map [(''f'', ''v'')])"
proof
  show "Apply ref_badger (ref_env 2000000000) ref_lua 0
      (\<lambda>_. Inr (ref_cmd ''HSET'' ''h'' [''f'', ''v''] 0)) [] (ref_hashdb 12 0) =
      Some (Inr (GInt 0), ref_hashdb 12 12)"
    by code_simp
  let ?cmd = "ref_cmd ''EXPIRE'' ''h'' [] 100000"
  have "live (clock (ref_env 5000000000)) (map_of (b_begin ref_badger (ref_hashdb 12 12)) (userKey (Key ?cmd))) =
      Some \<lparr>it_val = ref_enc_map [(''f'', ''v'')], it_exp = 12\<rparr>"
    "map_of (b_begin ref_badger (ref_hashdb 12 12)) (typeKey (Key ?cmd)) = Some \<lparr>it_val = ''hash'', it_exp = 12\<rparr>"
    by (simp_all add: ref_cmd_def ref_badger_def ref_hashdb_def live_def exp_passed_def unix_sec_def ref_env_def)
  from expire_loses_type [where dec = "\<lambda>_. Inr ?cmd" and data = "[]" and tm' = 20000000000 and L = ref_lua and n = 0,
      OF ref_store refl _ this]
  show "\<exists>d' w. Apply ref_badger (ref_env 5000000000) ref_lua 0 (\<lambda>_. Inr ?cmd) [] (ref_hashdb 12 12) =
        Some (Inr (GInt 1), d') \<and>
      Type ref_badger (ref_env 20000000000) ''h'' d' = Inr ''string'' \<and>
      GetString ref_badger (ref_env 20000000000) ''h'' d' = Inr w \<and> slice w = ref_enc_map [(''f'', ''v'')]"
    by (simp add: ref_cmd_def exp_passed_def unix_sec_def ref_env_def ref_badger_def ms_duration_def wrap64_def)
qed

end
