(* ===== verification/Replication.thy ===== *)
theory Replication
  imports TypedStore
begin

text \<open>
  Replication over a whole log. Every node of a shard applies the committed entries in the
  order of the log; between two entries time passes and keys expire. Two nodes that start
  with the same key space give the same replies and have the same key space at every later
  time, whatever storage engine, codec and map iteration order each of them has.
\<close>

section \<open>Applying a log\<close>

text \<open>Each entry with the time at which it is applied; the replies in order.\<close>

fun run_log ::
  "('d, 't) badger \<Rightarrow> env \<Rightarrow> ('s, 'n) lua \<Rightarrow> nat \<Rightarrow> (int \<times> Command) list \<Rightarrow> 'd \<Rightarrow> ((err + goval) list \<times> 'd) option" where
  "run_log B E L n [] d = Some ([], d)"
| "run_log B E L n ((tm, cmd) # log) d =
     (case Apply B (E\<lparr>clock := tm\<rparr>) L n (\<lambda>_. Inr cmd) [] d of
        None \<Rightarrow> None
      | Some (r, d') \<Rightarrow> map_option (\<lambda>(rs, d''). (r # rs, d'')) (run_log B E L n log d'))"

text \<open>
  The entries the result is about: no scripts, no \<open>SPOP\<close>, and no \<open>EXPIRE\<close> that outlives the type
  entry of its key when it is applied.
\<close>

fun plain_log ::
  "('d, 't) badger \<Rightarrow> ('t \<Rightarrow> bytes \<Rightarrow> item option) \<Rightarrow> env \<Rightarrow> ('s, 'n) lua \<Rightarrow> nat \<Rightarrow> (int \<times> Command) list \<Rightarrow> 'd \<Rightarrow> bool" where
  "plain_log B contents E L n [] d = True"
| "plain_log B contents E L n ((tm, cmd) # log) d \<longleftrightarrow>
     Op cmd \<notin> lua_ops \<and> Op cmd \<noteq> ''SPOP'' \<and>
     expire_ok B (E\<lparr>clock := tm\<rparr>) cmd (contents (b_begin B d)) \<and>
     (case Apply B (E\<lparr>clock := tm\<rparr>) L n (\<lambda>_. Inr cmd) [] d of
        None \<Rightarrow> False | Some (_, d') \<Rightarrow> plain_log B contents E L n log d')"

text \<open>Times that do not go back, from a given one on, within the range of the clock.\<close>

fun times_from :: "int \<Rightarrow> (int \<times> 'a) list \<Rightarrow> bool" where
  "times_from tm [] = (tm < 2 ^ 63)"
| "times_from tm ((tm', _) # log) = (tm \<le> tm' \<and> times_from tm' log)"

fun end_time :: "int \<Rightarrow> (int \<times> 'a) list \<Rightarrow> int" where
  "end_time tm [] = tm"
| "end_time tm ((tm', _) # log) = end_time tm' log"

lemma times_from_bound: "times_from tm log \<Longrightarrow> tm < 2 ^ 63 \<and> tm \<le> end_time tm log"
  by (induction tm log rule: times_from.induct) auto

section \<open>Two nodes\<close>

text \<open>What a later reader sees is determined by what is seen now.\<close>

lemma keyspace_at_later:
  assumes "typed_db (E\<lparr>clock := tm\<rparr>) c" and "0 \<le> tm" and "tm \<le> tm'" and "tm' < 2 ^ 63"
  shows "keyspace (E\<lparr>clock := tm'\<rparr>) c key =
    (case keyspace (E\<lparr>clock := tm\<rparr>) c key of
       None \<Rightarrow> None | Some (v, x) \<Rightarrow> if exp_passed tm' x then None else Some (v, x))"
proof (cases "keyspace (E\<lparr>clock := tm'\<rparr>) c key")
  case None
  then show ?thesis
    by (auto simp: keyspace_def live_def split: option.splits if_splits)
next
  case (Some r)
  then have "\<not> exp_passed tm' (snd r)"
    by (auto simp: keyspace_def live_def split: option.splits if_splits)
  with Some keyspace_later [OF assms Some] show ?thesis by (cases r) simp
qed

text \<open>The relation between the two nodes: both keep the type invariant, and the key spaces are equal.\<close>

definition same_state ::
  "env \<Rightarrow> env \<Rightarrow> int \<Rightarrow> (bytes \<Rightarrow> item option) \<Rightarrow> (bytes \<Rightarrow> item option) \<Rightarrow> bool" where
  "same_state E1 E2 tm c1 c2 \<longleftrightarrow>
     typed_db (E1\<lparr>clock := tm\<rparr>) c1 \<and> typed_db (E2\<lparr>clock := tm\<rparr>) c2 \<and>
     keyspace (E1\<lparr>clock := tm\<rparr>) c1 = keyspace (E2\<lparr>clock := tm\<rparr>) c2"

lemma same_state_later:
  assumes "same_state E1 E2 tm c1 c2" and "0 \<le> tm" and "tm \<le> tm'" and "tm' < 2 ^ 63"
  shows "same_state E1 E2 tm' c1 c2"
  using assms typed_db_later [OF _ assms(2-4)] keyspace_at_later [OF _ assms(2-4)]
  by (simp add: same_state_def fun_eq_iff)

lemma same_state_step:
  assumes "store B1 contents1 E1" and "store B2 contents2 E2" and "b_ttl B1 = b_ttl B2"
    and "same_state E1 E2 tm (contents1 (b_begin B1 d1)) (contents2 (b_begin B2 d2))"
    and "Op cmd \<notin> lua_ops" and "Op cmd \<noteq> ''SPOP''"
    and "expire_ok B1 (E1\<lparr>clock := tm\<rparr>) cmd (contents1 (b_begin B1 d1))"
    and "expire_ok B2 (E2\<lparr>clock := tm\<rparr>) cmd (contents2 (b_begin B2 d2))"
  obtains r1 d1' r2 d2' where
    "Apply B1 (E1\<lparr>clock := tm\<rparr>) L1 n1 (\<lambda>_. Inr cmd) [] d1 = Some (r1, d1')"
    and "Apply B2 (E2\<lparr>clock := tm\<rparr>) L2 n2 (\<lambda>_. Inr cmd) [] d2 = Some (r2, d2')"
    and "map_sum id norm r1 = map_sum id norm r2"
    and "same_state E1 E2 tm (contents1 (b_begin B1 d1')) (contents2 (b_begin B2 d2'))"
proof -
  note st1 = store_clock [OF assms(1), of tm] and st2 = store_clock [OF assms(2), of tm]
  obtain r1 d1' r2 d2' where
    1: "Apply B1 (E1\<lparr>clock := tm\<rparr>) L1 n1 (\<lambda>_. Inr cmd) [] d1 = Some (r1, d1')"
    and 2: "Apply B2 (E2\<lparr>clock := tm\<rparr>) L2 n2 (\<lambda>_. Inr cmd) [] d2 = Some (r2, d2')"
    and r: "map_sum id norm r1 = map_sum id norm r2"
    and k: "keyspace (E1\<lparr>clock := tm\<rparr>) (contents1 (b_begin B1 d1')) =
      keyspace (E2\<lparr>clock := tm\<rparr>) (contents2 (b_begin B2 d2'))"
    using replicas_agree [OF st1 st2 _ assms(3) _ assms(5,6), of d1 d2 L1 n1 "[]" L2 n2] assms(4)
    by (auto simp: same_state_def)
  have "typed_db (E1\<lparr>clock := tm\<rparr>) (contents1 (b_begin B1 d1'))"
    using assms(4,5,7) by (intro store.Apply_typed [OF st1 _ _ _ 1]) (simp_all add: same_state_def)
  moreover have "typed_db (E2\<lparr>clock := tm\<rparr>) (contents2 (b_begin B2 d2'))"
    using assms(4,5,8) by (intro store.Apply_typed [OF st2 _ _ _ 2]) (simp_all add: same_state_def)
  ultimately show ?thesis using that [OF 1 2 r] k by (simp add: same_state_def)
qed

lemma same_state_run:
  assumes "store B1 contents1 E1" and "store B2 contents2 E2" and "b_ttl B1 = b_ttl B2"
  shows "0 \<le> tm \<Longrightarrow> times_from tm log \<Longrightarrow>
    same_state E1 E2 tm (contents1 (b_begin B1 d1)) (contents2 (b_begin B2 d2)) \<Longrightarrow>
    plain_log B1 contents1 E1 L1 n1 log d1 \<Longrightarrow> plain_log B2 contents2 E2 L2 n2 log d2 \<Longrightarrow>
    \<exists>rs1 d1' rs2 d2'. run_log B1 E1 L1 n1 log d1 = Some (rs1, d1') \<and>
      run_log B2 E2 L2 n2 log d2 = Some (rs2, d2') \<and>
      map (map_sum id norm) rs1 = map (map_sum id norm) rs2 \<and>
      same_state E1 E2 (end_time tm log) (contents1 (b_begin B1 d1')) (contents2 (b_begin B2 d2'))"
proof (induction tm log arbitrary: d1 d2 rule: times_from.induct)
  case (2 tm tm' cmd log)
  then have le: "tm \<le> tm'" "times_from tm' log" and "tm' < 2 ^ 63"
    using times_from_bound [of tm' log] by simp_all
  then have now: "same_state E1 E2 tm' (contents1 (b_begin B1 d1)) (contents2 (b_begin B2 d2))"
    using same_state_later [OF "2.prems"(3,1)] by simp
  from "2.prems"(4,5) have ok: "Op cmd \<notin> lua_ops" "Op cmd \<noteq> ''SPOP''"
    "expire_ok B1 (E1\<lparr>clock := tm'\<rparr>) cmd (contents1 (b_begin B1 d1))"
    "expire_ok B2 (E2\<lparr>clock := tm'\<rparr>) cmd (contents2 (b_begin B2 d2))"
    by simp_all
  obtain r1 e1 r2 e2 where
    1: "Apply B1 (E1\<lparr>clock := tm'\<rparr>) L1 n1 (\<lambda>_. Inr cmd) [] d1 = Some (r1, e1)"
    and 2: "Apply B2 (E2\<lparr>clock := tm'\<rparr>) L2 n2 (\<lambda>_. Inr cmd) [] d2 = Some (r2, e2)"
    and r: "map_sum id norm r1 = map_sum id norm r2"
    and s: "same_state E1 E2 tm' (contents1 (b_begin B1 e1)) (contents2 (b_begin B2 e2))"
    using same_state_step [OF assms now ok] by blast
  from "2.prems"(4,5) 1 2 have "plain_log B1 contents1 E1 L1 n1 log e1" "plain_log B2 contents2 E2 L2 n2 log e2"
    by simp_all
  from "2.IH" [OF _ le(2) s this] "2.prems"(1) le(1) 1 2 r show ?case by (auto simp: id_def)
qed auto

section \<open>Properties\<close>

text \<open>
  C3: replicas stay equal. Two nodes with empty databases apply the same log, each entry at the
  same time on both and the times not going back, with commands other than scripts and \<open>SPOP\<close>
  and no \<open>EXPIRE\<close> that outlives a type entry. Whatever their storage engines, codecs and map
  iteration orders, both apply the whole log, give the same reply to every entry, and have
  the same key space at the end and at every time after.
\<close>

theorem replicas_stay_equal:
  assumes "store B1 contents1 E1" and "store B2 contents2 E2" and "b_ttl B1 = b_ttl B2"
    and "contents1 (b_begin B1 d1) = Map.empty" and "contents2 (b_begin B2 d2) = Map.empty"
    and "0 \<le> tm" and "times_from tm log"
    and "plain_log B1 contents1 E1 L1 n1 log d1" and "plain_log B2 contents2 E2 L2 n2 log d2"
    and "end_time tm log \<le> tm'" and "tm' < 2 ^ 63"
  shows "\<exists>rs1 d1' rs2 d2'. run_log B1 E1 L1 n1 log d1 = Some (rs1, d1') \<and>
    run_log B2 E2 L2 n2 log d2 = Some (rs2, d2') \<and>
    map (map_sum id norm) rs1 = map (map_sum id norm) rs2 \<and>
    keyspace (E1\<lparr>clock := tm'\<rparr>) (contents1 (b_begin B1 d1')) =
      keyspace (E2\<lparr>clock := tm'\<rparr>) (contents2 (b_begin B2 d2'))"
proof -
  have "same_state E1 E2 tm (contents1 (b_begin B1 d1)) (contents2 (b_begin B2 d2))"
    by (simp add: assms(4,5) same_state_def typed_db_def typed_at_def keyspace_def fun_eq_iff)
  from same_state_run [OF assms(1-3,6,7) this assms(8,9)] obtain rs1 d1' rs2 d2' where
    run: "run_log B1 E1 L1 n1 log d1 = Some (rs1, d1')" "run_log B2 E2 L2 n2 log d2 = Some (rs2, d2')"
      "map (map_sum id norm) rs1 = map (map_sum id norm) rs2"
    and s: "same_state E1 E2 (end_time tm log) (contents1 (b_begin B1 d1')) (contents2 (b_begin B2 d2'))"
    by blast
  have "0 \<le> end_time tm log" using times_from_bound [OF assms(7)] assms(6) by simp
  from same_state_later [OF s this assms(10,11)] run show ?thesis by (auto simp: same_state_def)
qed

text \<open>A set with an expiry on two nodes that range over maps in opposite orders.\<close>

definition ref_entries :: "(int \<times> Command) list" where
  "ref_entries =
     [(0, ref_cmd ''SADD'' ''s'' [''a'', ''b''] 0), (1000000000, ref_cmd ''EXPIRE'' ''s'' [] 10000),
      (2000000000, ref_cmd ''SREM'' ''s'' [''a''] 0)]"

definition ref_members :: "bytes list \<Rightarrow> 64 word \<Rightarrow> 64 word \<Rightarrow> refdb" where
  "ref_members ms x y =
     [(userKey ''s'', \<lparr>it_val = ref_enc_list ms, it_exp = x\<rparr>), (typeKey ''s'', \<lparr>it_val = ''set'', it_exp = y\<rparr>)]"

lemma ref_env_rev_clock [simp]: "ref_env_rev a\<lparr>clock := tm\<rparr> = ref_env_rev tm"
  by (simp add: ref_env_rev_def ref_env_def)

lemma ref_applied:
  "Apply ref_badger (ref_env 0) ref_lua 0 (\<lambda>_. Inr (ref_cmd ''SADD'' ''s'' [''a'', ''b''] 0)) [] [] =
     Some (Inr (GInt 2), ref_members [''a'', ''b''] 0 0)"
  "Apply ref_badger (ref_env_rev 0) ref_lua 0 (\<lambda>_. Inr (ref_cmd ''SADD'' ''s'' [''a'', ''b''] 0)) [] [] =
     Some (Inr (GInt 2), ref_members [''b'', ''a''] 0 0)"
  "Apply ref_badger (ref_env 1000000000) ref_lua 0 (\<lambda>_. Inr (ref_cmd ''EXPIRE'' ''s'' [] 10000)) []
     (ref_members [''a'', ''b''] 0 0) = Some (Inr (GInt 1), ref_members [''a'', ''b''] 11 0)"
  "Apply ref_badger (ref_env_rev 1000000000) ref_lua 0 (\<lambda>_. Inr (ref_cmd ''EXPIRE'' ''s'' [] 10000)) []
     (ref_members [''b'', ''a''] 0 0) = Some (Inr (GInt 1), ref_members [''b'', ''a''] 11 0)"
  "Apply ref_badger (ref_env 2000000000) ref_lua 0 (\<lambda>_. Inr (ref_cmd ''SREM'' ''s'' [''a''] 0)) []
     (ref_members [''a'', ''b''] 11 0) = Some (Inr (GInt 1), ref_members [''b''] 11 11)"
  "Apply ref_badger (ref_env_rev 2000000000) ref_lua 0 (\<lambda>_. Inr (ref_cmd ''SREM'' ''s'' [''a''] 0)) []
     (ref_members [''b'', ''a''] 11 0) = Some (Inr (GInt 1), ref_members [''b''] 11 11)"
  by code_simp+

lemma ref_members_type: "map_of (b_begin ref_badger (ref_members ms x y)) (typeKey ''s'') = Some \<lparr>it_val = ''set'', it_exp = y\<rparr>"
  by (simp add: ref_badger_def ref_members_def)

lemma ref_entries_plain:
  "plain_log ref_badger map_of (ref_env 0) ref_lua 0 ref_entries []"
  "plain_log ref_badger map_of (ref_env_rev 0) ref_lua 0 ref_entries []"
proof -
  have op: "Op (ref_cmd opn key args ttl) = opn" "Key (ref_cmd opn key args ttl) = key" for opn key args ttl
    by (simp_all add: ref_cmd_def)
  show "plain_log ref_badger map_of (ref_env 0) ref_lua 0 ref_entries []"
    "plain_log ref_badger map_of (ref_env_rev 0) ref_lua 0 ref_entries []"
    by (simp_all add: ref_entries_def ref_applied op lua_ops_def expire_ok_def ref_members_type)
qed

theorem replicas_stay_equal_witness:
  "\<exists>rs1 d1' rs2 d2'. run_log ref_badger (ref_env 0) ref_lua 0 ref_entries [] = Some (rs1, d1') \<and>
    run_log ref_badger (ref_env_rev 0) ref_lua 0 ref_entries [] = Some (rs2, d2') \<and>
    map (map_sum id norm) rs1 = map (map_sum id norm) rs2 \<and>
    keyspace (ref_env 5000000000) (map_of (b_begin ref_badger d1')) =
      keyspace (ref_env_rev 5000000000) (map_of (b_begin ref_badger d2'))"
proof -
  have "map_of (b_begin ref_badger []) = Map.empty" by (simp add: ref_badger_def)
  moreover have "times_from 0 ref_entries" "end_time 0 ref_entries \<le> 5000000000"
    by (simp_all add: ref_entries_def)
  ultimately show ?thesis
    using replicas_stay_equal [OF ref_store rev_store refl _ _ _ _ ref_entries_plain, of 0 5000000000] by simp
qed

end
