(* ===== verification/ScriptProps.thy ===== *)
theory ScriptProps
  imports Replication
begin

text \<open>
  Properties of scripts: the script store, the conversion of a script's result, and the
  commands a script can issue.
\<close>

section \<open>Lemmas\<close>

text \<open>
  The committed commands that leave a loaded script in place: all but \<open>SCRIPT FLUSH\<close>, the
  scripts (which can call it) and a \<open>SCRIPT LOAD\<close> of another script with the same digest.
\<close>

definition keeps_script :: "bytes \<Rightarrow> Command \<Rightarrow> bool" where
  "keeps_script script cmd \<longleftrightarrow>
     Op cmd \<notin> {''SCRIPT_FLUSH'', ''EVAL'', ''EVALSHA''} \<and>
     (Op cmd = ''SCRIPT_LOAD'' \<longrightarrow> (\<forall>other. Args cmd = [other] \<longrightarrow> sha1 other = sha1 script \<longrightarrow> other = script))"

abbreviation script_item :: "bytes \<Rightarrow> item option" where
  "script_item script \<equiv> Some \<lparr>it_val = script, it_exp = 0\<rparr>"

lemma script_key_not_entry: "getScriptKey sha \<notin> entries_of K"
  by (auto simp: entries_of_def)

lemma hex_digit_inj: "i < 16 \<Longrightarrow> j < 16 \<Longrightarrow> hex_digit i = hex_digit j \<Longrightarrow> i = j"
  unfolding hex_digit_def by (subst (asm) nth_eq_iff_index_eq) (simp_all add: eval_nat_numeral)

lemma hex_inj: "hex a = hex b \<longleftrightarrow> a = b"
proof
  show "hex a = hex b \<Longrightarrow> a = b"
  proof (induction a arbitrary: b)
    case (Cons c a)
    then obtain c' b' where b: "b = c' # b'" by (cases b) (simp_all add: hex_def)
    have "of_char c div 16 < (16 :: nat)" "of_char c' div 16 < (16 :: nat)"
      by (simp_all add: nat_of_char_less_256 less_mult_imp_div_less)
    with Cons.prems b have "of_char c div 16 = (of_char c' div 16 :: nat)" "of_char c mod 16 = (of_char c' mod 16 :: nat)"
      by (auto simp: hex_def intro: hex_digit_inj)
    then have "of_char c = (of_char c' :: nat)" by (metis div_mult_mod_eq)
    moreover have "hex a = hex b'" using Cons.prems b by (simp add: hex_def)
    ultimately show ?case using Cons.IH b by simp
  qed (cases b; simp add: hex_def)
qed simp

lemma store_badger_txn: "store B contents E \<Longrightarrow> badger_txn B contents"
  by (simp add: store_def badger_live_def)

context store
begin

lemma keeps_script_txn:
  assumes "keeps_script script cmd"
  obtains r t' where "applyCmdInTxn B E L (Suc n) cmd t = Some (r, t')"
    and "contents t (getScriptKey (hex (sha1 script))) = script_item script \<Longrightarrow>
      contents t' (getScriptKey (hex (sha1 script))) = script_item script"
proof (cases "Op cmd \<in> lua_ops")
  case True
  show ?thesis
  proof (cases "\<exists>other. Op cmd = ''SCRIPT_LOAD'' \<and> Args cmd = [other]")
    case load: True
    then obtain other where o: "Op cmd = ''SCRIPT_LOAD''" "Args cmd = [other]" by blast
    from script_load [OF this, of "runLua L (luaRedisCall B E L (applyCmdInTxn B E L n))" t]
    obtain t' where "applyCmdInTxn B E L (Suc n) cmd t = Some (Inr (GStr (hex (sha1 other))), t')"
      "contents t' = (contents t)(getScriptKey (hex (sha1 other)) \<mapsto> \<lparr>it_val = other, it_exp = 0\<rparr>)"
      using True by (auto simp: applyCmdInTxn_lua)
    moreover have "sha1 other = sha1 script \<Longrightarrow> other = script" using assms o by (simp add: keeps_script_def)
    ultimately show ?thesis by (intro that [of "Inr (GStr (hex (sha1 other)))" t']) (auto simp: getScriptKey_def hex_inj)
  next
    case False
    with assms True have "\<exists>r. applyCmdInTxn B E L (Suc n) cmd t = Some (r, t)"
      by (auto simp: applyCmdInTxn_lua lua_ops_def keeps_script_def handleLuaCommand_def length_Suc_conv)
    then show ?thesis using that by blast
  qed
next
  case False
  obtain r t' where a: "applyPlain B E cmd t = (r, t')" by fastforce
  then have "contents t' (getScriptKey sha) = contents t (getScriptKey sha)" for sha
    using frameD [OF frame_applyPlain script_key_not_entry, where t = t] by (metis snd_conv)
  with False a show ?thesis by (intro that [of r t']) (simp_all add: applyCmdInTxn_plain)
qed

lemma keeps_script_Apply:
  assumes "keeps_script script cmd"
    and "contents (b_begin B d) (getScriptKey (hex (sha1 script))) = script_item script"
  obtains r d' where "Apply B E L (Suc n) (\<lambda>_. Inr cmd) [] d = Some (r, d')"
    and "contents (b_begin B d') (getScriptKey (hex (sha1 script))) = script_item script"
proof -
  obtain r t' where t': "applyCmdInTxn B E L (Suc n) cmd (b_begin B d) = Some (r, t')"
    "contents t' (getScriptKey (hex (sha1 script))) = script_item script"
    using keeps_script_txn [OF assms(1)] assms(2) by metis
  obtain r' d' where u: "db_update B (\<lambda>_. (r, t')) d = (r', d')" by fastforce
  then have "contents (b_begin B d') (getScriptKey (hex (sha1 script))) = script_item script"
    by (elim db_update_cases) (use t'(2) assms(2) in auto)
  with t'(1) u show ?thesis by (intro that) (simp_all add: Apply_def)
qed

end

lemma keeps_script_log:
  assumes "store B contents E" and "\<forall>(tm, cmd) \<in> set log. keeps_script script cmd"
    and "contents (b_begin B d) (getScriptKey (hex (sha1 script))) = script_item script"
  obtains rs d' where "run_log B E L (Suc n) log d = Some (rs, d')"
    and "contents (b_begin B d') (getScriptKey (hex (sha1 script))) = script_item script"
proof -
  have "\<exists>rs d'. run_log B E L (Suc n) log d = Some (rs, d') \<and>
    contents (b_begin B d') (getScriptKey (hex (sha1 script))) = script_item script"
    using assms(2,3)
  proof (induction log arbitrary: d)
    case (Cons e log)
    obtain tm cmd where e: "e = (tm, cmd)" by fastforce
    with Cons.prems have "keeps_script script cmd" by simp
    from store.keeps_script_Apply [OF store_clock [OF assms(1)] this Cons.prems(2)]
    obtain r d1 where "Apply B (E\<lparr>clock := tm\<rparr>) L (Suc n) (\<lambda>_. Inr cmd) [] d = Some (r, d1)"
      "contents (b_begin B d1) (getScriptKey (hex (sha1 script))) = script_item script"
      by blast
    with Cons.IH [of d1] Cons.prems(1) e show ?case by auto
  qed simp
  then show ?thesis using that by blast
qed

section \<open>Properties\<close>

text \<open>
  C22: the entry \<open>SCRIPT LOAD\<close> is answered with the 40 hexadecimal digits of the SHA-1 digest of the
  script. Then let any committed commands follow, at any times, other than \<open>SCRIPT FLUSH\<close>, \<open>EVAL\<close>
  and \<open>EVALSHA\<close> (a script can call \<open>SCRIPT FLUSH\<close>) and other than a \<open>SCRIPT LOAD\<close> of a
  different script with the same digest; \<open>FLUSHDB\<close> and \<open>SCRIPT LOAD\<close> of other scripts are
  among them. All of them are applied, and after them the entry \<open>EVALSHA\<close> with these digits
  does exactly what the entry \<open>EVAL\<close> with the script does, on the reply and on the database.
\<close>

theorem evalsha_runs_loaded_script:
  assumes "store B contents E" and "\<forall>(tm, cmd) \<in> set log. keeps_script script cmd"
  shows "\<exists>d1 rs d2.
    Apply B (E\<lparr>clock := tm\<rparr>) L (Suc n) (\<lambda>_. Inr (newCommand ''SCRIPT_LOAD'' [] [script])) [] d =
      Some (Inr (GStr (hex (sha1 script))), d1) \<and>
    length (hex (sha1 script)) = 40 \<and>
    run_log B E L (Suc n) log d1 = Some (rs, d2) \<and>
    Apply B (E\<lparr>clock := tm'\<rparr>) L (Suc n) (\<lambda>_. Inr (newCommand ''EVALSHA'' k (hex (sha1 script) # a # args))) [] d2 =
    Apply B (E\<lparr>clock := tm'\<rparr>) L (Suc n) (\<lambda>_. Inr (newCommand ''EVAL'' k (script # a # args))) [] d2"
proof -
  let ?sha = "hex (sha1 script)"
  have ops: "''SCRIPT_LOAD'' \<in> lua_ops" "''EVALSHA'' \<in> lua_ops" "''EVAL'' \<in> lua_ops"
    by (simp_all add: lua_ops_def)
  note st = store_clock [OF assms(1)]
  obtain t1 where t1: "applyCmdInTxn B (E\<lparr>clock := tm\<rparr>) L (Suc n) (newCommand ''SCRIPT_LOAD'' [] [script]) (b_begin B d) =
      Some (Inr (GStr ?sha), t1)" "contents t1 (getScriptKey ?sha) = script_item script"
    using store.script_load [OF st, of "newCommand ''SCRIPT_LOAD'' [] [script]" script]
    by (fastforce simp: applyCmdInTxn_lua ops)
  obtain d1 where d1: "Apply B (E\<lparr>clock := tm\<rparr>) L (Suc n) (\<lambda>_. Inr (newCommand ''SCRIPT_LOAD'' [] [script])) [] d =
      Some (Inr (GStr ?sha), d1)" "contents (b_begin B d1) (getScriptKey ?sha) = script_item script"
    using t1 badger_live.db_update_commits [of B contents "\<lambda>_. (Inr (GStr ?sha), t1)" d] assms(1)
    by (fastforce simp: Apply_def store_def)
  obtain rs d2 where d2: "run_log B E L (Suc n) log d1 = Some (rs, d2)"
    "contents (b_begin B d2) (getScriptKey ?sha) = script_item script"
    using keeps_script_log [OF assms d1(2)] .
  have run: "applyCmdInTxn B (E\<lparr>clock := tm'\<rparr>) L (Suc n) (newCommand ''EVALSHA'' k (?sha # a # args)) (b_begin B d2) =
      applyCmdInTxn B (E\<lparr>clock := tm'\<rparr>) L (Suc n) (newCommand ''EVAL'' k (script # a # args)) (b_begin B d2)"
    using store.evalsha_runs [OF st d2(2), where cmd = "newCommand ''EVALSHA'' k (?sha # a # args)"]
    by (simp add: applyCmdInTxn_lua ops handleLuaCommand_def [where cmd = "newCommand ''EVAL'' k (script # a # args)"])
  have "Apply B (E\<lparr>clock := tm'\<rparr>) L (Suc n) (\<lambda>_. Inr (newCommand ''EVALSHA'' k (?sha # a # args))) [] d2 =
      Apply B (E\<lparr>clock := tm'\<rparr>) L (Suc n) (\<lambda>_. Inr (newCommand ''EVAL'' k (script # a # args))) [] d2"
    by (simp add: Apply_def run)
  moreover have "length ?sha = 40" by (simp add: length_sha1)
  ultimately show ?thesis using d1(1) d2(1) by blast
qed

theorem evalsha_runs_loaded_script_witness:
  "\<exists>d1 rs d2.
    Apply ref_badger (ref_env 0\<lparr>clock := 0\<rparr>) ref_lua (Suc 0) (\<lambda>_. Inr (newCommand ''SCRIPT_LOAD'' [] [''return 1''])) [] [] =
      Some (Inr (GStr ''e0e1f9fabfc9d4800c877a703b823ac0578ff8db''), d1) \<and>
    run_log ref_badger (ref_env 0) ref_lua (Suc 0) [(1, newCommand ''FLUSHDB'' [] [])] d1 = Some (rs, d2) \<and>
    Apply ref_badger (ref_env 0\<lparr>clock := 2\<rparr>) ref_lua (Suc 0)
      (\<lambda>_. Inr (newCommand ''EVALSHA'' [] [''e0e1f9fabfc9d4800c877a703b823ac0578ff8db'', ''0''])) [] d2 =
    Apply ref_badger (ref_env 0\<lparr>clock := 2\<rparr>) ref_lua (Suc 0)
      (\<lambda>_. Inr (newCommand ''EVAL'' [] [''return 1'', ''0''])) [] d2"
proof -
  have "\<forall>(tm, cmd) \<in> set [(1 :: int, newCommand ''FLUSHDB'' [] [])]. keeps_script ''return 1'' cmd"
    by (simp add: keeps_script_def)
  from evalsha_runs_loaded_script [OF ref_store this, of 0 0 ref_lua 0 "[]" 2 "[]" "''0''" "[]", unfolded sha1_return_1]
  show ?thesis by blast
qed

text \<open>
  C23: the conversion of a script's result returns for every value whose tables are nested
  without a cycle, with one Go value; for a table that contains itself it never returns (the
  Go code recurs until its stack is exhausted, which ends the process).
\<close>

theorem luaToGoValue_returns_unless_cyclic:
  fixes h :: "'n lheap"
  shows "(ranked h rank \<longrightarrow> luaToGoValue L h v \<noteq> None) \<and>
    (LTable r \<in> set (h r) \<longrightarrow> luaToGoValue L h (LTable r) = None)"
proof (intro conjI impI)
  assume "ranked h rank"
  from luaToGoValues_ranked [OF this, of "[v]" "lrank rank v"]
  show "luaToGoValue L h v \<noteq> None" by (auto simp: luaToGoValue_def)
next
  assume "LTable r \<in> set (h r)"
  from luaToGoValues_cyclic [of r h "[LTable r]", OF this]
  show "luaToGoValue L h (LTable r) = None" by (simp add: luaToGoValue_def)
qed

theorem luaToGoValue_returns_unless_cyclic_witness:
  "luaToGoValue ref_lua (\<lambda>_. [LString ''a'', LTable 0]) (LTable 0) = None \<and>
   luaToGoValue ref_lua (\<lambda>r. if r = 0 then [] else [LNumber 1, LTable (r - 1)]) (LTable 2) \<noteq> None"
proof -
  have "ranked (\<lambda>r. if r = 0 then [] else [LNumber (1 :: int), LTable (r - 1)]) (\<lambda>r. r)"
    by (auto simp: ranked_def)
  with luaToGoValue_returns_unless_cyclic [of "\<lambda>_. [LString ''a'', LTable 0]" id ref_lua "LTable 0" 0]
    luaToGoValue_returns_unless_cyclic [of "\<lambda>r. if r = 0 then [] else [LNumber (1 :: int), LTable (r - 1)]"
      "\<lambda>r. r" ref_lua "LTable 2" 0]
  show ?thesis by simp
qed

end
