(* ===== verification/ReadProps.thy ===== *)
theory ReadProps
  imports FsmProps
begin

text \<open>
  Properties of the read methods of \<open>store/fsm.go\<close>: each one reports the key space, and
  nothing but the key space.
\<close>

section \<open>Lemmas: time\<close>

lemma sint_small:
  fixes x :: "64 word"
  assumes "uint x \<le> 9223372036"
  shows "sint x = uint x"
proof -
  have "0 \<le> uint x" by simp
  moreover have "(2 :: int) ^ 63 = 9223372036854775808" by simp
  ultimately have "signed_take_bit 63 (uint x) = uint x"
    by (intro signed_take_bit_int_eq_self) (use assms in linarith)+
  then show ?thesis by (simp add: sint_uint)
qed

text \<open>The clock is after the epoch and before the last second a duration in nanoseconds can reach.\<close>

definition sane_clock :: "env \<Rightarrow> bool" where
  "sane_clock E \<longleftrightarrow> 0 \<le> clock E \<and> clock E < 9223372036000000000"

text \<open>A live expiry lies after the current second, so the remaining time is positive.\<close>

lemma live_expiry:
  assumes "sane_clock E" and "x \<noteq> 0" and "\<not> exp_passed (clock E) x"
  shows "clock E < uint x * 1000000000"
proof -
  let ?s = "clock E div 1000000000"
  have s: "0 \<le> ?s" "?s < 18446744073709551616" using assms(1) unfolding sane_clock_def by linarith+
  have "uint (word_of_int ?s :: 64 word) = ?s" using s by (simp add: uint_word_of_int)
  moreover have "word_of_int ?s < x" using assms(2,3) by (simp add: exp_passed_def unix_sec_def)
  ultimately have "?s < uint x" by (simp add: word_less_def)
  then have "?s + 1 \<le> uint x" by simp
  then show ?thesis by linarith
qed

lemma time_until_eq:
  assumes "sane_clock E" and "uint x \<le> 9223372036"
  shows "time_until E x = uint x * 1000000000 - clock E"
proof -
  have "0 \<le> uint x" by simp
  then have "in_int64 (uint x * 1000000000 - clock E)"
    using assms unfolding in_int64_def sane_clock_def by linarith
  then show ?thesis by (simp add: time_until_def sint_small [OF assms(2)] sat64_id)
qed

text \<open>
  \<open>MGET\<close> never fails: an absent key gives nil, a string its bytes; what a key of another
  type gives is not a matter of the key space.
\<close>

definition mget_result :: "keyspace \<Rightarrow> bytes \<Rightarrow> bytes option \<Rightarrow> bool" where
  "mget_result m key w =
     (case str_at m key of
        Inl _ \<Rightarrow> True
      | Inr None \<Rightarrow> w = None
      | Inr (Some (v, _)) \<Rightarrow> slice w = v)"

context store
begin

lemma view_live: "view t key = Some (v, x) \<Longrightarrow> \<not> exp_passed (clock E) x"
  by (auto simp: view_def keyspace_def dest!: live_SomeD split: option.splits)

text \<open>
  The seconds and milliseconds left; -1 without an expiry, -2 without a key. The seconds are what
  \<open>float64\<close> makes of them, the milliseconds are rounded down.
\<close>

lemma TTL_PTTL_spec:
  assumes "sane_clock E" and "\<And>v x. view t key = Some (v, x) \<Longrightarrow> uint x \<le> 9223372036"
  defines "left conv \<equiv> (case view t key of
      None \<Rightarrow> - 2
    | Some (_, x) \<Rightarrow> if x = 0 then - 1 else conv (uint x * 1000000000 - clock E))"
  shows "TTL B E key t = Inr (left seconds)" and "PTTL B E key t = Inr (left (\<lambda>d. d div 1000000))"
proof -
  have "TTL B E key t = Inr (left seconds) \<and> PTTL B E key t = Inr (left (\<lambda>d. d div 1000000))"
  proof (cases "view t key")
    case None
    then show ?thesis by (simp add: TTL_def PTTL_def get_user_None left_def)
  next
    case (Some p)
    obtain v x where p: "p = (v, x)" by fastforce
    from Some p obtain it where it: "b_get B (clock E) (userKey key) t = Inr it" "it_exp it = x"
      by (auto elim: get_user_Some)
    show ?thesis
    proof (cases "x = 0")
      case True
      with Some p it show ?thesis by (simp add: TTL_def PTTL_def left_def)
    next
      case False
      let ?d = "uint x * 1000000000 - clock E"
      have "0 < ?d" using live_expiry [OF assms(1) False view_live] Some p by simp
      then have "time_until E x = ?d" "whole_seconds ?d = seconds ?d" "tdiv ?d 1000000 = ?d div 1000000"
        "0 \<le> ?d div 1000000000" "0 \<le> ?d div 1000000"
        using time_until_eq [OF assms(1,2)] Some p
        by (simp_all add: whole_seconds_def tdiv_pos pos_imp_zdiv_nonneg_iff)
      moreover have "0 \<le> seconds ?d"
        using seconds_bounds(1) [of ?d] \<open>0 < ?d\<close> \<open>0 \<le> ?d div 1000000000\<close> by linarith
      ultimately show ?thesis using Some p it False
        by (simp add: TTL_def PTTL_def left_def milliseconds_def Let_def)
    qed
  qed
  then show "TTL B E key t = Inr (left seconds)" and "PTTL B E key t = Inr (left (\<lambda>d. d div 1000000))"
    by simp_all
qed

lemma StrLen_spec:
  "StrLen B E key t =
     (case str_at (view t) key of
        Inl e \<Rightarrow> Inl e
      | Inr None \<Rightarrow> Inr 0
      | Inr (Some (v, _)) \<Rightarrow> Inr (int (length v)))"
proof -
  have "(case w of None \<Rightarrow> Inr 0 | Some b \<Rightarrow> Inr (int (length b))) = (Inr (int (length (slice w))) :: err + int)"
    for w by (cases w) simp_all
  then show ?thesis
    by (simp add: StrLen_def GetString_spec split: sum.split option.split_asm) (simp split: option.split)
qed

lemma GetStrings_spec: "\<exists>vs. GetStrings B E keys t = Inr vs \<and> list_all2 (mget_result (view t)) keys vs"
proof (induction keys)
  case (Cons key keys)
  then obtain vs where vs: "GetStrings B E keys t = Inr vs" "list_all2 (mget_result (view t)) keys vs" by blast
  show ?case
  proof (cases rule: user_cases [of t key])
    case absent
    then have "mget_result (view t) key None" by (simp add: mget_result_def str_at_def)
    with absent vs show ?thesis by simp
  next
    case (present v it)
    obtain b where b: "b_copy B it = Inr b" using copy_ok by blast
    with copy_value have "slice b = it_val it" by blast
    then have "mget_result (view t) key b"
      using str_at_present [OF present(1,3)] by (auto simp: mget_result_def split: if_splits)
    with present vs b show ?thesis by simp
  qed
qed simp

end

section \<open>Properties\<close>

text \<open>
  C25: the reads of strings and keys report the key space. \<open>GET\<close> returns the string, nil for
  an absent key and \<open>WRONGTYPE\<close> for a value of another type; \<open>MGET\<close> the strings and nils in the
  order of the keys; \<open>EXISTS\<close> counts the keys present, repeated ones again; \<open>TYPE\<close> names the
  type; \<open>STRLEN\<close> is the length of the string.
\<close>

theorem string_reads:
  assumes "store B contents E"
  shows "let m = keyspace E (contents t) in
    (case str_at m key of
        Inl e \<Rightarrow> GetString B E key t = Inl e
      | Inr None \<Rightarrow> GetString B E key t = Inr None
      | Inr (Some (v, _)) \<Rightarrow> \<exists>w. GetString B E key t = Inr w \<and> slice w = v) \<and>
    (\<exists>vs. GetStrings B E keys t = Inr vs \<and> list_all2 (mget_result m) keys vs) \<and>
    Exists B E keys t = Inr (int (length (filter (\<lambda>k. k \<in> dom m) keys))) \<and>
    Type B E key t = Inr (case m key of None \<Rightarrow> ''none'' | Some (v, _) \<Rightarrow> rtype v) \<and>
    StrLen B E key t =
      (case str_at m key of
         Inl e \<Rightarrow> Inl e | Inr None \<Rightarrow> Inr 0 | Inr (Some (v, _)) \<Rightarrow> Inr (int (length v)))"
proof -
  note view = store.view_def [OF assms, symmetric]
  have "slice (copy_or_nil B \<lparr>it_val = v, it_exp = x\<rparr>) = v" for v x
    using store.slice_copy_or_nil [OF assms] by simp
  then show ?thesis
    using store.GetStrings_spec [OF assms, of keys t]
    by (simp add: Let_def view store.GetString_spec [OF assms] store.StrLen_spec [OF assms]
        store.Type_spec [OF assms] Exists_def store.exists_loop_spec [OF assms] dom_def
        split: sum.split option.split)
qed

lemma ref_setdb_view: "keyspace (ref_env 0) (map_of ref_setdb) ''s'' = Some (RSet {''a'', ''b''}, 0)"
  by (simp add: keyspace_def ref_setdb_def stored_item_def seen_type_def interp_def ref_env_def ref_dec_enc)

theorem string_reads_witness:
  "Type ref_badger (ref_env 0) ''s'' ref_setdb = Inr ''set'' \<and>
   GetString ref_badger (ref_env 0) ''s'' ref_setdb = Inl ErrWrongType \<and>
   Exists ref_badger (ref_env 0) [''s'', ''s''] ref_setdb = Inr 2"
  using string_reads [OF ref_store [of 0], of ref_setdb "''s''" "[''s'', ''s'']"]
  by (simp add: Let_def ref_setdb_view str_at_def dom_def)

text \<open>
  C26: \<open>KEYS\<close> with a well-formed pattern returns exactly the keys of the key space that the
  pattern denotes, each once and in byte order.
\<close>

theorem Keys_exact:
  assumes "store B contents E" and "TBad \<notin> set (tokens pattern)"
  shows "\<exists>ks. Keys B E pattern t = Inr ks \<and> sorted ks \<and> distinct ks \<and>
    set ks = {k \<in> dom (keyspace E (contents t)). k \<in> lang (tokens pattern)}"
proof -
  let ?us = "scan_prefix [prefixUser] (b_keys B (clock E) t)"
  note us = store.user_keys_of_scan [OF assms(1), of t]
  let ?ks = "filter (\<lambda>k. k \<in> lang (tokens pattern)) (map tl ?us)"
  have "Keys B E pattern t = Inr ?ks"
    by (simp only: Keys_def store.keys_loop_spec [OF assms])
  moreover have "sorted ?ks" using us(2) by (rule sorted_wrt_filter)
  moreover have "distinct ?ks" using us(3) by (rule distinct_filter)
  moreover have "set ?ks = {k \<in> dom (keyspace E (contents t)). k \<in> lang (tokens pattern)}"
    unfolding set_filter us(1) store.view_def [OF assms(1)] by (rule refl)
  ultimately show ?thesis by blast
qed

theorem Keys_exact_witness:
  "\<exists>ks. Keys ref_badger (ref_env 0) ''s*'' ref_setdb = Inr ks \<and>
    set ks = {k \<in> dom (keyspace (ref_env 0) (map_of ref_setdb)). k \<in> lang (tokens ''s*'')}"
proof -
  have "TBad \<notin> set (tokens ''s*'')" by code_simp
  from Keys_exact [OF ref_store this, of 0 ref_setdb] show ?thesis by blast
qed

text \<open>
  C27: \<open>TTL\<close> and \<open>PTTL\<close> return -2 for an absent key, -1 for a key without expiry. Otherwise \<open>PTTL\<close>
  returns the whole milliseconds from the clock to the expiry, and \<open>TTL\<close> the whole seconds when
  there are fewer than $2^{24}$ of them; from there on the rounding of \<open>float64\<close> can make it one
  second more, and never anything else.
\<close>

theorem TTL_reports_remaining_time:
  assumes "store B contents E" and "sane_clock E"
    and "\<And>v x. keyspace E (contents t) key = Some (v, x) \<Longrightarrow> uint x \<le> 9223372036"
  shows "case keyspace E (contents t) key of
      None \<Rightarrow> TTL B E key t = Inr (- 2) \<and> PTTL B E key t = Inr (- 2)
    | Some (v, x) \<Rightarrow>
        if x = 0 then TTL B E key t = Inr (- 1) \<and> PTTL B E key t = Inr (- 1)
        else (let left = uint x * 1000000000 - clock E; secs = left div 1000000000 in
              0 < left \<and> PTTL B E key t = Inr (left div 1000000) \<and>
              (TTL B E key t = Inr secs \<or> 2 ^ 24 \<le> secs \<and> TTL B E key t = Inr (secs + 1)))"
proof -
  note view = store.view_def [OF assms(1)]
  have "0 < uint x * 1000000000 - clock E" if "keyspace E (contents t) key = Some (v, x)" "x \<noteq> 0" for v x
    using live_expiry [OF assms(2) that(2)] store.view_live [OF assms(1), of t key v x] that(1)
    by (simp add: view)
  moreover have "seconds d = d div 1000000000 \<or> 2 ^ 24 \<le> d div 1000000000 \<and> seconds d = d div 1000000000 + 1"
    if "0 < d" for d
    using that seconds_bounds [of d] seconds_exact [of d] by linarith
  ultimately show ?thesis
    using store.TTL_PTTL_spec [OF assms(1,2), of t key] assms(3)
    by (auto simp: view Let_def split: option.split)
qed

definition ref_ttldb :: refdb where
  "ref_ttldb = [(userKey ''k'', \<lparr>it_val = ''5'', it_exp = 160\<rparr>), (typeKey ''k'', \<lparr>it_val = ''string'', it_exp = 160\<rparr>)]"

lemma ref_ttldb_view: "keyspace (ref_env 100500000000) (map_of ref_ttldb) ''k'' = Some (RStr ''5'', 160)"
  by (simp add: keyspace_def ref_ttldb_def seen_type_def interp_def live_def exp_passed_def unix_sec_def ref_env_def)

theorem TTL_reports_remaining_time_witness:
  "TTL ref_badger (ref_env 100500000000) ''k'' ref_ttldb = Inr 59 \<and>
   PTTL ref_badger (ref_env 100500000000) ''k'' ref_ttldb = Inr 59500"
  using TTL_reports_remaining_time [OF ref_store [of 100500000000], of ref_ttldb "''k''"]
  by (simp add: ref_ttldb_view sane_clock_def, simp add: ref_env_def Let_def)

text \<open>The first whole second that is rounded up: $2^{24}$ seconds and 999999999 nanoseconds.\<close>

lemma seconds_round_up: "seconds 16777216999999999 = 16777217" "seconds 16777215999999999 = 16777215"
  by code_simp+

text \<open>
  C28: the reads of a hash report the map stored at the key. \<open>HGET\<close> and \<open>HMGET\<close> look fields up,
  \<open>HEXISTS\<close> tells whether a field is there, \<open>HLEN\<close> counts the fields; \<open>HKEYS\<close> lists every field
  once, and \<open>HVALS\<close> the value of every field once, each in an order of its own.
\<close>

theorem hash_reads:
  assumes "store B contents E" and "hash_at (keyspace E (contents t)) key = Inr (Some (h, x))"
  shows "HGet B E key field t = Inr (h field) \<and>
    HMGet B E key fs t = Inr (map h fs) \<and>
    HExists B E key field t = Inr (if field \<in> dom h then 1 else 0) \<and>
    HLen B E key t = Inr (int (card (dom h))) \<and>
    (\<exists>ks. HKeys B E key t = Inr ks \<and> distinct ks \<and> set ks = dom h) \<and>
    (\<exists>ks. HVals B E key t = Inr (map (\<lambda>k. the (h k)) ks) \<and> distinct ks \<and> set ks = dom h)"
proof -
  have at: "hash_at (store.view contents E t) key = Inr (Some (h, x))"
    using assms by (simp add: store.view_def)
  obtain ks where "HKeys B E key t = Inr ks" "distinct ks" "set ks = dom h"
    "HVals B E key t = Inr (map (\<lambda>k. the (h k)) ks)"
    by (rule store.HKeys_spec [OF assms(1) at])
  then show ?thesis
    by (auto simp: store.HGet_spec [OF assms(1)] store.HMGet_spec [OF assms(1)]
        store.HExists_spec [OF assms(1)] store.HLen_spec [OF assms(1)] at)
qed

definition ref_hashdb :: refdb where
  "ref_hashdb = [(userKey ''h'', stored_item (ref_enc_map [(''f'', ''1''), (''g'', ''2'')])), (typeKey ''h'', stored_item ''hash'')]"

theorem hash_reads_witness:
  "HGet ref_badger (ref_env 0) ''h'' ''g'' ref_hashdb = Inr (Some ''2'') \<and>
   HMGet ref_badger (ref_env 0) ''h'' [''f'', ''x''] ref_hashdb = Inr [Some ''1'', None]"
proof -
  have "hash_at (keyspace (ref_env 0) (map_of ref_hashdb)) ''h'' =
      Inr (Some ([''f'' \<mapsto> ''1'', ''g'' \<mapsto> ''2''], 0))"
  proof -
    have "mp_dec_map (ref_env 0) (ref_enc_map [(''f'', ''1''), (''g'', ''2'')]) = Inr [(''g'', ''2''), (''f'', ''1'')]"
      by code_simp
    then show ?thesis
      by (simp add: coll_at_def keyspace_def ref_hashdb_def stored_item_def seen_type_def interp_def)
  qed
  from hash_reads [OF ref_store this, of "''g''" "[''f'', ''x'']"] show ?thesis by simp
qed

text \<open>
  C29: the reads of a list report the list stored at the key. \<open>LRANGE\<close> returns the elements
  whose index is between the two bounds, a negative bound counting from the end and a bound
  outside the list cutting nothing off; \<open>LINDEX\<close> the element at an index or nil; \<open>LLEN\<close> the length.
\<close>

theorem list_reads:
  assumes "store B contents E" and "list_at (keyspace E (contents t)) key = Inr (Some (xs, x))"
  shows "LRange B E key start stop t =
      Inr (nths xs {i. index_of xs start \<le> int i \<and> int i \<le> index_of xs stop}) \<and>
    LIndex B E key i t =
      Inr (if index_of xs i \<in> {0..<int (length xs)} then Some (xs ! nat (index_of xs i)) else None) \<and>
    LLen B E key t = Inr (int (length xs))"
proof -
  have at: "list_at (store.view contents E t) key = Inr (Some (xs, x))"
    using assms by (simp add: store.view_def)
  show ?thesis
    by (simp add: store.LRange_spec [OF assms(1)] store.LIndex_spec [OF assms(1)]
        store.LLen_spec [OF assms(1)] at between_def)
qed

definition ref_listdb :: refdb where
  "ref_listdb = [(userKey ''l'', stored_item (ref_enc_list [''a'', ''b'', ''c''])), (typeKey ''l'', stored_item ''list'')]"

lemma ref_listdb_view: "list_at (keyspace (ref_env 0) (map_of ref_listdb)) ''l'' = Inr (Some ([''a'', ''b'', ''c''], 0))"
  by (simp add: coll_at_def keyspace_def ref_listdb_def stored_item_def seen_type_def interp_def ref_env_def ref_dec_enc)

theorem list_reads_witness:
  "LIndex ref_badger (ref_env 0) ''l'' (- 1) ref_listdb = Inr (Some ''c'') \<and>
   LLen ref_badger (ref_env 0) ''l'' ref_listdb = Inr 3"
  using list_reads [OF ref_store ref_listdb_view, of 0 "- 1" "- 1"] by (simp add: index_of_def)

text \<open>
  C30: the reads of a set report the set stored at the key: \<open>SISMEMBER\<close> decides membership,
  \<open>SMEMBERS\<close> lists the members, \<open>SCARD\<close> is the length of that list, and \<open>SRANDMEMBER\<close> with a
  count of at least $-2^{44}$ returns members only, that many if the count is negative and
  otherwise at most so many.
\<close>

theorem set_reads:
  assumes "store B contents E" and "set_at (keyspace E (contents t)) key = Inr (Some (s, x))"
    and "in_int64 c" and "- 17592186044416 \<le> c" and "s \<noteq> {}"
  shows "SIsMember B E key member t = Inr (if member \<in> s then 1 else 0) \<and>
    (\<exists>ms. SMembers B E key t = Inr ms \<and> set ms = s \<and> SCard B E key t = Inr (int (length ms)) \<and>
      (\<exists>rs. SRandMember B E key (Some c) t = Inr rs \<and> set rs \<subseteq> s \<and>
        length rs = (if c < 0 then nat (- c) else min (nat c) (length ms))))"
proof -
  have at: "set_at (store.view contents E t) key = Inr (Some (s, x))"
    using assms by (simp add: store.view_def)
  obtain ms where ms: "SMembers B E key t = Inr ms" "set ms = s"
    using at by (auto intro: store.SMembers_spec [OF assms(1), of t key])
  have ne: "ms \<noteq> []" using ms(2) assms(5) by auto
  have neg: "wrap64 (- c) = - c"
    using assms(3,4) by (intro wrap64_id) (auto simp: in_int64_def)
  have "\<exists>rs. SRandMember B E key (Some c) t = Inr rs \<and> set rs \<subseteq> s \<and>
      length rs = (if c < 0 then nat (- c) else min (nat c) (length ms))"
  proof (cases "c < 0")
    case True
    then have "\<not> slice_too_long 16 (- c)" using assms(4) by (simp add: slice_too_long_def)
    with True ne ms show ?thesis by (auto simp: SRandMember_def neg)
  next
    case False
    then show ?thesis using ms by (auto simp: SRandMember_def dest: in_set_takeD)
  qed
  with ms at show ?thesis by (auto simp: store.SIsMember_spec [OF assms(1)] SCard_def)
qed

theorem set_reads_witness:
  "SIsMember ref_badger (ref_env 0) ''s'' ''b'' ref_setdb = Inr 1 \<and>
   (\<exists>rs. SRandMember ref_badger (ref_env 0) ''s'' (Some (- 5)) ref_setdb = Inr rs \<and> length rs = 5)"
proof -
  have "set_at (keyspace (ref_env 0) (map_of ref_setdb)) ''s'' = Inr (Some ({''a'', ''b''}, 0))"
    by (simp add: coll_at_def ref_setdb_view)
  from set_reads [OF ref_store this, of "- 5" "''b''"] show ?thesis by (auto simp: in_int64_def)
qed

end
