(* ===== verification/ExpiryProps.thy ===== *)
theory ExpiryProps
  imports ReadProps
begin

text \<open>
  What happens to the time to live of a key: the commands that keep it (\<open>INCR\<close>, \<open>APPEND\<close>,
  and every command on a collection) read the remaining milliseconds and store the value
  with a new expiry, which Badger rounds down to a second; \<open>EXPIRE\<close> gives a new expiry to the
  value but not to its type.
\<close>

section \<open>Lemmas\<close>

text \<open>Badger's documented \<open>WithTTL\<close>: the second in which the duration from now ends.\<close>

definition second_ttl :: "('d, 't) badger \<Rightarrow> bool" where
  "second_ttl B \<longleftrightarrow> (\<forall>tm dur. b_ttl B tm dur = word_of_int (unix_sec (tm + dur)))"

definition kept_seconds :: "int \<Rightarrow> int \<Rightarrow> int" where
  "kept_seconds c u =
     (let ms = (u * 1000000000 - c) div 1000000
      in (c + (if ms < 1 then 1 else ms) * 1000000) div 1000000000)"

lemma kept_seconds_cases:
  assumes "c < u * 1000000000"
  shows "kept_seconds c u = u \<or> kept_seconds c u = u - 1"
    and "c mod 1000000 \<noteq> 0 \<Longrightarrow> c + 1000000 \<le> u * 1000000000 \<Longrightarrow> kept_seconds c u = u - 1"
proof -
  define r where "r = u * 1000000000 - c"
  have r: "0 < r" "c = u * 1000000000 - r" using assms by (simp_all add: r_def)
  define q where "q = r mod 1000000"
  have q: "0 \<le> q" "q < 1000000" by (simp_all add: q_def)
  have small: "kept_seconds c u = u" if "r div 1000000 < 1"
  proof -
    have "r < 1000000" using that by linarith
    then have "(u * 1000000000 + (1000000 - r)) div 1000000000 = u" using r(1) by linarith
    with that r show ?thesis by (simp add: kept_seconds_def Let_def algebra_simps)
  qed
  have large: "kept_seconds c u = (if q = 0 then u else u - 1)" if "\<not> r div 1000000 < 1"
  proof -
    have "c + r div 1000000 * 1000000 = u * 1000000000 - q"
      using r(2) by (simp add: q_def minus_mod_eq_div_mult [symmetric])
    then have "kept_seconds c u = (u * 1000000000 - q) div 1000000000"
      using that r(2) by (simp add: kept_seconds_def Let_def)
    also have "\<dots> = (if q = 0 then u else u - 1)" using q by auto
    finally show ?thesis .
  qed
  from small large show "kept_seconds c u = u \<or> kept_seconds c u = u - 1" by (cases "r div 1000000 < 1") auto
  assume c: "c mod 1000000 \<noteq> 0" and le: "c + 1000000 \<le> u * 1000000000"
  then have "\<not> r div 1000000 < 1" using r by linarith
  moreover have "q \<noteq> 0"
  proof
    assume "q = 0"
    then obtain k where "r = k * 1000000" by (auto simp: q_def mod_eq_0_iff_dvd dvd_def mult.commute)
    with r(2) have "c = (u * 1000 - k) * 1000000" by simp
    then have "c mod 1000000 = 0" by (metis mod_mult_self2_is_0)
    with c show False by simp
  qed
  ultimately show "kept_seconds c u = u - 1" using large by simp
qed

lemma kept_expiry_seconds:
  assumes "second_ttl B" and "sane_clock E" and "x \<noteq> 0" and "\<not> exp_passed (clock E) x"
    and "uint x \<le> 9223372036"
  shows "uint (kept_expiry B E x) = kept_seconds (clock E) (uint x)"
proof -
  let ?c = "clock E" and ?u = "uint x"
  define r where "r = ?u * 1000000000 - ?c"
  define ms where "ms = (if r div 1000000 < 1 then 1 else r div 1000000)"
  have live: "?c < ?u * 1000000000" by (rule live_expiry [OF assms(2-4)])
  have r: "0 < r" "r \<le> 9223372036000000000" using live assms(2,5) by (simp_all add: r_def sane_clock_def)
  then have ms: "1 \<le> ms" "ms \<le> 9223372036000" by (simp_all add: ms_def) linarith
  have "remainingTTLMs E \<lparr>it_val = [], it_exp = x\<rparr> = ms"
    using assms(3) r time_until_eq [OF assms(2,5)]
    by (simp add: remainingTTLMs_def milliseconds_def Let_def tdiv_pos ms_def r_def)
  moreover have "ms_duration ms = ms * 1000000"
    unfolding ms_duration_def using ms by (intro wrap64_id) (simp add: in_int64_def)
  ultimately have "kept_expiry B E x = word_of_int ((?c + ms * 1000000) div 1000000000)"
    using assms(1) ms(1) by (simp add: kept_expiry_def set_expiry_def second_ttl_def unix_sec_def)
  moreover have "(?c + ms * 1000000) div 1000000000 = kept_seconds ?c ?u"
    by (simp add: kept_seconds_def Let_def ms_def r_def)
  moreover have "0 \<le> kept_seconds ?c ?u" "kept_seconds ?c ?u < 18446744073709551616"
    using kept_seconds_cases(1) [OF live] assms(2,5) live unfolding sane_clock_def by linarith+
  ultimately show ?thesis by (simp add: uint_word_of_int)
qed

lemma Apply_incr:
  assumes "store B contents E" and "Op cmd = ''INCR''"
    and "keyspace E (contents (b_begin B d)) (Key cmd) = Some (RStr v, x)" and "parseInt v = (n, None)"
  shows "\<exists>r d'. Apply B E L m (\<lambda>_. Inr cmd) data d = Some (r, d') \<and> r = Inr (GInt64 (wrap64 (n + 1))) \<and>
    keyspace E (contents (b_begin B d')) =
      put E (Key cmd) (RStr (formatInt (wrap64 (n + 1)))) (kept_expiry B E x) (keyspace E (contents (b_begin B d)))"
proof -
  obtain r d' where u: "db_update B (applyPlain B E cmd) d = (r, d')" by fastforce
  have "spec_plain B E cmd popped (keyspace E (contents (b_begin B d))) =
      (Inr (GInt64 (wrap64 (n + 1))),
       put E (Key cmd) (RStr (formatInt (wrap64 (n + 1)))) (kept_expiry B E x) (keyspace E (contents (b_begin B d))))"
    for popped
    using assms(2-4) by (simp add: spec_plain_def spec_incr_def num_at_def str_at_def counterDelta_def Let_def)
  with store.update_refines [OF assms(1), of cmd d] u
  have n: "map_sum id norm r = Inr (GInt64 (wrap64 (n + 1)))"
    and k: "keyspace E (contents (b_begin B d')) =
      put E (Key cmd) (RStr (formatInt (wrap64 (n + 1)))) (kept_expiry B E x) (keyspace E (contents (b_begin B d)))"
    by (auto simp: store.view_def [OF assms(1)])
  from n have "r = Inr (GInt64 (wrap64 (n + 1)))"
    by (cases r) (auto elim: norm.elims)
  moreover have "Apply B E L m (\<lambda>_. Inr cmd) data d = Some (r, d')"
    by (subst Apply_plain [where cmd = cmd]) (simp_all add: u assms(2) lua_ops_def)
  ultimately show ?thesis using k by blast
qed

lemma parse_wrapped: "parseInt (formatInt (wrap64 n)) = (wrap64 n, None)"
  by (simp add: parseInt_formatInt)

section \<open>Properties\<close>

text \<open>
  C31: storing a value with the time to live it had never makes it live longer, and shortens its
  life by one second at most; but whenever at least a millisecond is left and the clock is
  between two milliseconds, one second is lost by the rewrite alone.
\<close>

theorem rewrite_keeps_expiry_to_a_second:
  assumes "store B contents E" and "second_ttl B" and "sane_clock E"
    and "it_exp it \<noteq> 0" and "\<not> exp_passed (clock E) (it_exp it)" and "uint (it_exp it) \<le> 9223372036"
  shows "\<exists>it'. contents (snd (setValue B E key v ty (remainingTTLMs E it) t)) (userKey key) = Some it' \<and>
    uint (it_exp it') \<le> uint (it_exp it) \<and> uint (it_exp it) \<le> uint (it_exp it') + 1 \<and>
    (clock E mod 1000000 \<noteq> 0 \<and> clock E + 1000000 \<le> uint (it_exp it) * 1000000000 \<longrightarrow>
      uint (it_exp it') = uint (it_exp it) - 1)"
proof -
  have live: "clock E < uint (it_exp it) * 1000000000" by (rule live_expiry [OF assms(3-5)])
  have "uint (kept_expiry B E (it_exp it)) = kept_seconds (clock E) (uint (it_exp it))"
    using assms(2-6) by (rule kept_expiry_seconds)
  moreover have "contents (snd (setValue B E key v ty (remainingTTLMs E it) t)) (userKey key) =
      Some \<lparr>it_val = v, it_exp = kept_expiry B E (it_exp it)\<rparr>"
    by (simp add: store.setValue_contents [OF assms(1)] kept_expiry_eq)
  ultimately show ?thesis using kept_seconds_cases [OF live] by auto
qed

lemma ref_second_ttl: "second_ttl ref_badger"
  by (simp add: second_ttl_def ref_badger_def)

text \<open>
  A counter that expires at second 160, incremented half a microsecond after second 100:
  it now expires at second 159.
\<close>

theorem rewrite_keeps_expiry_to_a_second_witness:
  "\<exists>it'. map_of (snd (setValue ref_badger (ref_env 100000000500) ''k'' ''6'' ''string''
      (remainingTTLMs (ref_env 100000000500) \<lparr>it_val = ''5'', it_exp = 160\<rparr>) ref_ttldb)) (userKey ''k'') = Some it' \<and>
    uint (it_exp it') = 159"
  using rewrite_keeps_expiry_to_a_second [OF ref_store [of 100000000500] ref_second_ttl,
      of "\<lparr>it_val = ''5'', it_exp = 160\<rparr>" "''k''" "''6''" "''string''" ref_ttldb]
  by (auto simp: sane_clock_def exp_passed_def unix_sec_def ref_env_def)

text \<open>
  C32: the lost seconds add up. A counter with a time to live, incremented \<open>k\<close> times at one moment
  between two milliseconds, expires \<open>k\<close> seconds earlier than it was to, as long as it has \<open>k\<close>
  whole seconds left; its value is right.
\<close>

theorem counter_expiry_drifts:
  assumes "store B contents E" and "second_ttl B" and "sane_clock E" and "clock E mod 1000000 \<noteq> 0"
    and "Op cmd = ''INCR''" and "keyspace E (contents (b_begin B d)) (Key cmd) = Some (RStr v, x)"
    and "parseInt v = (n, None)" and "x \<noteq> 0" and "uint x \<le> 9223372036"
    and "clock E + int k * 1000000000 \<le> uint x * 1000000000"
  shows "\<exists>d' v' n' x'. apply_all B L m (replicate k (E, cmd)) d = Some d' \<and>
    keyspace E (contents (b_begin B d')) (Key cmd) = Some (RStr v', x') \<and>
    parseInt v' = (n', None) \<and> wrap64 n' = wrap64 (n + int k) \<and> uint x' = uint x - int k"
  using assms(6-10)
proof (induction k arbitrary: d v n x)
  case 0
  then show ?case by auto
next
  case (Suc k)
  have ns: "clock E \<noteq> j * 1000000000" for j using assms(4) by auto
  have live: "\<not> exp_passed (clock E) x"
    using store.view_live [OF assms(1), of "b_begin B d" "Key cmd"] Suc.prems(1)
    by (simp add: store.view_def [OF assms(1)])
  have lt: "clock E < uint x * 1000000000" by (rule live_expiry [OF assms(3) Suc.prems(3) live])
  let ?x = "kept_expiry B E x"
  have x': "uint ?x = uint x - 1"
    using kept_expiry_seconds [OF assms(2,3) Suc.prems(3) live Suc.prems(4)]
      kept_seconds_cases(2) [OF lt assms(4)] Suc.prems(5) by simp
  have c: "clock E + int k * 1000000000 \<le> uint ?x * 1000000000" using Suc.prems(5) x' by simp
  have c0: "clock E < uint ?x * 1000000000" using c ns [of "uint ?x"] by (cases "k = 0") auto
  have "0 \<le> unix_sec (clock E)" "unix_sec (clock E) < 18446744073709551616"
    using assms(3) unfolding sane_clock_def unix_sec_def by linarith+
  then have sec: "uint (word_of_int (unix_sec (clock E)) :: 64 word) = unix_sec (clock E)"
    by (simp add: uint_word_of_int)
  have "unix_sec (clock E) < uint ?x" using c0 by (simp add: unix_sec_def)
  then have live': "\<not> exp_passed (clock E) ?x" by (simp add: exp_passed_def word_le_def sec)
  have nz: "?x \<noteq> 0" using c0 assms(3) by (auto simp: sane_clock_def)
  obtain d1 where d1: "Apply B E L m (\<lambda>_. Inr cmd) [] d = Some (Inr (GInt64 (wrap64 (n + 1))), d1)"
    "keyspace E (contents (b_begin B d1)) (Key cmd) = Some (RStr (formatInt (wrap64 (n + 1))), ?x)"
    using Apply_incr [OF assms(1,5) Suc.prems(1,2), of L m "[]"] live' by (auto simp: put_def)
  have "uint ?x \<le> 9223372036" using x' Suc.prems(4) by simp
  from Suc.IH [OF d1(2) parse_wrapped nz this c] obtain d' v' n' x'' where
    "apply_all B L m (replicate k (E, cmd)) d1 = Some d'"
    "keyspace E (contents (b_begin B d')) (Key cmd) = Some (RStr v', x'')"
    "parseInt v' = (n', None)" "wrap64 n' = wrap64 (wrap64 (n + 1) + int k)" "uint x'' = uint ?x - int k"
    by blast
  moreover have "wrap64 (wrap64 (n + 1) + int k) = wrap64 (n + int (Suc k))"
    by (simp add: wrap64_add_wrap add.assoc)
  ultimately show ?case using d1(1) x' by auto
qed

text \<open>Sixty increments of a counter that has a minute to live, and it has none.\<close>

theorem counter_expiry_drifts_witness:
  "\<exists>d' v' x'. apply_all ref_badger ref_lua 0
      (replicate 59 (ref_env 100000000500, ref_cmd ''INCR'' ''k'' [] 0)) ref_ttldb = Some d' \<and>
    keyspace (ref_env 100000000500) (map_of (b_begin ref_badger d')) ''k'' = Some (RStr v', x') \<and> uint x' = 101"
proof -
  have "keyspace (ref_env 100000000500) (map_of (b_begin ref_badger ref_ttldb)) ''k'' = Some (RStr ''5'', 160)"
    by (simp add: keyspace_def ref_ttldb_def seen_type_def interp_def live_def exp_passed_def unix_sec_def
        ref_env_def ref_badger_def)
  then have view: "keyspace (ref_env 100000000500) (map_of (b_begin ref_badger ref_ttldb))
      (Key (ref_cmd ''INCR'' ''k'' [] 0)) = Some (RStr ''5'', 160)"
    by (simp add: ref_cmd_def)
  have five: "parseInt ''5'' = (5, None)" by code_simp
  have clock: "sane_clock (ref_env 100000000500)" "clock (ref_env 100000000500) mod 1000000 \<noteq> 0"
    by (simp_all add: sane_clock_def ref_env_def)
  have opn: "Op (ref_cmd ''INCR'' ''k'' [] 0) = ''INCR''" by (simp add: ref_cmd_def)
  have x: "(160 :: 64 word) \<noteq> 0" "uint (160 :: 64 word) \<le> 9223372036"
    "clock (ref_env 100000000500) + int 59 * 1000000000 \<le> uint (160 :: 64 word) * 1000000000"
    by (simp_all add: ref_env_def)
  have "uint (160 :: 64 word) - int 59 = 101" by simp
  moreover have "Key (ref_cmd ''INCR'' ''k'' [] 0) = ''k''" by (simp add: ref_cmd_def)
  ultimately show ?thesis
    using counter_expiry_drifts [OF ref_store ref_second_ttl clock opn view five x, of ref_lua 0]
    by metis
qed

end
