(* ===== verification/Redcon.thy ===== *)
theory Redcon
  imports FsmBase
begin

text \<open>
  What the command handlers of \<open>server/server.go\<close> use of the \<open>redcon\<close> server library: the
  replies they write on a connection, the context they keep on it, and the multiplexer
  that picks a handler by command name. A reply is the sequence of write calls; their wire
  format is the library's. A handler takes a session (the node's database, the connections
  to other nodes, the context of the connection, what has been written so far) and the
  arguments of the request, the command name first.
\<close>

section \<open>Replies\<close>

datatype wevent =
    WString bytes
  | WError bytes
  | WBulk bytes
  | WBulkString bytes
  | WInt int
  | WInt64 int
  | WArray int
  | WNull
  | WRaw bytes

text \<open>
  How a handler ends: it returns, it panics, or it does not return because a script or
  the conversion of its result does not.
\<close>

datatype 'a outcome = Done 'a | Panicked bytes | Hangs

primrec obind :: "'a outcome \<Rightarrow> ('a \<Rightarrow> 'b outcome) \<Rightarrow> 'b outcome" where
  "obind (Done x) f = f x"
| "obind (Panicked m) f = Panicked m"
| "obind Hangs f = Hangs"

section \<open>Sessions\<close>

record connectionContext =
  clientName :: bytes
  libName :: bytes
  libVer :: bytes

text \<open>
  \<open>context\<close> is \<open>conn.Context()\<close>, \<open>None\<close> before the first \<open>SetContext\<close>; \<open>remote\<close> is
  \<open>conn.RemoteAddr()\<close>; \<open>clients\<close> is the server's map of connections to other nodes.
\<close>

record ('d, 'c) sess =
  sdb :: 'd
  clients :: "bytes \<Rightarrow> 'c option"
  conn_ctx :: "connectionContext option"
  remote :: bytes
  out :: "wevent list"

type_synonym ('d, 'c) handler = "('d, 'c) sess \<Rightarrow> bytes list \<Rightarrow> ('d, 'c) sess outcome"

definition wr :: "wevent \<Rightarrow> ('d, 'c) sess \<Rightarrow> ('d, 'c) sess" where
  "wr w s = s\<lparr>out := out s @ [w]\<rparr>"

definition wrs :: "wevent list \<Rightarrow> ('d, 'c) sess \<Rightarrow> ('d, 'c) sess" where
  "wrs ws s = s\<lparr>out := out s @ ws\<rparr>"

text \<open>\<open>return\<close> right after one write.\<close>

definition reply :: "wevent \<Rightarrow> ('d, 'c) sess \<Rightarrow> ('d, 'c) sess outcome" where
  "reply w s = Done (wr w s)"

section \<open>Complete replies\<close>

text \<open>
  A reply that leaves the connection in step with the client: one value that is not an
  array, or an array header with exactly as many such values as it announces.
\<close>

fun scalar :: "wevent \<Rightarrow> bool" where
  "scalar (WArray _) = False"
| "scalar (WRaw _) = False"
| "scalar _ = True"

fun one_reply :: "wevent list \<Rightarrow> bool" where
  "one_reply (WArray n # ws) \<longleftrightarrow> n = int (length ws) \<and> list_all scalar ws"
| "one_reply [w] \<longleftrightarrow> scalar w"
| "one_reply _ \<longleftrightarrow> False"

lemma one_reply_scalar: "scalar w \<Longrightarrow> one_reply [w]"
  by (cases w) simp_all

lemma one_reply_array: "n = int (length ws) \<Longrightarrow> list_all scalar ws \<Longrightarrow> one_reply (WArray n # ws)"
  by simp

lemma out_wr [simp]: "out (wr w s) = out s @ [w]" "sdb (wr w s) = sdb s"
  "clients (wr w s) = clients s" "conn_ctx (wr w s) = conn_ctx s"
  by (simp_all add: wr_def)

lemma out_wrs [simp]: "out (wrs ws s) = out s @ ws" "sdb (wrs ws s) = sdb s"
  "clients (wrs ws s) = clients s" "conn_ctx (wrs ws s) = conn_ctx s"
  by (simp_all add: wrs_def)

lemma obind_Done_iff: "obind x f = Done y \<longleftrightarrow> (\<exists>z. x = Done z \<and> f z = Done y)"
  by (cases x) simp_all

section \<open>The multiplexer\<close>

text \<open>
  The contract of \<open>redcon.ServeMux\<close>: a request goes to the handler registered for the
  command name in lower case, and a name without a handler is answered with an error.
\<close>

definition quoted :: "bytes \<Rightarrow> bytes" where
  "quoted s = CHR 0x27 # s @ [CHR 0x27]"

locale serve_mux =
  fixes serve :: "(bytes \<Rightarrow> ('d, 'c) handler option) \<Rightarrow> ('d, 'c) handler"
    and lower :: "bytes \<Rightarrow> bytes"
  assumes serve_found: "table (lower name) = Some h \<Longrightarrow> serve table s (name # args) = h s (name # args)"
    and serve_missing: "table (lower name) = None \<Longrightarrow>
      serve table s (name # args) = reply (WError (''ERR unknown command '' @ quoted (lower name))) s"
begin

text \<open>Whatever holds of every handler and of the error reply holds of serving a request.\<close>

lemma serve_all:
  assumes "\<And>n h. table n = Some h \<Longrightarrow> n = lower name \<Longrightarrow> P (h s (name # args))"
    and "\<And>e. P (reply (WError e) s)"
  shows "P (serve table s (name # args))"
  using assms serve_found [of table name] serve_missing [of table name]
  by (cases "table (lower name)") auto

end

text \<open>A multiplexer that keeps the contract.\<close>

definition ref_serve :: "(bytes \<Rightarrow> bytes) \<Rightarrow> (bytes \<Rightarrow> ('d, 'c) handler option) \<Rightarrow> ('d, 'c) handler" where
  "ref_serve low table s args =
     (case table (low (hd args)) of
        None \<Rightarrow> reply (WError (''ERR unknown command '' @ quoted (low (hd args)))) s
      | Some h \<Rightarrow> h s args)"

interpretation rmux: serve_mux "ref_serve low" low for low
  by unfold_locales (simp_all add: ref_serve_def)

end
