(* ===== verification/Handlers.thy ===== *)
theory Handlers
  imports Fsm Redcon
begin

text \<open>
  The command handlers of \<open>server/server.go\<close> and \<open>server/lua_handlers.go\<close>: each checks the
  number and form of its arguments, and either reads the store and writes the answer or
  packs a command, has it applied and writes the result.
\<close>

section \<open>What the handlers call\<close>

text \<open>
  The storage engine, the Lua interpreter with the nesting bound, the codec of the log
  entries, and the \<open>Apply\<close> of the Raft library, \<open>None\<close> when Raft is not set up. \<open>rf data d\<close>
  is the outcome of the future (its error, or the response of the state machine, itself an
  error or a value) and the database of this node when the future is resolved.
\<close>

record ('d, 't, 's, 'n) deps =
  bdg :: "('d, 't) badger"
  vm :: "('s, 'n) lua"
  depth :: nat
  cmd_enc :: "Command \<Rightarrow> bytes"
  cmd_dec :: "bytes \<Rightarrow> err + Command"
  rf_apply :: "(bytes \<Rightarrow> 'd \<Rightarrow> ((err + (err + goval)) \<times> 'd) option) option"

text \<open>
  The first half of \<open>applyCommand\<close>, which \<open>handleSet\<close> repeats: encode the command, apply it
  through Raft or directly, and return the text of the error or the result.
\<close>

definition submit ::
  "('d, 't, 's, 'n) deps \<Rightarrow> env \<Rightarrow> Command \<Rightarrow> ('d, 'c) sess \<Rightarrow> ((bytes + goval) \<times> ('d, 'c) sess) outcome" where
  "submit Y E c s =
     (case (case rf_apply Y of
              Some rf \<Rightarrow> rf (cmd_enc Y c) (sdb s)
            | None \<Rightarrow>
                map_option (\<lambda>(res, d). (Inr res, d))
                  (Apply (bdg Y) E (vm Y) (depth Y) (cmd_dec Y) (cmd_enc Y c) (sdb s))) of
        None \<Rightarrow> Hangs
      | Some (Inl e, d) \<Rightarrow> Done (Inl (err_text e), s\<lparr>sdb := d\<rparr>)
      | Some (Inr (Inl (GoPanic m)), d) \<Rightarrow> Panicked m
      | Some (Inr (Inl e), d) \<Rightarrow> Done (Inl (err_text e), s\<lparr>sdb := d\<rparr>)
      | Some (Inr (Inr res), d) \<Rightarrow> Done (Inr res, s\<lparr>sdb := d\<rparr>))"

fun result_events :: "goval \<Rightarrow> wevent list" where
  "result_events GNil = [WNull]"
| "result_events (GStr v) = [WString v]"
| "result_events (GBytes v) = [WBulk (slice v)]"
| "result_events (GInt v) = [WInt v]"
| "result_events (GInt64 v) = [WInt64 v]"
| "result_events (GStrs v) = WArray (int (length v)) # map WBulkString v"
| "result_events _ = [WString ''OK'']"

definition applyCommand ::
  "('d, 't, 's, 'n) deps \<Rightarrow> env \<Rightarrow> Command \<Rightarrow> ('d, 'c) sess \<Rightarrow> ('d, 'c) sess outcome" where
  "applyCommand Y E c s =
     obind (submit Y E c s)
       (\<lambda>(r, s). case r of
          Inl e \<Rightarrow> reply (WError (''ERR '' @ e)) s
        | Inr res \<Rightarrow> Done (wrs (result_events res) s))"

text \<open>
  A read of the store, whose error is written as it is; \<open>finish\<close> gives the answer.
\<close>

definition reading ::
  "('d, 't, 's, 'n) deps \<Rightarrow> ('t \<Rightarrow> err + 'a) \<Rightarrow> ('d, 'c) sess \<Rightarrow> ('a \<Rightarrow> wevent list) \<Rightarrow> ('d, 'c) sess outcome" where
  "reading Y get s finish =
     (case db_view (bdg Y) get (sdb s) of
        Inl (GoPanic m) \<Rightarrow> Panicked m
      | Inl e \<Rightarrow> reply (WError (err_text e)) s
      | Inr x \<Rightarrow> Done (wrs (finish x) s))"

section \<open>Answers\<close>

definition bulk_or_null :: "bytes option \<Rightarrow> wevent" where
  "bulk_or_null val = (case val of None \<Rightarrow> WNull | Some v \<Rightarrow> WBulk v)"

definition bulk_array :: "bytes list \<Rightarrow> wevent list" where
  "bulk_array vs = WArray (int (length vs)) # map WBulkString vs"

definition nullable_array :: "bytes option list \<Rightarrow> wevent list" where
  "nullable_array vs = WArray (int (length vs)) # map bulk_or_null vs"

definition arity_error :: bytes where
  "arity_error = ''ERR wrong number of arguments''"

definition arity_error_for :: "bytes \<Rightarrow> bytes" where
  "arity_error_for name = ''ERR wrong number of arguments for '' @ quoted name @ '' command''"

definition not_an_int :: bytes where
  "not_an_int = ''ERR value is not an integer''"

definition not_an_int_or_range :: bytes where
  "not_an_int_or_range = ''ERR value is not an integer or out of range''"

section \<open>SET\<close>

text \<open>\<open>time.Now().UnixMilli()\<close>.\<close>

definition unix_milli :: "env \<Rightarrow> int" where
  "unix_milli E = clock E div 1000000"

text \<open>The time to live in milliseconds that the options with a value set.\<close>

definition option_ttl :: "env \<Rightarrow> bytes \<Rightarrow> int \<Rightarrow> int" where
  "option_ttl E opt v =
     (if opt = ''EX'' then wrap64 (v * 1000)
      else if opt = ''PX'' then v
      else
        (let ttl = wrap64 ((if opt = ''EXAT'' then wrap64 (v * 1000) else v) - unix_milli E)
         in if ttl < 0 then 1 else ttl))"

text \<open>The option loop: the text of the error, or the command with the options in it.\<close>

fun set_options :: "env \<Rightarrow> bytes list \<Rightarrow> Command \<Rightarrow> bytes + Command" where
  "set_options E [] c = Inr c"
| "set_options E (a # r) c =
     (let opt = toUpper (uni_upper E) a in
      if opt = ''NX'' then set_options E r (c\<lparr>Condition := ''NX''\<rparr>)
      else if opt = ''XX'' then set_options E r (c\<lparr>Condition := ''XX''\<rparr>)
      else if opt = ''GET'' then set_options E r (c\<lparr>ReturnOld := True\<rparr>)
      else if opt \<in> {''EX'', ''PX'', ''EXAT'', ''PXAT''} then
        (case r of
           [] \<Rightarrow> Inl ''ERR syntax error''
         | n # r' \<Rightarrow>
             (case parseInt n of
                (_, Some _) \<Rightarrow> Inl not_an_int_or_range
              | (v, None) \<Rightarrow> set_options E r' (c\<lparr>TTLMs := option_ttl E opt v\<rparr>)))
      else Inl ''ERR syntax error'')"

definition set_reply :: "Command \<Rightarrow> goval \<Rightarrow> wevent" where
  "set_reply c res =
     (case res of
        GNil \<Rightarrow> WNull
      | GBytes b \<Rightarrow> if ReturnOld c then WBulk (slice b) else WString ''OK''
      | _ \<Rightarrow> if ReturnOld c then WNull else WString ''OK'')"

definition handleSet :: "('d, 't, 's, 'n) deps \<Rightarrow> env \<Rightarrow> ('d, 'c) handler" where
  "handleSet Y E s args =
     (if length args < 3 then reply (WError (arity_error_for (args ! 0))) s
      else
        (case set_options E (drop 3 args) (newCommand ''SET'' (args ! 1) [args ! 2]) of
           Inl e \<Rightarrow> reply (WError e) s
         | Inr c \<Rightarrow>
             obind (submit Y E c s)
               (\<lambda>(r, s). case r of
                  Inl e \<Rightarrow> reply (WError (''ERR '' @ e)) s
                | Inr res \<Rightarrow> reply (set_reply c res) s)))"

definition handleSetEx :: "('d, 't, 's, 'n) deps \<Rightarrow> env \<Rightarrow> ('d, 'c) handler" where
  "handleSetEx Y E s args =
     (if length args \<noteq> 4 then reply (WError arity_error) s
      else
        (let (secs, e) = parseInt (args ! 2) in
         if e \<noteq> None \<or> secs \<le> 0
         then reply (WError (''ERR invalid expire time in '' @ quoted ''setex'' @ '' command'')) s
         else applyCommand Y E ((newCommand ''SET'' (args ! 1) [args ! 3])\<lparr>TTLMs := wrap64 (secs * 1000)\<rparr>) s))"

section \<open>Keys and strings\<close>

definition handlePing :: "('d, 'c) handler" where
  "handlePing s args = reply (WString ''PONG'') s"

definition handleGet :: "('d, 't, 's, 'n) deps \<Rightarrow> env \<Rightarrow> ('d, 'c) handler" where
  "handleGet Y E s args =
     (if length args \<noteq> 2 then reply (WError (arity_error_for (args ! 0))) s
      else reading Y (GetString (bdg Y) E (args ! 1)) s (\<lambda>val. [bulk_or_null val]))"

definition handleDel :: "('d, 't, 's, 'n) deps \<Rightarrow> env \<Rightarrow> ('d, 'c) handler" where
  "handleDel Y E s args =
     (if length args < 2 then reply (WError (arity_error_for (args ! 0))) s
      else applyCommand Y E (newCommand ''DEL'' [] (drop 1 args)) s)"

definition handleType :: "('d, 't, 's, 'n) deps \<Rightarrow> env \<Rightarrow> ('d, 'c) handler" where
  "handleType Y E s args =
     (if length args \<noteq> 2 then reply (WError arity_error) s
      else reading Y (Type (bdg Y) E (args ! 1)) s (\<lambda>tp. [WString tp]))"

definition handleKeys :: "('d, 't, 's, 'n) deps \<Rightarrow> env \<Rightarrow> ('d, 'c) handler" where
  "handleKeys Y E s args =
     (if length args \<noteq> 2 then reply (WError arity_error) s
      else
        (case db_view (bdg Y) (Keys (bdg Y) E (args ! 1)) (sdb s) of
           Inl _ \<Rightarrow> reply (WError ''ERR syntax error'') s
         | Inr keys \<Rightarrow> Done (wrs (bulk_array keys) s)))"

definition handleTouch :: "('d, 't, 's, 'n) deps \<Rightarrow> env \<Rightarrow> ('d, 'c) handler" where
  "handleTouch Y E s args =
     (if length args < 2 then reply (WError arity_error) s
      else reading Y (Exists (bdg Y) E (drop 1 args)) s (\<lambda>n. [WInt n]))"

definition handlePersist :: "('d, 't, 's, 'n) deps \<Rightarrow> env \<Rightarrow> ('d, 'c) handler" where
  "handlePersist Y E s args =
     (if length args \<noteq> 2 then reply (WError arity_error) s
      else applyCommand Y E (newCommand ''PERSIST'' (args ! 1) []) s)"

definition handlePTTL :: "('d, 't, 's, 'n) deps \<Rightarrow> env \<Rightarrow> ('d, 'c) handler" where
  "handlePTTL Y E s args =
     (if length args \<noteq> 2 then reply (WError arity_error) s
      else reading Y (PTTL (bdg Y) E (args ! 1)) s (\<lambda>ttl. [WInt64 ttl]))"

definition handleMSet :: "('d, 't, 's, 'n) deps \<Rightarrow> env \<Rightarrow> ('d, 'c) handler" where
  "handleMSet Y E s args =
     (if length args < 3 \<or> even (length args) then reply (WError (arity_error_for (args ! 0))) s
      else applyCommand Y E (newCommand ''MSET'' [] (drop 1 args)) s)"

definition handleMGet :: "('d, 't, 's, 'n) deps \<Rightarrow> env \<Rightarrow> ('d, 'c) handler" where
  "handleMGet Y E s args =
     (if length args < 2 then reply (WError (arity_error_for (args ! 0))) s
      else reading Y (GetStrings (bdg Y) E (drop 1 args)) s nullable_array)"

definition handleAppend :: "('d, 't, 's, 'n) deps \<Rightarrow> env \<Rightarrow> ('d, 'c) handler" where
  "handleAppend Y E s args =
     (if length args \<noteq> 3 then reply (WError arity_error) s
      else applyCommand Y E (newCommand ''APPEND'' (args ! 1) [args ! 2]) s)"

definition handleStrLen :: "('d, 't, 's, 'n) deps \<Rightarrow> env \<Rightarrow> ('d, 'c) handler" where
  "handleStrLen Y E s args =
     (if length args \<noteq> 2 then reply (WError arity_error) s
      else reading Y (StrLen (bdg Y) E (args ! 1)) s (\<lambda>n. [WInt n]))"

definition handleGetSet :: "('d, 't, 's, 'n) deps \<Rightarrow> env \<Rightarrow> ('d, 'c) handler" where
  "handleGetSet Y E s args =
     (if length args \<noteq> 3 then reply (WError arity_error) s
      else applyCommand Y E (newCommand ''GETSET'' (args ! 1) [args ! 2]) s)"

definition handleIncrBy :: "('d, 't, 's, 'n) deps \<Rightarrow> env \<Rightarrow> ('d, 'c) handler" where
  "handleIncrBy Y E s args =
     (if length args \<noteq> 3 then reply (WError arity_error) s
      else applyCommand Y E (newCommand ''INCRBY'' (args ! 1) [args ! 2]) s)"

definition handleDecrBy :: "('d, 't, 's, 'n) deps \<Rightarrow> env \<Rightarrow> ('d, 'c) handler" where
  "handleDecrBy Y E s args =
     (if length args \<noteq> 3 then reply (WError arity_error) s
      else applyCommand Y E (newCommand ''DECRBY'' (args ! 1) [args ! 2]) s)"

definition handleFlushDB :: "('d, 't, 's, 'n) deps \<Rightarrow> env \<Rightarrow> ('d, 'c) handler" where
  "handleFlushDB Y E s args =
     (if length args \<noteq> 1 \<and> length args \<noteq> 2 then reply (WError (arity_error_for ''flushdb'')) s
      else if length args = 2 \<and> toUpper (uni_upper E) (args ! 1) \<noteq> ''SYNC''
          \<and> toUpper (uni_upper E) (args ! 1) \<noteq> ''ASYNC''
      then reply (WError ''ERR syntax error'') s
      else applyCommand Y E (newCommand ''FLUSHDB'' [] []) s)"

definition handleIncr :: "('d, 't, 's, 'n) deps \<Rightarrow> env \<Rightarrow> ('d, 'c) handler" where
  "handleIncr Y E s args =
     (if length args \<noteq> 2 then reply (WError arity_error) s
      else applyCommand Y E (newCommand ''INCR'' (args ! 1) []) s)"

definition handleDecr :: "('d, 't, 's, 'n) deps \<Rightarrow> env \<Rightarrow> ('d, 'c) handler" where
  "handleDecr Y E s args =
     (if length args \<noteq> 2 then reply (WError arity_error) s
      else applyCommand Y E (newCommand ''DECR'' (args ! 1) []) s)"

definition handleExists :: "('d, 't, 's, 'n) deps \<Rightarrow> env \<Rightarrow> ('d, 'c) handler" where
  "handleExists Y E s args =
     (if length args < 2 then reply (WError arity_error) s
      else reading Y (Exists (bdg Y) E (drop 1 args)) s (\<lambda>n. [WInt n]))"

definition handleExpire :: "('d, 't, 's, 'n) deps \<Rightarrow> env \<Rightarrow> ('d, 'c) handler" where
  "handleExpire Y E s args =
     (if length args \<noteq> 3 then reply (WError arity_error) s
      else
        (case parseInt (args ! 2) of
           (_, Some _) \<Rightarrow> reply (WError not_an_int) s
         | (secs, None) \<Rightarrow>
             applyCommand Y E ((newCommand ''EXPIRE'' (args ! 1) [])\<lparr>TTLMs := wrap64 (secs * 1000)\<rparr>) s))"

definition handleTTL :: "('d, 't, 's, 'n) deps \<Rightarrow> env \<Rightarrow> ('d, 'c) handler" where
  "handleTTL Y E s args =
     (if length args \<noteq> 2 then reply (WError arity_error) s
      else reading Y (TTL (bdg Y) E (args ! 1)) s (\<lambda>ttl. [WInt64 ttl]))"

section \<open>Hashes\<close>

definition handleHSet :: "('d, 't, 's, 'n) deps \<Rightarrow> env \<Rightarrow> ('d, 'c) handler" where
  "handleHSet Y E s args =
     (if length args < 4 \<or> odd (length args) then reply (WError arity_error) s
      else applyCommand Y E (newCommand ''HSET'' (args ! 1) (drop 2 args)) s)"

definition handleHSetNX :: "('d, 't, 's, 'n) deps \<Rightarrow> env \<Rightarrow> ('d, 'c) handler" where
  "handleHSetNX Y E s args =
     (if length args \<noteq> 4 then reply (WError arity_error) s
      else applyCommand Y E (newCommand ''HSETNX'' (args ! 1) [args ! 2, args ! 3]) s)"

definition handleHGet :: "('d, 't, 's, 'n) deps \<Rightarrow> env \<Rightarrow> ('d, 'c) handler" where
  "handleHGet Y E s args =
     (if length args \<noteq> 3 then reply (WError arity_error) s
      else reading Y (HGet (bdg Y) E (args ! 1) (args ! 2)) s (\<lambda>val. [bulk_or_null val]))"

text \<open>The loop over the map visits its keys in an unspecified order.\<close>

definition hash_events :: "env \<Rightarrow> gomap \<Rightarrow> wevent list" where
  "hash_events E hash =
     WArray (int (length hash) * 2) #
     concat (map (\<lambda>k. [WBulkString k, WBulkString (the (map_of hash k))]) (range_order E (map fst hash)))"

definition handleHGetAll :: "('d, 't, 's, 'n) deps \<Rightarrow> env \<Rightarrow> ('d, 'c) handler" where
  "handleHGetAll Y E s args =
     (if length args \<noteq> 2 then reply (WError arity_error) s
      else reading Y (HGetAll (bdg Y) E (args ! 1)) s (hash_events E))"

definition handleHDel :: "('d, 't, 's, 'n) deps \<Rightarrow> env \<Rightarrow> ('d, 'c) handler" where
  "handleHDel Y E s args =
     (if length args < 3 then reply (WError arity_error) s
      else applyCommand Y E (newCommand ''HDEL'' (args ! 1) (drop 2 args)) s)"

definition handleHExists :: "('d, 't, 's, 'n) deps \<Rightarrow> env \<Rightarrow> ('d, 'c) handler" where
  "handleHExists Y E s args =
     (if length args \<noteq> 3 then reply (WError arity_error) s
      else reading Y (HExists (bdg Y) E (args ! 1) (args ! 2)) s (\<lambda>n. [WInt n]))"

definition handleHLen :: "('d, 't, 's, 'n) deps \<Rightarrow> env \<Rightarrow> ('d, 'c) handler" where
  "handleHLen Y E s args =
     (if length args \<noteq> 2 then reply (WError arity_error) s
      else reading Y (HLen (bdg Y) E (args ! 1)) s (\<lambda>n. [WInt n]))"

definition handleHKeys :: "('d, 't, 's, 'n) deps \<Rightarrow> env \<Rightarrow> ('d, 'c) handler" where
  "handleHKeys Y E s args =
     (if length args \<noteq> 2 then reply (WError arity_error) s
      else reading Y (HKeys (bdg Y) E (args ! 1)) s bulk_array)"

definition handleHVals :: "('d, 't, 's, 'n) deps \<Rightarrow> env \<Rightarrow> ('d, 'c) handler" where
  "handleHVals Y E s args =
     (if length args \<noteq> 2 then reply (WError arity_error) s
      else reading Y (HVals (bdg Y) E (args ! 1)) s bulk_array)"

definition handleHMGet :: "('d, 't, 's, 'n) deps \<Rightarrow> env \<Rightarrow> ('d, 'c) handler" where
  "handleHMGet Y E s args =
     (if length args < 3 then reply (WError arity_error) s
      else reading Y (HMGet (bdg Y) E (args ! 1) (drop 2 args)) s nullable_array)"

section \<open>Lists\<close>

definition handleLPush :: "('d, 't, 's, 'n) deps \<Rightarrow> env \<Rightarrow> ('d, 'c) handler" where
  "handleLPush Y E s args =
     (if length args < 3 then reply (WError arity_error) s
      else applyCommand Y E (newCommand ''LPUSH'' (args ! 1) (drop 2 args)) s)"

definition handleLPushX :: "('d, 't, 's, 'n) deps \<Rightarrow> env \<Rightarrow> ('d, 'c) handler" where
  "handleLPushX Y E s args =
     (if length args < 3 then reply (WError arity_error) s
      else applyCommand Y E (newCommand ''LPUSHX'' (args ! 1) (drop 2 args)) s)"

definition handleRPush :: "('d, 't, 's, 'n) deps \<Rightarrow> env \<Rightarrow> ('d, 'c) handler" where
  "handleRPush Y E s args =
     (if length args < 3 then reply (WError arity_error) s
      else applyCommand Y E (newCommand ''RPUSH'' (args ! 1) (drop 2 args)) s)"

definition handleRPushX :: "('d, 't, 's, 'n) deps \<Rightarrow> env \<Rightarrow> ('d, 'c) handler" where
  "handleRPushX Y E s args =
     (if length args < 3 then reply (WError arity_error) s
      else applyCommand Y E (newCommand ''RPUSHX'' (args ! 1) (drop 2 args)) s)"

definition handleLPop :: "('d, 't, 's, 'n) deps \<Rightarrow> env \<Rightarrow> ('d, 'c) handler" where
  "handleLPop Y E s args =
     (if length args \<noteq> 2 \<and> length args \<noteq> 3 then reply (WError arity_error) s
      else applyCommand Y E (newCommand ''LPOP'' (args ! 1) (if length args = 3 then [args ! 2] else [])) s)"

definition handleRPop :: "('d, 't, 's, 'n) deps \<Rightarrow> env \<Rightarrow> ('d, 'c) handler" where
  "handleRPop Y E s args =
     (if length args \<noteq> 2 \<and> length args \<noteq> 3 then reply (WError arity_error) s
      else applyCommand Y E (newCommand ''RPOP'' (args ! 1) (if length args = 3 then [args ! 2] else [])) s)"

definition handleLRange :: "('d, 't, 's, 'n) deps \<Rightarrow> env \<Rightarrow> ('d, 'c) handler" where
  "handleLRange Y E s args =
     (if length args \<noteq> 4 then reply (WError arity_error) s
      else
        (let (start, err1) = atoi (args ! 2); (stop, err2) = atoi (args ! 3) in
         if err1 \<noteq> None \<or> err2 \<noteq> None then reply (WError not_an_int) s
         else reading Y (LRange (bdg Y) E (args ! 1) start stop) s bulk_array))"

definition handleLLen :: "('d, 't, 's, 'n) deps \<Rightarrow> env \<Rightarrow> ('d, 'c) handler" where
  "handleLLen Y E s args =
     (if length args \<noteq> 2 then reply (WError arity_error) s
      else reading Y (LLen (bdg Y) E (args ! 1)) s (\<lambda>n. [WInt n]))"

definition handleLIndex :: "('d, 't, 's, 'n) deps \<Rightarrow> env \<Rightarrow> ('d, 'c) handler" where
  "handleLIndex Y E s args =
     (if length args \<noteq> 3 then reply (WError arity_error) s
      else
        (case atoi (args ! 2) of
           (_, Some _) \<Rightarrow> reply (WError not_an_int) s
         | (index, None) \<Rightarrow>
             reading Y (LIndex (bdg Y) E (args ! 1) index) s (\<lambda>val. [bulk_or_null val])))"

definition handleLTrim :: "('d, 't, 's, 'n) deps \<Rightarrow> env \<Rightarrow> ('d, 'c) handler" where
  "handleLTrim Y E s args =
     (if length args \<noteq> 4 then reply (WError arity_error) s
      else if snd (atoi (args ! 2)) \<noteq> None then reply (WError not_an_int) s
      else if snd (atoi (args ! 3)) \<noteq> None then reply (WError not_an_int) s
      else applyCommand Y E (newCommand ''LTRIM'' (args ! 1) [args ! 2, args ! 3]) s)"

definition handleLRem :: "('d, 't, 's, 'n) deps \<Rightarrow> env \<Rightarrow> ('d, 'c) handler" where
  "handleLRem Y E s args =
     (if length args \<noteq> 4 then reply (WError arity_error) s
      else if snd (atoi (args ! 2)) \<noteq> None then reply (WError not_an_int) s
      else applyCommand Y E (newCommand ''LREM'' (args ! 1) [args ! 2, args ! 3]) s)"

section \<open>Sets\<close>

definition handleSAdd :: "('d, 't, 's, 'n) deps \<Rightarrow> env \<Rightarrow> ('d, 'c) handler" where
  "handleSAdd Y E s args =
     (if length args < 3 then reply (WError arity_error) s
      else applyCommand Y E (newCommand ''SADD'' (args ! 1) (drop 2 args)) s)"

definition handleSMembers :: "('d, 't, 's, 'n) deps \<Rightarrow> env \<Rightarrow> ('d, 'c) handler" where
  "handleSMembers Y E s args =
     (if length args \<noteq> 2 then reply (WError arity_error) s
      else reading Y (SMembers (bdg Y) E (args ! 1)) s bulk_array)"

definition handleSIsMember :: "('d, 't, 's, 'n) deps \<Rightarrow> env \<Rightarrow> ('d, 'c) handler" where
  "handleSIsMember Y E s args =
     (if length args \<noteq> 3 then reply (WError arity_error) s
      else reading Y (SIsMember (bdg Y) E (args ! 1) (args ! 2)) s (\<lambda>n. [WInt n]))"

definition handleSCard :: "('d, 't, 's, 'n) deps \<Rightarrow> env \<Rightarrow> ('d, 'c) handler" where
  "handleSCard Y E s args =
     (if length args \<noteq> 2 then reply (WError arity_error) s
      else reading Y (SCard (bdg Y) E (args ! 1)) s (\<lambda>n. [WInt n]))"

definition handleSRem :: "('d, 't, 's, 'n) deps \<Rightarrow> env \<Rightarrow> ('d, 'c) handler" where
  "handleSRem Y E s args =
     (if length args < 3 then reply (WError arity_error) s
      else applyCommand Y E (newCommand ''SREM'' (args ! 1) (drop 2 args)) s)"

definition handleSPop :: "('d, 't, 's, 'n) deps \<Rightarrow> env \<Rightarrow> ('d, 'c) handler" where
  "handleSPop Y E s args =
     (if length args \<noteq> 2 \<and> length args \<noteq> 3 then reply (WError arity_error) s
      else if length args = 3 \<and> (snd (atoi (args ! 2)) \<noteq> None \<or> fst (atoi (args ! 2)) < 0)
      then reply (WError not_an_int_or_range) s
      else applyCommand Y E
             (newCommand ''SPOP'' (args ! 1) (if length args = 3 then [args ! 2] else [])) s)"

definition srand_events :: "int option \<Rightarrow> bytes list \<Rightarrow> wevent list" where
  "srand_events cnt members =
     (case cnt of
        None \<Rightarrow> (case members of [] \<Rightarrow> [WNull] | m # _ \<Rightarrow> [WBulkString m])
      | Some _ \<Rightarrow> bulk_array members)"

definition handleSRandMember :: "('d, 't, 's, 'n) deps \<Rightarrow> env \<Rightarrow> ('d, 'c) handler" where
  "handleSRandMember Y E s args =
     (if length args \<noteq> 2 \<and> length args \<noteq> 3 then reply (WError arity_error) s
      else if length args = 3 \<and> snd (atoi (args ! 2)) \<noteq> None then reply (WError not_an_int) s
      else
        (let cnt = (if length args = 3 then Some (fst (atoi (args ! 2))) else None)
         in reading Y (SRandMember (bdg Y) E (args ! 1) cnt) s (srand_events cnt)))"

text \<open>The header is written before the first lookup; an error ends the loop.\<close>

fun smismember_loop ::
  "('d, 't, 's, 'n) deps \<Rightarrow> env \<Rightarrow> bytes \<Rightarrow> bytes list \<Rightarrow> ('d, 'c) sess \<Rightarrow> ('d, 'c) sess outcome" where
  "smismember_loop Y E key [] s = Done s"
| "smismember_loop Y E key (m # ms) s =
     (case db_view (bdg Y) (SIsMember (bdg Y) E key m) (sdb s) of
        Inl e \<Rightarrow> reply (WError (err_text e)) s
      | Inr isMember \<Rightarrow> smismember_loop Y E key ms (wr (WInt isMember) s))"

definition handleSMIsMember :: "('d, 't, 's, 'n) deps \<Rightarrow> env \<Rightarrow> ('d, 'c) handler" where
  "handleSMIsMember Y E s args =
     (if length args < 3 then reply (WError arity_error) s
      else smismember_loop Y E (args ! 1) (drop 2 args) (wr (WArray (int (length args) - 2)) s))"

section \<open>Scripts\<close>

definition handleEval :: "('d, 't, 's, 'n) deps \<Rightarrow> env \<Rightarrow> ('d, 'c) handler" where
  "handleEval Y E s args =
     (if length args < 3 then reply (WError (arity_error_for ''eval'')) s
      else if snd (atoi (args ! 2)) \<noteq> None \<or> fst (atoi (args ! 2)) < 0
      then reply (WError not_an_int_or_range) s
      else if int (length args) < wrap64 (3 + fst (atoi (args ! 2)))
      then reply (WError ''ERR Number of keys can't be greater than number of args'') s
      else applyCommand Y E (newCommand ''EVAL'' [] (drop 1 args)) s)"

definition handleEvalSha :: "('d, 't, 's, 'n) deps \<Rightarrow> env \<Rightarrow> ('d, 'c) handler" where
  "handleEvalSha Y E s args =
     (if length args < 3 then reply (WError (arity_error_for ''evalsha'')) s
      else if snd (atoi (args ! 2)) \<noteq> None \<or> fst (atoi (args ! 2)) < 0
      then reply (WError not_an_int_or_range) s
      else if int (length args) < wrap64 (3 + fst (atoi (args ! 2)))
      then reply (WError ''ERR Number of keys can't be greater than number of args'') s
      else applyCommand Y E (newCommand ''EVALSHA'' [] (drop 1 args)) s)"

definition handleScript :: "('d, 't, 's, 'n) deps \<Rightarrow> env \<Rightarrow> ('d, 'c) handler" where
  "handleScript Y E s args =
     (if length args < 2 then reply (WError (arity_error_for ''script'')) s
      else
        (let subcmd = toUpper (uni_upper E) (args ! 1) in
         if subcmd = ''LOAD'' then
           (if length args \<noteq> 3 then reply (WError (arity_error_for ''script|load'')) s
            else applyCommand Y E (newCommand ''SCRIPT_LOAD'' [] [args ! 2]) s)
         else if subcmd = ''EXISTS'' then
           (if length args < 3 then reply (WError (arity_error_for ''script|exists'')) s
            else applyCommand Y E (newCommand ''SCRIPT_EXISTS'' [] (drop 2 args)) s)
         else if subcmd = ''FLUSH'' then applyCommand Y E (newCommand ''SCRIPT_FLUSH'' [] []) s
         else reply (WError ''ERR Unknown SCRIPT subcommand or wrong number of arguments'') s))"

section \<open>CLIENT\<close>

definition contextForConn :: "('d, 'c) sess \<Rightarrow> connectionContext \<times> ('d, 'c) sess" where
  "contextForConn s =
     (case conn_ctx s of
        Some ctx \<Rightarrow> (ctx, s)
      | None \<Rightarrow>
          (let ctx = \<lparr>clientName = [], libName = [], libVer = []\<rparr> in (ctx, s\<lparr>conn_ctx := Some ctx\<rparr>)))"

definition client_info :: "bytes \<Rightarrow> bytes \<Rightarrow> connectionContext \<Rightarrow> bytes" where
  "client_info raddr laddr ctx =
     ''id=1 addr='' @ raddr @ '' laddr='' @ laddr @ '' fd=0 name='' @ clientName ctx @
     '' age=0 idle=0 flags=N db=0 sub=0 psub=0 ssub=0 multi=-1 qbuf=0 qbuf-free=0 argv-mem=0'' @
     '' multi-mem=0 rbs=0 rbp=0 obl=0 oll=0 omem=0 tot-mem=0 events=r cmd=client user=default'' @
     '' redir=-1 resp=2 lib-name='' @ libName ctx @ '' lib-ver='' @ libVer ctx"

definition handleClient :: "env \<Rightarrow> bytes \<Rightarrow> ('d, 'c) handler" where
  "handleClient E addr s args =
     (if length args < 2 then reply (WError (arity_error_for ''client'')) s
      else
        (let subcmd = toUpper (uni_upper E) (args ! 1) in
         if subcmd = ''SETNAME'' then
           (if length args \<noteq> 3 then reply (WError (arity_error_for ''client|setname'')) s
            else
              (let (ctx, s) = contextForConn s
               in reply (WString ''OK'') (s\<lparr>conn_ctx := Some (ctx\<lparr>clientName := args ! 2\<rparr>)\<rparr>)))
         else if subcmd = ''GETNAME'' then
           (if length args \<noteq> 2 then reply (WError (arity_error_for ''client|getname'')) s
            else
              (let (ctx, s) = contextForConn s
               in reply (if clientName ctx = [] then WNull else WBulkString (clientName ctx)) s))
         else if subcmd = ''SETINFO'' then
           (if length args \<noteq> 4 then reply (WError (arity_error_for ''client|setinfo'')) s
            else
              (let (ctx, s) = contextForConn s; attr = toUpper (uni_upper E) (args ! 2) in
               if attr = ''LIB-NAME'' then
                 reply (WString ''OK'') (s\<lparr>conn_ctx := Some (ctx\<lparr>libName := args ! 3\<rparr>)\<rparr>)
               else if attr = ''LIB-VER'' then
                 reply (WString ''OK'') (s\<lparr>conn_ctx := Some (ctx\<lparr>libVer := args ! 3\<rparr>)\<rparr>)
               else reply (WError ''ERR syntax error'') s))
         else if subcmd = ''INFO'' then
           (if length args \<noteq> 2 then reply (WError (arity_error_for ''client|info'')) s
            else
              (let (ctx, s) = contextForConn s
               in reply (WBulkString (client_info (remote s) addr ctx)) s))
         else
           reply (WError (''ERR unknown subcommand '' @ quoted (toLower (uni_lower E) subcmd) @
                    ''. Try CLIENT HELP.'')) s))"

end
