(* ===== verification/Options.thy ===== *)
theory Options
  imports Prelude
begin

text \<open>
  The functional options of \<open>server/options.go\<close> and \<open>cluster/options.go\<close>: an option is a
  function on the settings or \<open>nil\<close>, and the one setting is the writer the logs go to,
  which may be \<open>nil\<close> and then falls back to \<open>io.Discard\<close>, here the parameter \<open>discard\<close>.
\<close>

section \<open>server/options.go\<close>

record 'w options =
  logOutput :: "'w option"

type_synonym 'w Option = "'w options \<Rightarrow> 'w options"

definition WithLogOutput :: "'w option \<Rightarrow> 'w Option" where
  "WithLogOutput w opts = opts\<lparr>logOutput := w\<rparr>"

definition resolveOptions :: "'w \<Rightarrow> 'w Option option list \<Rightarrow> 'w options" where
  "resolveOptions discard opts =
     (let resolved = fold (\<lambda>opt r. case opt of None \<Rightarrow> r | Some f \<Rightarrow> f r) opts \<lparr>logOutput = Some discard\<rparr>
      in if logOutput resolved = None then resolved\<lparr>logOutput := Some discard\<rparr> else resolved)"

section \<open>cluster/options.go\<close>

record 'w gossip_options =
  gossip_logOutput :: "'w option"

type_synonym 'w gossip_Option = "'w gossip_options \<Rightarrow> 'w gossip_options"

definition gossip_WithLogOutput :: "'w option \<Rightarrow> 'w gossip_Option" where
  "gossip_WithLogOutput w opts = opts\<lparr>gossip_logOutput := w\<rparr>"

definition gossip_resolveOptions :: "'w \<Rightarrow> 'w gossip_Option option list \<Rightarrow> 'w gossip_options" where
  "gossip_resolveOptions discard opts =
     (let resolved = fold (\<lambda>opt r. case opt of None \<Rightarrow> r | Some f \<Rightarrow> f r) opts \<lparr>gossip_logOutput = Some discard\<rparr>
      in if gossip_logOutput resolved = None then resolved\<lparr>gossip_logOutput := Some discard\<rparr> else resolved)"

section \<open>The contract of an options package\<close>

text \<open>The options in force decide: the last one that is not \<open>nil\<close>, unless it gives a \<open>nil\<close> writer.\<close>

definition chosen_output :: "'w \<Rightarrow> 'w option option list \<Rightarrow> 'w" where
  "chosen_output discard ws =
     (case filter (\<lambda>w. w \<noteq> None) ws of [] \<Rightarrow> discard
      | vs \<Rightarrow> (case last vs of Some (Some w) \<Rightarrow> w | _ \<Rightarrow> discard))"

locale log_options =
  fixes resolve :: "'w \<Rightarrow> ('o \<Rightarrow> 'o) option list \<Rightarrow> 'o"
    and with_output :: "'w option \<Rightarrow> 'o \<Rightarrow> 'o"
    and sink :: "'o \<Rightarrow> 'w option"
    and start :: "'w \<Rightarrow> 'o"
  assumes sink_start: "sink (start discard) = Some discard"
    and sink_with: "sink (with_output w r) = w"
    and sink_resolve: "sink (resolve discard opts) =
      Some (case sink (fold (\<lambda>opt r. case opt of None \<Rightarrow> r | Some f \<Rightarrow> f r) opts (start discard)) of
              None \<Rightarrow> discard | Some w \<Rightarrow> w)"
begin

lemma sink_fold:
  "sink (fold (\<lambda>opt r. case opt of None \<Rightarrow> r | Some f \<Rightarrow> f r) (map (map_option with_output) ws) o0) =
     (case filter (\<lambda>w. w \<noteq> None) ws of [] \<Rightarrow> sink o0 | vs \<Rightarrow> the (last vs))"
proof (induction ws rule: rev_induct)
  case Nil
  then show ?case by simp
next
  case (snoc w ws)
  then show ?case by (cases w) (auto simp: sink_with split: list.splits)
qed

lemma sink_chosen:
  "sink (resolve discard (map (map_option with_output) ws)) = Some (chosen_output discard ws)"
proof (cases "filter (\<lambda>w. w \<noteq> None) ws")
  case Nil
  then show ?thesis by (simp add: sink_resolve sink_fold chosen_output_def sink_start)
next
  case (Cons v vs)
  then have "last (v # vs) \<in> set (filter (\<lambda>w. w \<noteq> None) ws)" by simp
  then obtain w where "last (v # vs) = Some w" by auto
  with Cons show ?thesis
    by (cases w) (simp_all add: sink_resolve sink_fold chosen_output_def del: last.simps)
qed

end

interpretation srv_opts: log_options resolveOptions WithLogOutput logOutput "\<lambda>discard. \<lparr>logOutput = Some discard\<rparr>"
  by unfold_locales (auto simp: resolveOptions_def WithLogOutput_def Let_def)

interpretation gsp_opts: log_options gossip_resolveOptions gossip_WithLogOutput gossip_logOutput
    "\<lambda>discard. \<lparr>gossip_logOutput = Some discard\<rparr>"
  by unfold_locales (auto simp: gossip_resolveOptions_def gossip_WithLogOutput_def Let_def)

text \<open>
  Logs never go to a nil writer. Both option packages resolve any list of options,
  nil options included, to the writer of the last option that is not nil, and to the
  discarding writer when there is none or that option carries a nil writer; and whatever
  other options do, the writer is set.
\<close>

theorem log_output_resolved:
  "logOutput (resolveOptions discard (map (map_option WithLogOutput) ws)) = Some (chosen_output discard ws) \<and>
   gossip_logOutput (gossip_resolveOptions discard (map (map_option gossip_WithLogOutput) ws)) =
     Some (chosen_output discard ws) \<and>
   logOutput (resolveOptions discard opts) \<noteq> None \<and>
   gossip_logOutput (gossip_resolveOptions discard gopts) \<noteq> None"
  using srv_opts.sink_chosen [of discard ws] gsp_opts.sink_chosen [of discard ws]
    srv_opts.sink_resolve [of discard opts] gsp_opts.sink_resolve [of discard gopts]
  by simp

end
