(* ===== verification/Server.thy ===== *)
theory Server
  imports Handlers Router Options
begin

text \<open>
  The node's server of \<open>server/server.go\<close>: its construction with the table of handlers,
  \<open>handleCmd\<close>, which answers a request on this node or forwards it to the node that owns
  the key, the client connections to other nodes, the set-up of Raft and the handler of
  the admin endpoint \<open>/join\<close>.
\<close>

section \<open>The server\<close>

text \<open>
  The fields that do not change after construction. The store, the Raft node and the map of
  clients are in \<open>deps\<close> and \<open>sess\<close>; the multiplexer is the table below.
\<close>

record ('ring, 'w) Server =
  addr :: bytes
  router :: "'ring Router"
  shardID :: bytes
  srv_log :: "'w option"

definition NewServerWithOptions ::
  "'w \<Rightarrow> bytes \<Rightarrow> 'ring Router \<Rightarrow> bytes \<Rightarrow> 'w Option option list \<Rightarrow> ('ring, 'w) Server" where
  "NewServerWithOptions discard adr rt shard opts =
     \<lparr>addr = adr, router = rt, shardID = shard, srv_log = logOutput (resolveOptions discard opts)\<rparr>"

definition NewServer :: "'w \<Rightarrow> 'w \<Rightarrow> bytes \<Rightarrow> 'ring Router \<Rightarrow> bytes \<Rightarrow> ('ring, 'w) Server" where
  "NewServer discard stderr adr rt shard =
     NewServerWithOptions discard adr rt shard [Some (WithLogOutput (Some stderr))]"

text \<open>The registrations of \<open>NewServerWithOptions\<close>.\<close>

definition registered ::
  "('d, 't, 's, 'n) deps \<Rightarrow> env \<Rightarrow> ('ring, 'w) Server \<Rightarrow> (bytes \<times> ('d, 'c) handler) list" where
  "registered Y E S =
     [(''ping'', handlePing),
      (''client'', handleClient E (addr S)),
      (''set'', handleSet Y E),
      (''get'', handleGet Y E),
      (''del'', handleDel Y E),
      (''unlink'', handleDel Y E),
      (''type'', handleType Y E),
      (''keys'', handleKeys Y E),
      (''touch'', handleTouch Y E),
      (''persist'', handlePersist Y E),
      (''pttl'', handlePTTL Y E),
      (''mset'', handleMSet Y E),
      (''mget'', handleMGet Y E),
      (''flushdb'', handleFlushDB Y E),
      (''append'', handleAppend Y E),
      (''strlen'', handleStrLen Y E),
      (''getset'', handleGetSet Y E),
      (''incrby'', handleIncrBy Y E),
      (''decrby'', handleDecrBy Y E),
      (''setex'', handleSetEx Y E),
      (''incr'', handleIncr Y E),
      (''decr'', handleDecr Y E),
      (''exists'', handleExists Y E),
      (''expire'', handleExpire Y E),
      (''ttl'', handleTTL Y E),
      (''hset'', handleHSet Y E),
      (''hsetnx'', handleHSetNX Y E),
      (''hget'', handleHGet Y E),
      (''hgetall'', handleHGetAll Y E),
      (''hdel'', handleHDel Y E),
      (''hexists'', handleHExists Y E),
      (''hlen'', handleHLen Y E),
      (''hkeys'', handleHKeys Y E),
      (''hvals'', handleHVals Y E),
      (''hmget'', handleHMGet Y E),
      (''lpush'', handleLPush Y E),
      (''rpush'', handleRPush Y E),
      (''lpushx'', handleLPushX Y E),
      (''rpushx'', handleRPushX Y E),
      (''lpop'', handleLPop Y E),
      (''rpop'', handleRPop Y E),
      (''lrange'', handleLRange Y E),
      (''llen'', handleLLen Y E),
      (''lindex'', handleLIndex Y E),
      (''ltrim'', handleLTrim Y E),
      (''lrem'', handleLRem Y E),
      (''sadd'', handleSAdd Y E),
      (''smembers'', handleSMembers Y E),
      (''sismember'', handleSIsMember Y E),
      (''scard'', handleSCard Y E),
      (''srem'', handleSRem Y E),
      (''spop'', handleSPop Y E),
      (''srandmember'', handleSRandMember Y E),
      (''smismember'', handleSMIsMember Y E),
      (''eval'', handleEval Y E),
      (''evalsha'', handleEvalSha Y E),
      (''script'', handleScript Y E)]"

definition handlers ::
  "('d, 't, 's, 'n) deps \<Rightarrow> env \<Rightarrow> ('ring, 'w) Server \<Rightarrow> bytes \<Rightarrow> ('d, 'c) handler option" where
  "handlers Y E S = map_of (registered Y E S)"

section \<open>Other nodes\<close>

text \<open>
  The \<open>go-redis\<close> client: a constructor, and \<open>Do(...).Result()\<close> with its error or its
  dynamically typed value.
\<close>

datatype redis_err = RedisNil | RedisErr bytes

record 'c peers =
  newClient :: "bytes \<Rightarrow> 'c"
  redis_do :: "'c \<Rightarrow> bytes list \<Rightarrow> redis_err + goval"

text \<open>One call with no other in between; \<open>Clients\<close> has the interleavings.\<close>

definition getClient :: "'c peers \<Rightarrow> bytes \<Rightarrow> ('d, 'c) sess \<Rightarrow> 'c \<times> ('d, 'c) sess" where
  "getClient N adr s =
     (case clients s adr of
        Some client \<Rightarrow> (client, s)
      | None \<Rightarrow>
          (let client = newClient N adr in (client, s\<lparr>clients := (clients s)(adr \<mapsto> client)\<rparr>)))"

fun item_event :: "goval \<Rightarrow> wevent" where
  "item_event (GStr iv) = WBulkString iv"
| "item_event (GBytes iv) = WBulk (slice iv)"
| "item_event (GInt64 iv) = WInt64 iv"
| "item_event GNil = WNull"
| "item_event iv = WBulkString (fmt_v iv)"

fun proxy_events :: "redis_err + goval \<Rightarrow> wevent list" where
  "proxy_events (Inl RedisNil) = [WNull]"
| "proxy_events (Inl (RedisErr m)) =
     [WError (if prefix ''ERR'' m then m else ''ERR proxy error: '' @ m)]"
| "proxy_events (Inr (GStr v)) = [WBulkString v]"
| "proxy_events (Inr (GBytes v)) = [WBulk (slice v)]"
| "proxy_events (Inr (GInt64 v)) = [WInt64 v]"
| "proxy_events (Inr (GArr vs)) = WArray (int (length vs)) # map item_event vs"
| "proxy_events (Inr _) = [WString ''OK'']"

section \<open>Requests\<close>

definition crlf :: bytes where
  "crlf = [CHR 0x0D, CHR 0x0A]"

definition hello_reply :: bytes where
  "hello_reply =
     ''%2'' @ crlf @ ''$6'' @ crlf @ ''server'' @ crlf @ ''$5'' @ crlf @ ''redis'' @ crlf @
     ''$7'' @ crlf @ ''version'' @ crlf @ ''$5'' @ crlf @ ''7.0.0'' @ crlf"

text \<open>\<open>serve\<close> is the \<open>ServeRESP\<close> of the multiplexer.\<close>

definition handleCmd ::
  "('d, 't, 's, 'n) deps \<Rightarrow> 'c peers \<Rightarrow> ((bytes \<Rightarrow> ('d, 'c) handler option) \<Rightarrow> ('d, 'c) handler) \<Rightarrow> env \<Rightarrow>
   ('ring, 'w) Server \<Rightarrow> ('d, 'c) handler" where
  "handleCmd Y N serve E S s args =
     (case args of
        [] \<Rightarrow> Panicked ''index out of range''
      | name # rest \<Rightarrow>
          (let cmdName = toUpper (uni_upper E) name in
           if cmdName = ''HELLO'' then reply (WRaw hello_reply) s
           else if cmdName \<in> {''CLIENT'', ''EVAL'', ''EVALSHA'', ''SCRIPT''}
           then serve (handlers Y E S) s args
           else
             (case rest of
                [] \<Rightarrow>
                  if cmdName = ''PING'' \<or> cmdName = ''FLUSHDB'' then serve (handlers Y E S) s args
                  else reply (WError (arity_error_for (toLower (uni_lower E) cmdName))) s
              | key # _ \<Rightarrow>
                  (let (_, ip, isLocal) = LocateKey (router S) key in
                   if isLocal \<or> ip = [] then serve (handlers Y E S) s args
                   else
                     (let (client, s) = getClient N ip s
                      in Done (wrs (proxy_events (redis_do N client args)) s))))))"

text \<open>
  \<open>Start\<close> makes a \<open>redcon\<close> server on the node's address, which is the new \<open>redconServer\<close>,
  and returns what its \<open>ListenAndServe\<close> returns. \<open>Stop\<close> closes every client and that server,
  when there is one; the result is what it closes.
\<close>

definition Start ::
  "(bytes \<Rightarrow> 'rs) \<Rightarrow> ('rs \<Rightarrow> err option) \<Rightarrow> ('ring, 'w) Server \<Rightarrow> err option \<times> 'rs option" where
  "Start newServer listenAndServe S = (let rs = newServer (addr S) in (listenAndServe rs, Some rs))"

definition Stop :: "('d, 'c) sess \<Rightarrow> 'rs option \<Rightarrow> 'c set \<times> 'rs set" where
  "Stop s redconServer = (ran (clients s), set_option redconServer)"

section \<open>Raft\<close>

text \<open>
  The constructors \<open>SetupRaft\<close> calls, in order: resolving the address, the transport on it
  (with three pooled connections and a timeout of ten seconds), the node.
\<close>

record ('a, 'tr, 'f) raft_lib =
  resolveAddr :: "bytes \<Rightarrow> err + 'a"
  newTransport :: "bytes \<Rightarrow> 'a \<Rightarrow> int \<Rightarrow> int \<Rightarrow> err + 'tr"
  newRaft :: "bytes \<Rightarrow> 'tr \<Rightarrow> err + 'f"

definition SetupRaft ::
  "('a, 'tr, bytes \<Rightarrow> 'd \<Rightarrow> ((err + (err + goval)) \<times> 'd) option) raft_lib \<Rightarrow> bytes \<Rightarrow> bytes \<Rightarrow>
   ('d, 't, 's, 'n) deps \<Rightarrow> err option \<times> ('d, 't, 's, 'n) deps" where
  "SetupRaft R localID raftBindAddr Y =
     (case resolveAddr R raftBindAddr of
        Inl e \<Rightarrow> (Some e, Y)
      | Inr a \<Rightarrow>
          (case newTransport R raftBindAddr a 3 (10 * 1000000000) of
             Inl e \<Rightarrow> (Some e, Y)
           | Inr transport \<Rightarrow>
               (case newRaft R localID transport of
                  Inl e \<Rightarrow> (Some e, Y)
                | Inr r \<Rightarrow> (None, Y\<lparr>rf_apply := Some r\<rparr>))))"

text \<open>
  The admin endpoint. The Raft node says whether it leads, its configuration (an error or
  the members with their addresses), and takes a new voter: an error, or the member list
  with it. The answer is a status and a body, with the members afterwards. A request that
  arrives after \<open>StartAdmin\<close> and before \<open>SetupRaft\<close> has set \<open>s.raft\<close> is not covered: the handler
  panics on the nil node, and \<open>net/http\<close> closes the connection without an answer.
\<close>

record raft_admin =
  isLeader :: bool
  confErr :: "err option"
  addVoter :: "(bytes \<times> bytes) list \<Rightarrow> bytes \<Rightarrow> bytes \<Rightarrow> err + (bytes \<times> bytes) list"

definition handleRaftJoin ::
  "raft_admin \<Rightarrow> bytes \<Rightarrow> bytes \<Rightarrow> (bytes \<times> bytes) list \<Rightarrow> (int \<times> bytes) \<times> (bytes \<times> bytes) list" where
  "handleRaftJoin A nodeID adr members =
     (if \<not> isLeader A then ((400, ''Not the leader''), members)
      else
        (case confErr A of
           Some e \<Rightarrow> ((500, err_text e), members)
         | None \<Rightarrow>
             if list_ex (\<lambda>(i, a). i = nodeID \<or> a = adr) members then ((200, []), members)
             else
               (case addVoter A members nodeID adr of
                  Inl e \<Rightarrow> ((500, err_text e), members)
                | Inr members' \<Rightarrow> ((200, []), members'))))"

end
