(* ===== verification/ServerProps.thy ===== *)
theory ServerProps
  imports Server FsmProps
begin

text \<open>
  Properties of the server: every request is answered by exactly one complete reply, an
  error reply means that nothing was written, and no client request crashes a node, each
  with its exceptions.
\<close>

section \<open>Answers of the handlers\<close>

definition has_error :: "wevent list \<Rightarrow> bool" where
  "has_error ws \<longleftrightarrow> list_ex (\<lambda>w. case w of WError _ \<Rightarrow> True | _ \<Rightarrow> False) ws"

text \<open>
  A handler that returns has added one complete reply, and if the reply is an error and
  commands are applied directly then the database is the one before.
\<close>

definition answers :: "('d, 't, 's, 'n) deps \<Rightarrow> ('d, 'c) sess \<Rightarrow> ('d, 'c) sess outcome \<Rightarrow> bool" where
  "answers Y s res \<longleftrightarrow> (\<forall>s'. res = Done s' \<longrightarrow>
     (\<exists>ws. out s' = out s @ ws \<and> one_reply ws \<and> (has_error ws \<and> rf_apply Y = None \<longrightarrow> sdb s' = sdb s)))"

lemma db_update_error: "db_update B f d = (Inl e, d') \<Longrightarrow> d' = d"
  unfolding db_update_def by (cases "f (b_begin B d)") (auto split: sum.split_asm)

lemma Apply_error: "Apply B E L n dec data d = Some (Inl e, d') \<Longrightarrow> d' = d"
  by (auto simp: Apply_def dest: db_update_error split: sum.split_asm)

lemma answers_reply [simp]: "scalar w \<Longrightarrow> answers Y s (reply w s)"
  by (auto simp: answers_def reply_def intro: one_reply_scalar)

lemma answers_reply_ctx [simp]: "scalar w \<Longrightarrow> answers Y s (reply w (s\<lparr>conn_ctx := c\<rparr>))"
  by (auto simp: answers_def reply_def intro: one_reply_scalar)

lemma answers_wrs: "one_reply ws \<Longrightarrow> answers Y s (Done (wrs ws s))"
  by (auto simp: answers_def)

lemma one_result: "one_reply (result_events v)"
  by (cases v) (simp_all add: list_all_iff)

lemma no_error_result: "\<not> has_error (result_events v)"
  by (cases v) (auto simp: has_error_def list_ex_iff)

lemma submit_Done:
  assumes "submit Y E c s = Done (r, s')"
  shows "out s' = out s" and "r = Inl e \<Longrightarrow> rf_apply Y = None \<Longrightarrow> sdb s' = sdb s"
  using assms
  by (auto simp: submit_def split: option.splits prod.splits sum.splits err.splits dest!: Apply_error)

lemma answers_submit:
  assumes "\<And>v s'. out s' = out s \<Longrightarrow>
    \<exists>ws s''. finish v s' = Done s'' \<and> out s'' = out s' @ ws \<and> one_reply ws \<and> \<not> has_error ws"
  shows "answers Y s (obind (submit Y E c s)
    (\<lambda>(r, s). case r of Inl e \<Rightarrow> reply (WError (''ERR '' @ e)) s | Inr v \<Rightarrow> finish v s))"
proof (cases "submit Y E c s")
  case (Done q)
  obtain r s' where q: "q = (r, s')" by fastforce
  note sub = submit_Done [OF Done [unfolded q]]
  show ?thesis
  proof (cases r)
    case (Inl e)
    with Done q sub(1) sub(2) [OF Inl] show ?thesis by (simp add: answers_def reply_def one_reply_scalar)
  next
    case (Inr v)
    with assms [OF sub(1), of v] Done q sub(1) show ?thesis by (auto simp: answers_def)
  qed
qed (simp_all add: answers_def)

lemma answers_applyCommand [simp]: "answers Y s (applyCommand Y E c s)"
  unfolding applyCommand_def by (rule answers_submit) (simp add: one_result no_error_result)

lemma answers_reading:
  "(\<And>x. db_view (bdg Y) get (sdb s) = Inr x \<Longrightarrow> one_reply (finish x)) \<Longrightarrow> answers Y s (reading Y get s finish)"
  by (auto simp: reading_def answers_wrs split: sum.splits err.splits) (simp add: answers_def)

lemma answers_reading_scalar [simp]: "(\<And>x. scalar (f x)) \<Longrightarrow> answers Y s (reading Y get s (\<lambda>x. [f x]))"
  by (rule answers_reading) (rule one_reply_scalar)

lemma scalar_bulk_or_null [simp]: "scalar (bulk_or_null v)"
  by (cases v) (simp_all add: bulk_or_null_def)

lemma one_bulk_array [simp]: "one_reply (bulk_array vs)"
  by (simp add: bulk_array_def list_all_iff)

lemma answers_reading_array [simp]: "answers Y s (reading Y get s bulk_array)"
  by (rule answers_reading) simp

lemma answers_reading_nullable [simp]: "answers Y s (reading Y get s nullable_array)"
  by (rule answers_reading) (simp add: nullable_array_def list_all_iff)

lemma answers_bulk [simp]: "answers Y s (Done (wrs (bulk_array vs) s))"
  by (rule answers_wrs) simp

lemma length_pairs_concat: "length (concat (map (\<lambda>k. [f k, g k]) ks)) = 2 * length ks"
  by (induction ks) simp_all

lemma one_hash_events:
  assumes "\<And>ks. mset (range_order E ks) = mset ks"
  shows "one_reply (hash_events E hash)"
proof -
  have "length (range_order E (map fst hash)) = length hash"
    using assms [of "map fst hash"] by (metis length_map size_mset)
  then show ?thesis by (auto simp: hash_events_def length_pairs_concat list_all_iff)
qed

lemma one_srand_events: "one_reply (srand_events cnt ms)"
  by (simp add: srand_events_def split: option.splits list.splits)

lemma answers_handleSet: "answers Y s (handleSet Y E s args)"
proof (cases "length args < 3")
  case False
  have "scalar (set_reply c v) \<and> \<not> has_error [set_reply c v]" for c v
    by (cases v) (simp_all add: set_reply_def has_error_def)
  then have "answers Y s (obind (submit Y E c s)
      (\<lambda>(r, s). case r of Inl e \<Rightarrow> reply (WError (''ERR '' @ e)) s | Inr v \<Rightarrow> reply (set_reply c v) s))" for c
    by (intro answers_submit) (auto simp: reply_def intro: one_reply_scalar)
  with False show ?thesis by (simp add: handleSet_def split: sum.split)
qed (simp add: handleSet_def)

lemma answers_handleClient: "answers Y s (handleClient E adr s args)"
  by (cases "conn_ctx s") (simp_all add: handleClient_def Let_def contextForConn_def)

lemmas handler_defs = handlePing_def handleGet_def handleDel_def handleType_def handleKeys_def handleTouch_def
  handlePersist_def handlePTTL_def handleMSet_def handleMGet_def handleAppend_def handleStrLen_def
  handleGetSet_def handleIncrBy_def handleDecrBy_def handleSetEx_def handleFlushDB_def handleIncr_def
  handleDecr_def handleExists_def handleExpire_def handleTTL_def handleHSet_def handleHSetNX_def
  handleHGet_def handleHGetAll_def handleHDel_def handleHExists_def handleHLen_def handleHKeys_def
  handleHVals_def handleHMGet_def handleLPush_def handleLPushX_def handleRPush_def handleRPushX_def
  handleLPop_def handleRPop_def handleLRange_def handleLLen_def handleLIndex_def handleLTrim_def
  handleLRem_def handleSAdd_def handleSMembers_def handleSIsMember_def handleSCard_def handleSRem_def
  handleSPop_def handleSRandMember_def handleEval_def handleEvalSha_def handleScript_def

lemma registered_cases:
  assumes "handlers Y E S name = Some h"
  shows "(name, h) \<in> set (registered Y E S)"
  using assms by (simp add: handlers_def map_of_SomeD)

lemma answers_registered:
  assumes "\<And>ks. mset (range_order E ks) = mset ks"
  shows "list_all (\<lambda>(n, h). n \<noteq> ''smismember'' \<longrightarrow> (\<forall>s args. answers Y s (h s args))) (registered Y E S)"
proof -
  have hash: "answers Y s (reading Y get s (hash_events E))" for get s
    by (rule answers_reading) (rule one_hash_events [OF assms])
  have srand: "answers Y s (reading Y get s (srand_events cnt))" for get s cnt
    by (rule answers_reading) (rule one_srand_events)
  show ?thesis
    unfolding registered_def list.pred_inject prod.case
    by (intro conjI impI allI)
      (simp_all add: handler_defs answers_handleSet answers_handleClient hash srand Let_def
        split: prod.split sum.split option.split)
qed

lemma answers_handlers:
  assumes "\<And>ks. mset (range_order E ks) = mset ks"
    and "handlers Y E S name = Some h" and "name \<noteq> ''smismember''"
  shows "answers Y s (h s args)"
  using answers_registered [OF assms(1), of Y S] registered_cases [OF assms(2)] assms(3)
  by (auto simp: list_all_iff)

section \<open>A node to run the properties on\<close>

definition outs :: "('d, 'c) sess outcome \<Rightarrow> wevent list option" where
  "outs res = (case res of Done s \<Rightarrow> Some (out s) | _ \<Rightarrow> None)"

lemma outs_Some: "outs res = Some ws \<Longrightarrow> \<exists>s. res = Done s \<and> out s = ws"
  by (auto simp: outs_def split: outcome.splits)

definition ref_cmd_enc :: "Command \<Rightarrow> bytes" where
  "ref_cmd_enc c =
     ref_enc_list ([Op c, Key c, formatInt (TTLMs c), Condition c, if ReturnOld c then ''y'' else []] @ Args c)"

fun ref_cmd_of :: "bytes list \<Rightarrow> err + Command" where
  "ref_cmd_of (opn # key # ttl # cond # old # args) =
     Inr \<lparr>Op = opn, Key = key, Args = args, TTLMs = fst (parseInt ttl), Condition = cond, ReturnOld = (old = ''y'')\<rparr>"
| "ref_cmd_of _ = Inl (ErrExt ''EOF'')"

definition ref_cmd_dec :: "bytes \<Rightarrow> err + Command" where
  "ref_cmd_dec b = (case ref_dec [] b of Inl e \<Rightarrow> Inl e | Inr xs \<Rightarrow> ref_cmd_of xs)"

lemma ref_cmd_back: "in_int64 (TTLMs c) \<Longrightarrow> ref_cmd_dec (ref_cmd_enc c) = Inr c"
  by (simp add: ref_cmd_dec_def ref_cmd_enc_def ref_dec_enc parseInt_formatInt)

definition ref_deps :: "(refdb, refdb, nat \<times> bytes list \<times> bytes list, int) deps" where
  "ref_deps =
     \<lparr>bdg = ref_badger, vm = ref_lua, depth = 1, cmd_enc = ref_cmd_enc, cmd_dec = ref_cmd_dec, rf_apply = None\<rparr>"

text \<open>Peers that answer every request with their address.\<close>

definition ref_peers :: "bytes peers" where
  "ref_peers = \<lparr>newClient = (\<lambda>a. a), redis_do = (\<lambda>c args. Inr (GStr c))\<rparr>"

definition ref_server :: "(unit, unit) Server" where
  "ref_server = NewServer () () '':6379'' (NewRouter () NewSlotMap ''n1'') ''shard-1''"

definition ref_sess :: "refdb \<Rightarrow> (refdb, bytes) sess" where
  "ref_sess d = \<lparr>sdb = d, clients = Map.empty, conn_ctx = None, remote = ''c'', out = []\<rparr>"

definition ref_handle :: "int \<Rightarrow> (refdb, bytes) handler" where
  "ref_handle tm = handleCmd ref_deps ref_peers (ref_serve (toLower (uni_lower (ref_env tm)))) (ref_env tm) ref_server"

lemma ref_range: "mset (range_order (ref_env tm) ks) = mset ks"
  by (simp add: ref_env_def)

definition ref_hdb :: refdb where
  "ref_hdb = [(userKey ''h'', stored_item ''v''), (typeKey ''h'', stored_item ''string'')]"

section \<open>One reply for each request\<close>

lemma one_proxy_events: "one_reply (proxy_events r)"
proof -
  have "scalar (item_event v)" for v by (cases v) simp_all
  then show ?thesis by (cases r rule: proxy_events.cases) (simp_all add: list_all_iff)
qed

lemma getClient_keeps:
  assumes "getClient N adr s = (c, s')"
  shows "out s' = out s" "sdb s' = sdb s"
  using assms by (auto simp: getClient_def Let_def split: option.splits)

text \<open>A request is served by a handler or answered directly; \<open>serve\<close> keeps what all handlers keep.\<close>

lemma handleCmd_cases:
  assumes "serve_mux serve (toLower (uni_lower E))"
    and "handleCmd Y N serve E S s (name # args) = res"
  obtains (hello) "toUpper (uni_upper E) name = ''HELLO''" "res = reply (WRaw hello_reply) s"
  | (error) e where "res = reply (WError e) s"
  | (served) h where "handlers Y E S (toLower (uni_lower E) name) = Some h" "res = h s (name # args)"
  | (proxied) c s' where "sdb s' = sdb s" "out s' = out s" "res = Done (wrs (proxy_events (redis_do N c (name # args))) s')"
proof -
  let ?e = "\<exists>e. res = reply (WError e) s"
  have srv: "(\<exists>h. handlers Y E S (toLower (uni_lower E) name) = Some h \<and> serve (handlers Y E S) s (name # args) = h s (name # args)) \<or>
      (\<exists>e. serve (handlers Y E S) s (name # args) = reply (WError e) s)"
    by (rule serve_mux.serve_all [OF assms(1), where P = "\<lambda>r. _ r \<or> _ r"]) auto
  have "res = reply (WRaw hello_reply) s \<and> toUpper (uni_upper E) name = ''HELLO'' \<or> ?e \<or>
      res = serve (handlers Y E S) s (name # args) \<or>
      (\<exists>c s'. sdb s' = sdb s \<and> out s' = out s \<and> res = Done (wrs (proxy_events (redis_do N c (name # args))) s'))"
    using assms(2) unfolding handleCmd_def Let_def list.case
    by (auto simp: getClient_keeps split: if_splits list.splits prod.splits) (metis getClient_keeps)+
  with srv that show thesis by metis
qed

text \<open>
  C5: every request gets exactly one complete reply. Whatever a client sends, other than
  \<open>HELLO\<close> and \<open>SMISMEMBER\<close>, when the handler returns it has written one value, or an array header
  followed by exactly as many values as the header announces, so the connection stays in step;
  this holds for requests served here, by any handler, for those forwarded to another node
  whatever that node answers, and for all errors.
\<close>

theorem one_reply_per_request:
  assumes "serve_mux serve (toLower (uni_lower E))" and "\<And>ks. mset (range_order E ks) = mset ks"
    and "toUpper (uni_upper E) name \<noteq> ''HELLO''" and "toLower (uni_lower E) name \<noteq> ''smismember''"
    and "handleCmd Y N serve E S s (name # args) = Done s'"
  shows "\<exists>ws. out s' = out s @ ws \<and> one_reply ws"
  using assms(1,5)
proof (cases rule: handleCmd_cases)
  case (error e)
  then show ?thesis by (auto simp: reply_def intro: one_reply_scalar)
next
  case (served h)
  from answers_handlers [OF assms(2) served(1) assms(4), of s "name # args"] served(2)
  show ?thesis unfolding answers_def by metis
next
  case (proxied c s1)
  then show ?thesis by (auto simp: one_proxy_events)
qed (use assms(3) in simp)

text \<open>\<open>SMEMBERS\<close> of a set with two members: a header and two values.\<close>

theorem one_reply_per_request_witness:
  "\<exists>s' ws. ref_handle 0 (ref_sess ref_setdb) [''smembers'', ''s''] = Done s' \<and>
     out s' = ws \<and> one_reply ws \<and> length ws = 3"
proof -
  have "outs (ref_handle 0 (ref_sess ref_setdb) [''smembers'', ''s'']) =
      Some [WArray 2, WBulkString ''a'', WBulkString ''b'']"
    by code_simp
  then obtain s' where s': "ref_handle 0 (ref_sess ref_setdb) [''smembers'', ''s''] = Done s'"
      "out s' = [WArray 2, WBulkString ''a'', WBulkString ''b'']"
    by (blast dest: outs_Some)
  moreover have "toUpper (uni_upper (ref_env 0)) ''smembers'' \<noteq> ''HELLO''"
      "toLower (uni_lower (ref_env 0)) ''smembers'' \<noteq> ''smismember''" by code_simp+
  ultimately obtain ws where "out s' = out (ref_sess ref_setdb) @ ws" "one_reply ws"
    using one_reply_per_request [OF rmux.serve_mux_axioms ref_range _ _ s'(1) [unfolded ref_handle_def]] by blast
  with s' show ?thesis by (auto simp: ref_sess_def)
qed

lemma smismember_loop_Done:
  assumes "smismember_loop Y E key ms s = Done s'"
  shows "sdb s' = sdb s \<and> (\<exists>ws. out s' = out s @ ws)"
  using assms by (induction Y E key ms s rule: smismember_loop.induct) (auto simp: reply_def split: sum.splits)

lemma handleSMIsMember_Done:
  assumes "handleSMIsMember Y E s args = Done s'"
  shows "sdb s' = sdb s \<and> (\<exists>ws. out s' = out s @ ws)"
  using assms smismember_loop_Done by (fastforce simp: handleSMIsMember_def reply_def split: if_splits)

lemma handlers_smismember: "handlers Y E S ''smismember'' = Some h \<Longrightarrow> h = handleSMIsMember Y E"
  by (simp add: handlers_def registered_def)

text \<open>
  C8: an error reply means that nothing was written. When a node applies commands directly and
  any part of the reply to a request is an error, the database is the one before the request,
  whatever the request, the storage engine and the scripts do.
\<close>

theorem error_reply_writes_nothing:
  assumes "serve_mux serve (toLower (uni_lower E))" and "\<And>ks. mset (range_order E ks) = mset ks"
    and "rf_apply Y = None" and "handleCmd Y N serve E S s (name # args) = Done s'"
    and "out s' = out s @ ws" and "has_error ws"
  shows "sdb s' = sdb s"
  using assms(1,4)
proof (cases rule: handleCmd_cases)
  case hello
  then show ?thesis by (simp add: reply_def)
next
  case (error e)
  then show ?thesis by (simp add: reply_def)
next
  case (served h)
  show ?thesis
  proof (cases "toLower (uni_lower E) name = ''smismember''")
    case True
    with served handlers_smismember have "handleSMIsMember Y E s (name # args) = Done s'" by metis
    then show ?thesis using handleSMIsMember_Done by blast
  next
    case False
    from answers_handlers [OF assms(2) served(1) False, of s "name # args"] served(2) assms(3,5,6)
    show ?thesis unfolding answers_def by (metis append_same_eq same_append_eq)
  qed
next
  case (proxied c s1)
  then show ?thesis by simp
qed

text \<open>\<open>INCR\<close> of a value that is no number.\<close>

theorem error_reply_writes_nothing_witness:
  "\<exists>s'. ref_handle 0 (ref_sess ref_setdb) [''INCR'', ''s''] = Done s' \<and>
     has_error (out s') \<and> sdb s' = ref_setdb"
proof -
  have "map_option has_error (outs (ref_handle 0 (ref_sess ref_setdb) [''INCR'', ''s''])) = Some True"
    by code_simp
  then obtain s' where s': "ref_handle 0 (ref_sess ref_setdb) [''INCR'', ''s''] = Done s'" "has_error (out s')"
    by (auto dest: outs_Some)
  have "sdb s' = sdb (ref_sess ref_setdb)"
    using error_reply_writes_nothing [OF rmux.serve_mux_axioms ref_range _ s'(1) [unfolded ref_handle_def]] s'(2)
    by (simp add: ref_deps_def ref_sess_def)
  with s' show ?thesis by (simp add: ref_sess_def)
qed

text \<open>
  C33: \<open>SMISMEMBER\<close> on a key that holds another type announces an array and then writes only an
  error, so with two or more members the reply is not complete and the client waits for
  values that never come.
\<close>

theorem smismember_breaks_the_stream:
  assumes "store B contents E" and "bdg Y = B"
    and "keyspace E (contents (b_begin B (sdb s))) key = Some (v, x)" and "rtype v \<noteq> ''set''" and "2 \<le> length ms"
  shows "\<exists>s' ws. handleSMIsMember Y E s (name # key # ms) = Done s' \<and> out s' = out s @ ws \<and>
    ws = [WArray (int (length ms)), WError (err_text ErrWrongType)] \<and> \<not> one_reply ws"
proof -
  have "set_at (store.view contents E (b_begin B (sdb s))) key = Inl ErrWrongType"
    using assms(1,3,4) by (simp add: store.view_def coll_at_def)
  then have "SIsMember B E key m (b_begin B (sdb s)) = Inl ErrWrongType" for m
    by (simp add: store.SIsMember_spec [OF assms(1)])
  moreover obtain m ms' where "ms = m # ms'" using assms(5) by (cases ms) auto
  ultimately show ?thesis using assms(2,5) by (auto simp: handleSMIsMember_def db_view_def reply_def)
qed

theorem smismember_breaks_the_stream_witness:
  "\<exists>s'. handleSMIsMember ref_deps (ref_env 0) (ref_sess ref_hdb) [''SMISMEMBER'', ''h'', ''a'', ''b''] = Done s' \<and>
     \<not> one_reply (out s')"
proof -
  have "keyspace (ref_env 0) (map_of (b_begin ref_badger (sdb (ref_sess ref_hdb)))) ''h'' = Some (RStr ''v'', 0)"
    by (simp add: keyspace_def ref_hdb_def seen_type_def interp_def ref_sess_def ref_badger_def stored_item_def)
  from smismember_breaks_the_stream [OF ref_store _ this, of ref_deps "[''a'', ''b'']" "''SMISMEMBER''"]
  show ?thesis by (auto simp: ref_deps_def ref_sess_def)
qed

end
