(* ===== verification/CrashProps.thy ===== *)
theory CrashProps
  imports ServerProps ReadProps
begin

text \<open>
  Which requests can crash a node. The state machine panics on commands with missing
  arguments (an index out of range); the handlers check the arguments, and these lemmas
  show that the checks are enough. One read panics on a count the handler lets through.
\<close>

section \<open>Results that are no panic\<close>

definition calm :: "err + 'a \<Rightarrow> bool" where
  "calm r \<longleftrightarrow> (\<forall>g. r \<noteq> Inl (GoPanic g))"

text \<open>Decoding returns errors, it does not panic.\<close>

definition codec_calm :: "env \<Rightarrow> bool" where
  "codec_calm E \<longleftrightarrow> (\<forall>b. calm (mp_dec_list E b) \<and> calm (mp_dec_map E b))"

definition calm_space :: "keyspace \<Rightarrow> bool" where
  "calm_space m \<longleftrightarrow> (\<forall>k tg e x g. m k = Some (RBad tg e, x) \<longrightarrow> e \<noteq> GoPanic g)"

text \<open>The commands whose \<open>case\<close> indexes its arguments have them.\<close>

definition enough_args :: "Command \<Rightarrow> bool" where
  "enough_args cmd \<longleftrightarrow>
     (Op cmd \<in> {''INCRBY'', ''DECRBY''} \<longrightarrow> Args cmd \<noteq> []) \<and>
     (Op cmd \<in> {''LTRIM'', ''LREM''} \<longrightarrow> 2 \<le> length (Args cmd))"

lemma calm_simps [simp]: "calm (Inr x)" "calm (Inl ErrWrongType)" "calm (Inl (Errf m))"
  "calm (Inl ErrKeyNotFound)" "calm (Inl not_an_integer)"
  by (simp_all add: calm_def not_an_integer_def)

lemma calm_case [simp]:
  "calm r \<Longrightarrow> (\<And>x. calm (f x)) \<Longrightarrow> calm (case r of Inl e \<Rightarrow> Inl e | Inr x \<Rightarrow> f x)"
  by (cases r) (simp_all add: calm_def)

lemma calm_Inl: "calm (Inl e :: err + 'a) \<Longrightarrow> calm (Inl e :: err + 'b)"
  by (simp add: calm_def)

lemma calm_fst_case:
  "calm r \<Longrightarrow> (\<And>x. calm (fst (f x))) \<Longrightarrow> calm (fst (case r of Inl e \<Rightarrow> (Inl e, m) | Inr x \<Rightarrow> f x))"
  by (cases r) (simp_all add: calm_def)

lemma calm_keyspace: "codec_calm E \<Longrightarrow> calm_space (keyspace E c)"
  unfolding calm_space_def codec_calm_def calm_def keyspace_def interp_def
  by (auto split: option.splits if_splits sum.splits)

lemma calm_coll_at: "calm_space m \<Longrightarrow> calm (coll_at tag sel m key)"
  by (auto simp: coll_at_def calm_def calm_space_def split: option.splits rval.splits)

lemma calm_str_at: "calm (str_at m key)"
  by (simp add: str_at_def split: option.splits rval.splits)

lemma calm_list_or_empty: "calm_space m \<Longrightarrow> calm (list_or_empty B E m key)"
  unfolding list_or_empty_def by (rule calm_case) (auto simp: calm_coll_at split: option.splits)

lemma calm_num_at: "calm (num_at m key)"
  unfolding num_at_def by (rule calm_case) (auto simp: calm_str_at split: option.splits prod.splits)

lemma calm_popCount: "calm (popCount cmd)"
  by (simp add: popCount_def split: list.splits prod.splits option.splits)

lemma calm_counterDelta: "enough_args cmd \<Longrightarrow> calm (counterDelta cmd)"
  by (auto simp: enough_args_def counterDelta_def split: list.splits prod.splits option.splits)

lemma calm_spec_plain:
  assumes "calm_space m" and "enough_args cmd"
  shows "calm (fst (spec_plain B E cmd popped m))"
proof -
  note at = calm_coll_at [OF assms(1)] calm_list_or_empty [OF assms(1)]
  have "calm (fst (spec_set B E cmd m))"
    unfolding spec_set_def by (rule calm_fst_case [OF calm_str_at]) (simp add: Let_def)
  moreover have "calm (fst (spec_incr B E cmd m))"
    unfolding spec_incr_def
    by (rule calm_fst_case [OF calm_num_at])
      (auto simp: Let_def intro!: calm_fst_case calm_counterDelta [OF assms(2)] split: prod.split)
  moreover have "calm (fst (spec_push B E cmd m))" "calm (fst (spec_pop B E cmd m))"
    unfolding spec_push_def spec_pop_def
    by (rule calm_fst_case [OF at(2)]; auto simp: Let_def intro!: calm_fst_case calm_popCount split: prod.split)+
  moreover have "calm (fst (spec_list_update B E (Key cmd) f reply m))" for f reply
    unfolding spec_list_update_def by (rule calm_fst_case [OF at(2)]) (auto split: prod.split)
  moreover have "calm (fst (spec_hset B E cmd m))"
    unfolding spec_hset_def by (auto simp: Let_def intro!: calm_fst_case at(1) split: prod.split option.split)
  moreover have "calm (fst (spec_hdel B E cmd m))" "calm (fst (spec_sadd B E cmd m))"
      "calm (fst (spec_srem B E cmd m))" "calm (fst (spec_spop B E cmd popped m))"
    unfolding spec_hdel_def spec_sadd_def spec_srem_def spec_spop_def
    by (rule calm_fst_case [OF at(1)]; auto simp: Let_def split: prod.split option.split)+
  moreover have "calm (fst (spec_del cmd m))" "calm (fst (spec_expire B E cmd m))" "calm (fst (spec_persist cmd m))"
    by (simp_all add: spec_del_def spec_expire_def spec_persist_def split: option.split)
  ultimately show ?thesis
    using assms(2) unfolding spec_plain_def
    by (simp add: Let_def spec_two_args_def enough_args_def)
qed

section \<open>Reads\<close>

context store
begin

lemma calm_b_get: "calm (b_get B tm k t)"
  by (simp add: b_get_eq split: option.split)

lemma calm_b_copy: "calm (b_copy B it)"
  using copy_ok [of it] by (auto simp: calm_def)

lemma calm_type: "calm (ensureExistingType B E key want t)"
  by (simp add: ensureExistingType_def getExistingType_view)

text \<open>Not finding a key is an answer.\<close>

lemma calm_found:
  "(\<And>it. calm (f it)) \<Longrightarrow>
   calm (case b_get B tm k t of Inl e \<Rightarrow> if e = ErrKeyNotFound then Inr x else Inl e | Inr it \<Rightarrow> f it)"
  by (simp add: b_get_eq split: option.split)

lemma calm_readTyped: "(\<And>d. calm (dec d)) \<Longrightarrow> calm (readTyped B E want dec key t)"
  unfolding readTyped_def by (intro calm_found calm_case calm_type calm_b_copy) simp_all

lemma calm_GetString: "calm (GetString B E key t)"
  using calm_str_at [of "view t" key] unfolding GetString_spec
  by (auto simp: calm_def split: sum.splits option.splits)

lemma calm_GetStrings: "calm (GetStrings B E keys t)"
  by (induction keys) (auto intro!: calm_case calm_found calm_b_copy)

lemma calm_Exists: "calm (Exists B E keys t)"
proof -
  have "calm (exists_loop B E keys n t)" for n
    by (induction keys arbitrary: n) (simp_all add: b_get_eq split: option.split)
  then show ?thesis by (simp add: Exists_def)
qed

lemma calm_ttl: "calm (TTL B E key t)" "calm (PTTL B E key t)"
  unfolding TTL_def PTTL_def by (intro calm_found; simp add: Let_def)+

lemma calm_Type: "calm (Type B E key t)"
  unfolding Type_def by (intro calm_found calm_case calm_b_copy calm_simps)

lemma calm_StrLen: "calm (StrLen B E key t)"
  unfolding StrLen_def by (intro calm_case calm_GetString) (simp split: option.split)

lemma calm_hash:
  assumes "codec_calm E"
  shows "calm (HGet B E key field t)" "calm (HGetAll B E key t)" "calm (HLen B E key t)"
    "calm (HExists B E key field t)" "calm (HMGet B E key fs t)" "calm (HKeys B E key t)" "calm (HVals B E key t)"
proof -
  have dec: "calm (decodeMsgpack_map E d)" for d
    using assms by (simp add: codec_calm_def decodeMsgpack_map_def)
  show all: "calm (HGetAll B E key t)"
    unfolding HGetAll_def by (intro calm_case calm_readTyped dec) (simp split: option.split)
  show "calm (HGet B E key field t)"
    unfolding HGet_def by (intro calm_case calm_readTyped dec) (simp split: option.split)
  show "calm (HLen B E key t)" "calm (HExists B E key field t)" "calm (HMGet B E key fs t)"
    "calm (HKeys B E key t)" "calm (HVals B E key t)"
    unfolding HLen_def HExists_def HMGet_def HKeys_def HVals_def by (intro calm_case all; simp)+
qed

lemma calm_list:
  assumes "codec_calm E"
  shows "calm (LRange B E key start stop t)" "calm (LLen B E key t)" "calm (LIndex B E key i t)"
proof -
  have dec: "calm (decodeMsgpack_list E d)" for d
    using assms by (simp add: codec_calm_def decodeMsgpack_list_def)
  have all: "calm (LRange B E key start stop t)" for start stop
    unfolding LRange_def by (intro calm_case calm_readTyped dec) (simp split: option.split)
  show "calm (LRange B E key start stop t)" by (rule all)
  show "calm (LLen B E key t)" "calm (LIndex B E key i t)"
    unfolding LLen_def LIndex_def by (intro calm_case all; simp add: Let_def)+
qed

lemma calm_set:
  assumes "codec_calm E"
  shows "calm (SMembers B E key t)" "calm (SCard B E key t)" "calm (SIsMember B E key m t)"
    and "(\<And>c. cnt = Some c \<Longrightarrow> in_int64 c \<and> - 17592186044416 \<le> c) \<Longrightarrow> calm (SRandMember B E key cnt t)"
proof -
  have dec: "calm (decodeMsgpack_list E d)" for d
    using assms by (simp add: codec_calm_def decodeMsgpack_list_def)
  show all: "calm (SMembers B E key t)"
    unfolding SMembers_def by (intro calm_case calm_readTyped dec) (simp split: option.split)
  show "calm (SCard B E key t)" unfolding SCard_def by (intro calm_case all) simp
  show "calm (SIsMember B E key m t)" unfolding SIsMember_def by (intro calm_case calm_readTyped dec) simp
  assume cnt: "\<And>c. cnt = Some c \<Longrightarrow> in_int64 c \<and> - 17592186044416 \<le> c"
  have "\<not> slice_too_long 16 (wrap64 (- c))" if "cnt = Some c" "c < 0" for c
  proof -
    have "wrap64 (- c) = - c" using cnt [OF that(1)] that(2) by (intro wrap64_id) (auto simp: in_int64_def)
    with cnt [OF that(1)] that(2) show ?thesis by (simp add: slice_too_long_def)
  qed
  then show "calm (SRandMember B E key cnt t)"
    unfolding SRandMember_def by (intro calm_case all) (auto split: option.split)
qed

lemma update_calm:
  assumes "codec_calm E" and "enough_args cmd"
  shows "calm (fst (db_update B (applyPlain B E cmd) d))"
proof -
  obtain popped where "(case db_update B (applyPlain B E cmd) d of
        (r, d') \<Rightarrow> (map_sum id norm r, view (b_begin B d'))) = spec_plain B E cmd popped (view (b_begin B d))"
    using update_refines by blast
  then have "map_sum id norm (fst (db_update B (applyPlain B E cmd) d)) =
      fst (spec_plain B E cmd popped (view (b_begin B d)))"
    by (metis (mono_tags, lifting) case_prod_beta fst_conv)
  moreover have "calm (fst (spec_plain B E cmd popped (view (b_begin B d))))"
    unfolding view_def by (intro calm_spec_plain calm_keyspace assms)
  ultimately show ?thesis by (auto simp: calm_def) (metis map_sum.simps(1) id_apply)
qed

end

section \<open>Handlers that return\<close>

text \<open>
  A node that applies commands directly, on a storage engine and codecs that keep their
  contracts; a log entry decodes to the command it was made from.
\<close>

locale direct_node = store B contents E
  for B :: "('d, 't) badger" and contents :: "'t \<Rightarrow> bytes \<Rightarrow> item option" and E :: env +
  fixes Y :: "('d, 't, 's, 'n) deps"
  assumes engine: "bdg Y = B" and direct: "rf_apply Y = None"
    and entry_back: "in_int64 (TTLMs c) \<Longrightarrow> cmd_dec Y (cmd_enc Y c) = Inr c"
begin

lemma submit_plain:
  assumes "Op c \<notin> lua_ops" and "in_int64 (TTLMs c)"
    and "db_update B (applyPlain B E c) (sdb s) = (r, d)" and "calm r"
  shows "submit Y E c s = Done (map_sum err_text id r, s\<lparr>sdb := d\<rparr>)"
proof -
  have "Apply B E (vm Y) (depth Y) (cmd_dec Y) (cmd_enc Y c) (sdb s) = Some (r, d)"
    by (subst Apply_plain [where cmd = c]) (simp_all add: entry_back assms(1-3))
  with assms(4) show ?thesis by (auto simp: submit_def engine direct calm_def split: sum.splits err.splits)
qed

end

definition returns :: "'a outcome \<Rightarrow> bool" where
  "returns res \<longleftrightarrow> (\<exists>s'. res = Done s')"

lemma returns_reply [simp]: "returns (reply w s)" "returns (Done s)"
  by (simp_all add: returns_def reply_def)

lemma option_ttl_range: "in_int64 v \<Longrightarrow> in_int64 (option_ttl E opt v)"
proof -
  have "in_int64 (1 :: int)" by (simp add: in_int64_def)
  then show "in_int64 v \<Longrightarrow> in_int64 (option_ttl E opt v)" by (simp add: option_ttl_def Let_def)
qed

text \<open>One option is taken off the list; it changes neither the command nor its arguments.\<close>

lemma set_options_step:
  assumes "set_options E (a # r) c = Inr c'" and "in_int64 (TTLMs c)"
  shows "\<exists>r' c1. length r' \<le> length r \<and> set_options E r' c1 = Inr c' \<and> Op c1 = Op c \<and> Key c1 = Key c \<and>
    Args c1 = Args c \<and> in_int64 (TTLMs c1)"
proof -
  consider (flag) c1 where "set_options E r c1 = Inr c'" "Op c1 = Op c" "Key c1 = Key c" "Args c1 = Args c" "TTLMs c1 = TTLMs c"
    | (ttl) opt n r' v where "r = n # r'" "parseInt n = (v, None)"
      "set_options E r' (c\<lparr>TTLMs := option_ttl E opt v\<rparr>) = Inr c'"
    using assms(1) unfolding set_options.simps Let_def
    by (fastforce split: if_split_asm list.split_asm prod.split_asm option.split_asm)
  then show ?thesis
  proof cases
    case flag
    with assms(2) show ?thesis by (intro exI [of _ r] exI [of _ c1]) simp
  next
    case ttl
    moreover have "in_int64 v" using parseInt_range [of n] ttl(2) by simp
    ultimately show ?thesis by (intro exI [of _ r'] exI [of _ "c\<lparr>TTLMs := option_ttl E opt v\<rparr>"]) (simp add: option_ttl_range)
  qed
qed

lemma set_options_keeps:
  assumes "set_options E os c = Inr c'" and "in_int64 (TTLMs c)"
  shows "Op c' = Op c \<and> Key c' = Key c \<and> Args c' = Args c \<and> in_int64 (TTLMs c')"
  using assms
proof (induction os arbitrary: c rule: measure_induct_rule [of length])
  case (less os)
  show ?case
  proof (cases os)
    case (Cons a r)
    with less.prems obtain r' c1 where step: "length r' \<le> length r" "set_options E r' c1 = Inr c'" "Op c1 = Op c"
      "Key c1 = Key c" "Args c1 = Args c" "in_int64 (TTLMs c1)"
      using set_options_step [of E a r c c'] by auto
    with less.IH [of r' c1] Cons show ?thesis by simp
  qed (use less.prems in simp)
qed

context direct_node
begin

lemma returns_submit:
  assumes "codec_calm E" and "Op c \<notin> lua_ops" and "in_int64 (TTLMs c)" and "enough_args c"
    and "\<And>v s'. returns (finish v s')"
  shows "returns (obind (submit Y E c s)
    (\<lambda>(r, s). case r of Inl e \<Rightarrow> reply (WError (''ERR '' @ e)) s | Inr v \<Rightarrow> finish v s))"
proof -
  obtain r d where u: "db_update B (applyPlain B E c) (sdb s) = (r, d)" by fastforce
  with update_calm [OF assms(1,4), of "sdb s"] have "calm r" by simp
  from submit_plain [OF assms(2,3) u this] show ?thesis
    using assms(5) by (cases r) simp_all
qed

lemma returns_applyCommand:
  assumes "codec_calm E" and "Op c \<notin> lua_ops" and "in_int64 (TTLMs c)" and "enough_args c"
  shows "returns (applyCommand Y E c s)"
  unfolding applyCommand_def by (rule returns_submit [OF assms]) simp

lemma returns_reading:
  assumes "\<And>t. calm (get t)"
  shows "returns (reading Y get s finish)"
  using assms [of "b_begin B (sdb s)"]
  by (auto simp: reading_def engine db_view_def calm_def split: sum.splits err.splits)

lemma returns_handleSet:
  assumes "codec_calm E"
  shows "returns (handleSet Y E s args)"
proof -
  have zero: "in_int64 (TTLMs (newCommand opn key a))" for opn key a by (simp add: in_int64_def)
  have "returns (obind (submit Y E c s)
      (\<lambda>(r, s). case r of Inl e \<Rightarrow> reply (WError (''ERR '' @ e)) s | Inr v \<Rightarrow> reply (set_reply c v) s))"
    if "set_options E os (newCommand ''SET'' key [v]) = Inr c" for os key v c
    using set_options_keeps [OF that zero] by (intro returns_submit [OF assms]) (simp_all add: lua_ops_def enough_args_def)
  then show ?thesis by (simp add: handleSet_def split: sum.split)
qed

lemma returns_smismember:
  fixes s :: "('d, 'c) sess"
  shows "returns (handleSMIsMember Y E s args)"
proof -
  have "returns (smismember_loop Y E key ms s)" for key ms and s :: "('d, 'c) sess"
    by (induction ms arbitrary: s) (simp_all split: sum.split)
  then show ?thesis by (simp add: handleSMIsMember_def)
qed

lemma returns_srand:
  assumes "codec_calm E" and "length args = 3 \<longrightarrow> - 17592186044416 \<le> fst (atoi (args ! 2))"
  shows "returns (handleSRandMember Y E s args)"
proof -
  have "in_int64 (fst (atoi x))" for x by (simp add: atoi_eq_parseInt parseInt_range)
  with assms(2) show ?thesis
    unfolding handleSRandMember_def Let_def engine
    by (auto intro!: returns_reading calm_set(4) [OF assms(1)])
qed

lemma returns_registered:
  assumes "codec_calm E"
  shows "list_all (\<lambda>(n, h). n \<notin> {''srandmember'', ''eval'', ''evalsha'', ''script''} \<longrightarrow>
    (\<forall>s args. returns (h s args))) (registered Y E S)"
proof -
  have cmd: "returns (applyCommand Y E c s)" if "Op c \<notin> lua_ops" "in_int64 (TTLMs c)" "enough_args c" for c s
    using assms that by (rule returns_applyCommand)
  note reads = calm_GetString calm_GetStrings calm_Exists calm_ttl calm_Type calm_StrLen calm_hash [OF assms]
    calm_list [OF assms] calm_set(1-3) [OF assms]
  have zero: "in_int64 0" by (simp add: in_int64_def)
  have client: "returns (handleClient E adr s args)" for adr s args
    by (simp add: handleClient_def Let_def split: prod.split)
  show ?thesis
    unfolding registered_def list.pred_inject prod.case
    by (intro conjI impI allI)
      (simp_all add: handler_defs returns_handleSet [OF assms] returns_smismember client cmd lua_ops_def
        zero enough_args_def engine returns_reading reads Let_def split: prod.split sum.split option.split)
qed

end

interpretation ref_node: direct_node ref_badger map_of "ref_env tm" ref_deps for tm
  by (intro direct_node.intro ref_store direct_node_axioms.intro) (simp_all add: ref_deps_def ref_cmd_back)

lemma calm_map: "calm (map_sum id f r) = calm r"
  by (cases r) (simp_all add: calm_def)

lemma calm_ref_dec: "calm (ref_dec cur b)"
proof (induction cur b rule: ref_dec.induct)
  case (2 cur c cs)
  have "calm (Inl (ErrExt m) :: err + bytes list)" for m by (simp add: calm_def)
  with 2 show ?case by (subst ref_dec.simps(2)) (auto simp: calm_map split: list.split simp del: ref_dec.simps)
qed (simp add: calm_def)

lemma ref_codec_calm: "codec_calm (ref_env tm)"
  by (simp add: codec_calm_def ref_env_def ref_dec_map_def calm_ref_dec calm_map)

section \<open>Properties\<close>

text \<open>
  C4: no request other than a script makes a node panic or hang, with one exception. On a node
  that applies commands directly and whose storage and codecs keep their contracts, every
  request is answered, whatever the command name and however many or few arguments of whatever
  form: the checks of the handlers rule out every index and length the state machine would
  panic on. The exception is \<open>SRANDMEMBER\<close> with a count below -2^44. The memory of the host is
  taken to suffice, which a count above that bound can also exceed.
\<close>

theorem requests_do_not_crash:
  assumes "serve_mux serve (toLower (uni_lower E))" and "direct_node B contents E Y" and "codec_calm E"
    and "toLower (uni_lower E) name \<notin> {''eval'', ''evalsha'', ''script''}"
  shows "(\<exists>s'. handleCmd Y N serve E S s (name # args) = Done s') \<or>
    toLower (uni_lower E) name = ''srandmember'' \<and>
      (\<exists>key c. args = [key, c] \<and> fst (atoi c) < - 17592186044416)"
  using assms(1) refl [of "handleCmd Y N serve E S s (name # args)"]
proof (cases rule: handleCmd_cases)
  case (served h)
  show ?thesis
  proof (cases "toLower (uni_lower E) name = ''srandmember''")
    case True
    with served(1) have h: "h = handleSRandMember Y E" by (simp add: handlers_def registered_def)
    show ?thesis
    proof (cases "length args = 2 \<longrightarrow> - 17592186044416 \<le> fst (atoi (args ! 1))")
      case True
      then have "returns (h s (name # args))"
        unfolding h by (intro direct_node.returns_srand [OF assms(2,3)]) simp
      with served(2) show ?thesis by (simp add: returns_def)
    next
      case False
      then obtain key c where "args = [key, c]" by (auto simp: numeral_2_eq_2 length_Suc_conv)
      with False \<open>_ = ''srandmember''\<close> show ?thesis by simp
    qed
  next
    case False
    have "case (toLower (uni_lower E) name, h) of (n, h) \<Rightarrow>
        n \<notin> {''srandmember'', ''eval'', ''evalsha'', ''script''} \<longrightarrow> (\<forall>s args. returns (h s args))"
      using direct_node.returns_registered [OF assms(2,3), of S] registered_cases [OF served(1)]
      unfolding list_all_iff by (rule bspec)
    then have "returns (h s (name # args))" using False assms(4) by simp
    with served(2) show ?thesis by (simp add: returns_def)
  qed
qed (simp_all add: reply_def)

text \<open>A command without its arguments, which the state machine would panic on.\<close>

theorem requests_do_not_crash_witness:
  "\<exists>s'. ref_handle 0 (ref_sess []) [''LTRIM'', ''k''] = Done s'"
proof -
  have lower: "toLower (uni_lower (ref_env 0)) ''LTRIM'' = ''ltrim''" by code_simp
  have "toLower (uni_lower (ref_env 0)) ''LTRIM'' \<notin> {''eval'', ''evalsha'', ''script''}" unfolding lower by simp
  from requests_do_not_crash [OF rmux.serve_mux_axioms ref_node.direct_node_axioms ref_codec_calm this,
      of ref_peers ref_server "ref_sess []" "[''k'']"]
  show ?thesis unfolding ref_handle_def by simp
qed

text \<open>
  C34: any client can crash a node that holds a non-empty set: \<open>SRANDMEMBER\<close> with a count below
  -2^44, the smallest 64-bit integer among them, asks for a slice longer than the runtime can
  make, and the handler passes the count on unchecked.
\<close>

theorem srandmember_panics:
  assumes "store B contents E" and "bdg Y = B"
    and "set_at (keyspace E (contents (b_begin B (sdb s)))) key = Inr (Some (members, x))" and "members \<noteq> {}"
    and "atoi c = (n, None)" and "n < - 17592186044416"
  shows "handleSRandMember Y E s [name, key, c] = Panicked ''makeslice: len out of range''"
proof -
  have at: "set_at (store.view contents E (b_begin B (sdb s))) key = Inr (Some (members, x))"
    using assms by (simp add: store.view_def)
  obtain ms where ms: "SMembers B E key (b_begin B (sdb s)) = Inr ms" "set ms = members"
    using at by (auto intro: store.SMembers_spec [OF assms(1), of "b_begin B (sdb s)" key])
  have "in_int64 n" using parseInt_range [of c] assms(5) by (simp add: atoi_eq_parseInt)
  have "slice_too_long 16 (wrap64 (- n))"
  proof (cases "n = - 9223372036854775808")
    case True
    then show ?thesis by (simp add: slice_too_long_def wrap64_def)
  next
    case False
    with \<open>in_int64 n\<close> assms(6) have "wrap64 (- n) = - n" by (intro wrap64_id) (auto simp: in_int64_def)
    with assms(6) show ?thesis by (simp add: slice_too_long_def)
  qed
  with ms assms(4-6) show ?thesis
    by (auto simp: handleSRandMember_def reading_def assms(2) db_view_def SRandMember_def)
qed

theorem srandmember_panics_witness:
  "handleSRandMember ref_deps (ref_env 0) (ref_sess ref_setdb) [''SRANDMEMBER'', ''s'', ''-9223372036854775808''] =
     Panicked ''makeslice: len out of range''"
proof -
  have "set_at (keyspace (ref_env 0) (map_of (b_begin ref_badger (sdb (ref_sess ref_setdb))))) ''s'' =
      Inr (Some ({''a'', ''b''}, 0))"
    by (simp add: coll_at_def ref_setdb_view ref_sess_def ref_badger_def)
  moreover have "atoi ''-9223372036854775808'' = (- 9223372036854775808, None)" by code_simp
  ultimately show ?thesis
    using srandmember_panics [OF ref_store, of ref_deps 0 "ref_sess ref_setdb" "''s''" "{''a'', ''b''}" 0
        "''-9223372036854775808''" "- 9223372036854775808"]
    by (simp add: ref_deps_def)
qed

end
