(* ===== verification/RequestProps.thy ===== *)
theory RequestProps
  imports CrashProps
begin

text \<open>
  From the request to the key space: the grammar of the \<open>SET\<close> options and that scripts read
  it the same way, the node a request goes to, and the effect and the reply of the write
  commands and of \<open>SET\<close> and \<open>GET\<close> end to end.
\<close>

section \<open>The options of SET\<close>

datatype set_opt = ONX | OXX | OGET | OEX int | OPX int | OEXAT int | OPXAT int

text \<open>The lines of words that spell a list of options, in any case, values as decimal integers.\<close>

inductive set_syntax :: "env \<Rightarrow> bytes list \<Rightarrow> set_opt list \<Rightarrow> bool" for E where
  no_option: "set_syntax E [] []"
| nx: "toUpper (uni_upper E) w = ''NX'' \<Longrightarrow> set_syntax E ws os \<Longrightarrow> set_syntax E (w # ws) (ONX # os)"
| xx: "toUpper (uni_upper E) w = ''XX'' \<Longrightarrow> set_syntax E ws os \<Longrightarrow> set_syntax E (w # ws) (OXX # os)"
| get: "toUpper (uni_upper E) w = ''GET'' \<Longrightarrow> set_syntax E ws os \<Longrightarrow> set_syntax E (w # ws) (OGET # os)"
| ex: "toUpper (uni_upper E) w = ''EX'' \<Longrightarrow> parseInt n = (v, None) \<Longrightarrow> set_syntax E ws os \<Longrightarrow>
    set_syntax E (w # n # ws) (OEX v # os)"
| px: "toUpper (uni_upper E) w = ''PX'' \<Longrightarrow> parseInt n = (v, None) \<Longrightarrow> set_syntax E ws os \<Longrightarrow>
    set_syntax E (w # n # ws) (OPX v # os)"
| exat: "toUpper (uni_upper E) w = ''EXAT'' \<Longrightarrow> parseInt n = (v, None) \<Longrightarrow> set_syntax E ws os \<Longrightarrow>
    set_syntax E (w # n # ws) (OEXAT v # os)"
| pxat: "toUpper (uni_upper E) w = ''PXAT'' \<Longrightarrow> parseInt n = (v, None) \<Longrightarrow> set_syntax E ws os \<Longrightarrow>
    set_syntax E (w # n # ws) (OPXAT v # os)"

text \<open>What an option does; a deadline that has passed leaves one millisecond.\<close>

primrec set_opt_effect :: "int \<Rightarrow> set_opt \<Rightarrow> Command \<Rightarrow> Command" where
  "set_opt_effect now ONX c = c\<lparr>Condition := ''NX''\<rparr>"
| "set_opt_effect now OXX c = c\<lparr>Condition := ''XX''\<rparr>"
| "set_opt_effect now OGET c = c\<lparr>ReturnOld := True\<rparr>"
| "set_opt_effect now (OEX v) c = c\<lparr>TTLMs := wrap64 (v * 1000)\<rparr>"
| "set_opt_effect now (OPX v) c = c\<lparr>TTLMs := v\<rparr>"
| "set_opt_effect now (OEXAT v) c =
     c\<lparr>TTLMs := (if wrap64 (v * 1000 - now) < 0 then 1 else wrap64 (v * 1000 - now))\<rparr>"
| "set_opt_effect now (OPXAT v) c =
     c\<lparr>TTLMs := (if wrap64 (v - now) < 0 then 1 else wrap64 (v - now))\<rparr>"

lemma set_syntax_parsed:
  "set_syntax E ws os \<Longrightarrow> set_options E ws c = Inr (fold (set_opt_effect (unix_milli E)) os c)"
proof (induction arbitrary: c rule: set_syntax.induct)
  case (exat w n v ws os)
  then show ?case by (simp add: option_ttl_def Let_def wrap64_diff_wrap)
qed (simp_all add: option_ttl_def Let_def)

lemma set_parsed_syntax:
  "set_options E ws c = Inr c' \<Longrightarrow> \<exists>os. set_syntax E ws os"
proof (induction ws arbitrary: c rule: measure_induct_rule [of length])
  case (less ws)
  show ?case
  proof (cases ws)
    case Nil
    then show ?thesis by (auto intro: no_option)
  next
    case (Cons w r)
    let ?w = "toUpper (uni_upper E) w"
    consider (flag) c1 where "?w = ''NX'' \<or> ?w = ''XX'' \<or> ?w = ''GET''" "set_options E r c1 = Inr c'"
      | (ttl) n r' v c1 where "?w = ''EX'' \<or> ?w = ''PX'' \<or> ?w = ''EXAT'' \<or> ?w = ''PXAT''" "r = n # r'"
        "parseInt n = (v, None)" "set_options E r' c1 = Inr c'"
      using less.prems unfolding Cons set_options.simps Let_def
      by (fastforce split: if_split_asm list.split_asm prod.split_asm option.split_asm)
    then show ?thesis
    proof cases
      case flag
      from less.IH [OF _ flag(2)] Cons obtain os where "set_syntax E r os" by auto
      with flag(1) Cons show ?thesis by (blast intro: set_syntax.intros)
    next
      case ttl
      from less.IH [OF _ ttl(4)] Cons ttl(2) obtain os where "set_syntax E r' os" by auto
      with ttl Cons show ?thesis by (blast intro: set_syntax.intros)
    qed
  qed
qed

text \<open>
  The options README gives for \<open>SET\<close>, \<open>[NX | XX] [GET] [EX | PX | EXAT | PXAT]\<close>: at most one
  condition, \<open>GET\<close> or not, at most one expiry, in this order.
\<close>

definition readme_options :: "set_opt option \<Rightarrow> bool \<Rightarrow> set_opt option \<Rightarrow> set_opt list" where
  "readme_options cnd old ex =
     (case cnd of None \<Rightarrow> [] | Some x \<Rightarrow> [x]) @ (if old then [OGET] else []) @
     (case ex of None \<Rightarrow> [] | Some x \<Rightarrow> [x])"

fun condition_of :: "set_opt option \<Rightarrow> bytes option" where
  "condition_of None = Some []"
| "condition_of (Some ONX) = Some ''NX''"
| "condition_of (Some OXX) = Some ''XX''"
| "condition_of _ = None"

text \<open>The time to live in milliseconds; of a deadline the rest, and one millisecond when it has passed.\<close>

fun expiry_of :: "int \<Rightarrow> set_opt option \<Rightarrow> int option" where
  "expiry_of now None = Some 0"
| "expiry_of now (Some (OEX v)) = Some (wrap64 (v * 1000))"
| "expiry_of now (Some (OPX v)) = Some v"
| "expiry_of now (Some (OEXAT v)) = Some (let rest = wrap64 (v * 1000 - now) in if rest < 0 then 1 else rest)"
| "expiry_of now (Some (OPXAT v)) = Some (let rest = wrap64 (v - now) in if rest < 0 then 1 else rest)"
| "expiry_of now _ = None"

lemma readme_options_effect:
  assumes "condition_of cnd = Some cn" and "expiry_of now ex = Some ttl"
  shows "fold (set_opt_effect now) (readme_options cnd old ex) (newCommand ''SET'' key [val]) =
    \<lparr>Op = ''SET'', Key = key, Args = [val], TTLMs = ttl, Condition = cn, ReturnOld = old\<rparr>"
  using assms
  by (cases cnd rule: condition_of.cases; cases "(now, ex)" rule: expiry_of.cases)
    (auto simp: readme_options_def newCommand_def Let_def)

text \<open>
  C10: the option loop of \<open>SET\<close> understands the grammar README gives,
  \<open>[NX | XX] [GET] [EX seconds | PX milliseconds | EXAT timestamp | PXAT milliseconds-timestamp]\<close>: words
  that spell such a line, in upper or lower case and with 64-bit decimal numbers, are accepted, and
  the command made has exactly the condition, the return of the old value and the time to live
  they say, and none of these where the option is absent. It is laxer than README, since it
  does not limit an option to one occurrence of its group: a line is accepted exactly when it
  is a sequence of these options, each of which replaces what an earlier one of its group said.
\<close>

theorem set_options_reads_readme_grammar:
  "(\<forall>cnd cn ex ttl. condition_of cnd = Some cn \<longrightarrow> expiry_of (unix_milli E) ex = Some ttl \<longrightarrow>
      set_syntax E ws (readme_options cnd old ex) \<longrightarrow>
      set_options E ws (newCommand ''SET'' key [val]) =
        Inr \<lparr>Op = ''SET'', Key = key, Args = [val], TTLMs = ttl, Condition = cn, ReturnOld = old\<rparr>) \<and>
   (set_options E ws c = Inr c' \<longleftrightarrow>
      (\<exists>os. set_syntax E ws os \<and> c' = fold (set_opt_effect (unix_milli E)) os c))"
proof (intro conjI allI impI)
  show "set_options E ws c = Inr c' \<longleftrightarrow>
      (\<exists>os. set_syntax E ws os \<and> c' = fold (set_opt_effect (unix_milli E)) os c)"
    using set_parsed_syntax [of E ws c c'] set_syntax_parsed [of E ws _ c] by (metis sum.inject(2))
qed (simp add: set_syntax_parsed readme_options_effect)

theorem set_options_reads_readme_grammar_witness:
  "set_options (ref_env 0) [''xx'', ''GET'', ''Px'', ''250''] (newCommand ''SET'' ''k'' [''v'']) =
     Inr \<lparr>Op = ''SET'', Key = ''k'', Args = [''v''], TTLMs = 250, Condition = ''XX'', ReturnOld = True\<rparr>"
proof -
  have w: "toUpper (uni_upper (ref_env 0)) ''xx'' = ''XX''" "toUpper (uni_upper (ref_env 0)) ''GET'' = ''GET''"
    "toUpper (uni_upper (ref_env 0)) ''Px'' = ''PX''" "parseInt ''250'' = (250, None)"
    by code_simp+
  have "set_syntax (ref_env 0) [''xx'', ''GET'', ''Px'', ''250''] (readme_options (Some OXX) True (Some (OPX 250)))"
    unfolding readme_options_def using set_syntax.intros [of "ref_env 0"] w by simp
  moreover have "condition_of (Some OXX) = Some ''XX''" "expiry_of (unix_milli (ref_env 0)) (Some (OPX 250)) = Some 250"
    by simp_all
  ultimately show ?thesis
    using set_options_reads_readme_grammar [of "ref_env 0" "[''xx'', ''GET'', ''Px'', ''250'']" True "''k''" "''v''"]
    by blast
qed

lemma lua_set_syntax:
  "set_syntax E ws os \<Longrightarrow> (\<And>v. OEXAT v \<notin> set os \<and> OPXAT v \<notin> set os) \<Longrightarrow>
   lua_set_options E ws c = Inr (fold (set_opt_effect now) os c)"
proof (induction arbitrary: c rule: set_syntax.induct)
qed (auto simp: Let_def)

lemma set_syntax_words:
  "set_syntax E ws os \<Longrightarrow> OEXAT x \<in> set os \<or> OPXAT x \<in> set os \<Longrightarrow>
   \<exists>w \<in> set ws. toUpper (uni_upper E) w \<in> {''EXAT'', ''PXAT''}"
  by (induction rule: set_syntax.induct) auto

text \<open>
  C24: a script and a client mean the same by \<open>SET\<close>. When a client's \<open>SET\<close> with the options
  \<open>NX\<close>, \<open>XX\<close>, \<open>GET\<close>, \<open>EX\<close> and \<open>PX\<close> is accepted, \<open>redis.call\<close> with the same words builds the same command.
\<close>

theorem script_set_agrees:
  assumes "set_options E ws (newCommand ''SET'' key [v]) = Inr c"
    and "\<And>w. w \<in> set ws \<Longrightarrow> toUpper (uni_upper E) w \<notin> {''EXAT'', ''PXAT''}"
  shows "parseCommandForLua E ''SET'' (name # key # v # ws) (newCommand ''SET'' key (v # ws)) = Inr c"
proof -
  obtain os where os: "set_syntax E ws os" using set_parsed_syntax [OF assms(1)] by blast
  then have "OEXAT x \<notin> set os \<and> OPXAT x \<notin> set os" for x
    using set_syntax_words [OF os, of x] assms(2) by blast
  moreover have "c = fold (set_opt_effect (unix_milli E)) os (newCommand ''SET'' key [v])"
    using assms(1) set_syntax_parsed [OF os, of "newCommand ''SET'' key [v]"] by simp
  ultimately show ?thesis
    using lua_set_syntax [OF os, of "newCommand ''SET'' key [v]" "unix_milli E"]
    by (simp add: parseCommandForLua_def newCommand_def)
qed

theorem script_set_agrees_witness:
  "\<exists>c. parseCommandForLua (ref_env 0) ''SET'' [''set'', ''k'', ''v'', ''ex'', ''10'', ''NX'']
       (newCommand ''SET'' ''k'' [''v'', ''ex'', ''10'', ''NX'']) = Inr c \<and> TTLMs c = 10000 \<and> Condition c = ''NX''"
proof -
  have set: "set_options (ref_env 0) [''ex'', ''10'', ''NX''] (newCommand ''SET'' ''k'' [''v'']) =
      Inr ((newCommand ''SET'' ''k'' [''v''])\<lparr>TTLMs := 10000, Condition := ''NX''\<rparr>)"
    by code_simp
  have "list_all (\<lambda>w. toUpper (uni_upper (ref_env 0)) w \<notin> {''EXAT'', ''PXAT''}) [''ex'', ''10'', ''NX'']"
    by code_simp
  then have "toUpper (uni_upper (ref_env 0)) w \<notin> {''EXAT'', ''PXAT''}" if "w \<in> set [''ex'', ''10'', ''NX'']" for w
    using that by (auto simp: list_all_iff)
  from script_set_agrees [OF set this, of "''set''"] show ?thesis by simp
qed

section \<open>Where a request goes\<close>

text \<open>Every client in the map is the one made for its address.\<close>

definition clients_ok :: "'c peers \<Rightarrow> ('d, 'c) sess \<Rightarrow> bool" where
  "clients_ok N s \<longleftrightarrow> (\<forall>a c. clients s a = Some c \<longrightarrow> c = newClient N a)"

lemma getClient_ok:
  assumes "clients_ok N s" and "getClient N adr s = (c, s')"
  shows "c = newClient N adr" "clients_ok N s'"
  using assms by (auto simp: clients_ok_def getClient_def Let_def split: option.splits if_splits)

text \<open>The owner of a key's slot: its shard and address, both empty before any assignment.\<close>

definition slot_owner :: "assignment list \<Rightarrow> bytes \<Rightarrow> bytes \<times> bytes" where
  "slot_owner as key =
     (case find (\<lambda>a. fst a = KeyToSlot key) (rev as) of None \<Rightarrow> ([], []) | Some a \<Rightarrow> snd a)"

lemma LocateKey_owner:
  "LocateKey (NewRouter rg (sm.assign_all as NewSlotMap) me) key =
     (fst (slot_owner as key), snd (slot_owner as key), fst (slot_owner as key) = me)"
  by (simp add: LocateKey_def NewRouter_def Let_def sm.get_assign_all sm.get_empty slot_owner_def
      split: option.split prod.split)

text \<open>
  C9: a request with a key goes to the owner of the key's slot. After any assignments of slots, a
  node serves the request itself when its own name owns the slot or no address is known, and
  otherwise sends exactly the client's words to the address last assigned, writes what comes
  back, and leaves its own database alone; it keeps using the connection made for that address.
\<close>

theorem request_goes_to_owner:
  assumes "clients_ok N s" and "router S = NewRouter rg (sm.assign_all as NewSlotMap) me"
    and "toUpper (uni_upper E) name \<notin> {''HELLO'', ''CLIENT'', ''EVAL'', ''EVALSHA'', ''SCRIPT''}"
  shows "if fst (slot_owner as key) = me \<or> snd (slot_owner as key) = []
    then handleCmd Y N serve E S s (name # key # args) = serve (handlers Y E S) s (name # key # args)
    else \<exists>s'. handleCmd Y N serve E S s (name # key # args) = Done s' \<and> sdb s' = sdb s \<and> clients_ok N s' \<and>
      clients s' (snd (slot_owner as key)) \<noteq> None \<and>
      out s' = out s @ proxy_events (redis_do N (newClient N (snd (slot_owner as key))) (name # key # args))"
proof (cases "fst (slot_owner as key) = me \<or> snd (slot_owner as key) = []")
  case True
  with assms(2,3) show ?thesis by (auto simp: handleCmd_def Let_def LocateKey_owner)
next
  case False
  let ?ip = "snd (slot_owner as key)"
  obtain c s1 where g: "getClient N ?ip s = (c, s1)" by fastforce
  have "clients s1 ?ip \<noteq> None" using g by (auto simp: getClient_def Let_def split: option.splits)
  moreover have "handleCmd Y N serve E S s (name # key # args) = Done (wrs (proxy_events (redis_do N c (name # key # args))) s1)"
    using False assms(2,3) g by (simp add: handleCmd_def Let_def LocateKey_owner)
  ultimately show ?thesis
    using False getClient_ok [OF assms(1) g] getClient_keeps [OF g] by (simp add: clients_ok_def)
qed

text \<open>The key \<open>k\<close> is owned by another node, which answers with its address.\<close>

theorem request_goes_to_owner_witness:
  "\<exists>s'. handleCmd ref_deps ref_peers (ref_serve (toLower (uni_lower (ref_env 0)))) (ref_env 0)
       (ref_server\<lparr>router := NewRouter () (sm.assign_all [(KeyToSlot ''k'', ''s2'', ''ip2'')] NewSlotMap) ''s1''\<rparr>)
       (ref_sess []) [''GET'', ''k''] = Done s' \<and> out s' = [WBulkString ''ip2''] \<and> sdb s' = []"
proof -
  have "toUpper (uni_upper (ref_env 0)) ''GET'' = ''GET''" by code_simp
  then have name: "toUpper (uni_upper (ref_env 0)) ''GET'' \<notin> {''HELLO'', ''CLIENT'', ''EVAL'', ''EVALSHA'', ''SCRIPT''}"
    by simp
  have "clients_ok ref_peers (ref_sess [])" by (simp add: clients_ok_def ref_sess_def)
  moreover have "slot_owner [(KeyToSlot ''k'', ''s2'', ''ip2'')] ''k'' = (''s2'', ''ip2'')" by (simp add: slot_owner_def)
  ultimately show ?thesis
    using request_goes_to_owner [OF _ _ name, of ref_peers "ref_sess []"
        "ref_server\<lparr>router := NewRouter () (sm.assign_all [(KeyToSlot ''k'', ''s2'', ''ip2'')] NewSlotMap) ''s1''\<rparr>"
        "()" "[(KeyToSlot ''k'', ''s2'', ''ip2'')]" "''s1''" "''k''" ref_deps
        "ref_serve (toLower (uni_lower (ref_env 0)))" "[]"]
    by (auto simp: ref_sess_def ref_peers_def)
qed

end
