(* ===== verification/EndToEnd.thy ===== *)
theory EndToEnd
  imports RequestProps
begin

text \<open>
  The write commands end to end: from the words a client sends to the reply it gets and the
  key space afterwards, through routing, multiplexer, handler, log entry, state machine and
  storage engine.
\<close>

section \<open>The commands\<close>















section \<open>SET and GET\<close>



end
