(* ===== verification/Clients.thy ===== *)
theory Clients
  imports Prelude
begin

text \<open>
  \<open>getClient\<close> of \<open>server/server.go\<close> under concurrent calls. The function looks the address up
  under the read lock; if it is missing it takes the write lock, looks again, and only
  then creates a client and stores it. The two critical sections are the steps of a
  caller; between them any other callers may run. A client is an object with an identity,
  so each one created gets the next number.
\<close>

section \<open>The two critical sections\<close>

record pool =
  pclients :: "bytes \<Rightarrow> nat option"
  made :: nat

definition empty_pool :: pool where
  "empty_pool = \<lparr>pclients = Map.empty, made = 0\<rparr>"

text \<open>The read-locked lookup.\<close>

definition getClient_read :: "bytes \<Rightarrow> pool \<Rightarrow> nat option" where
  "getClient_read addr p = pclients p addr"

text \<open>The write-locked part.\<close>

definition getClient_locked :: "bytes \<Rightarrow> pool \<Rightarrow> nat \<times> pool" where
  "getClient_locked addr p =
     (case pclients p addr of
        Some client \<Rightarrow> (client, p)
      | None \<Rightarrow>
          (let client = made p
           in (client, p\<lparr>pclients := (pclients p)(addr \<mapsto> client), made := made p + 1\<rparr>)))"

section \<open>Interleavings\<close>

text \<open>Where a caller is: before the lookup, between the sections, done.\<close>

datatype caller = Looking bytes | Missed bytes | Returned bytes nat

type_synonym calls = "pool \<times> (nat \<Rightarrow> caller)"

inductive client_step :: "calls \<Rightarrow> calls \<Rightarrow> bool" where
  hit: "th i = Looking a \<Longrightarrow> getClient_read a p = Some c \<Longrightarrow>
     client_step (p, th) (p, th(i := Returned a c))"
| miss: "th i = Looking a \<Longrightarrow> getClient_read a p = None \<Longrightarrow>
     client_step (p, th) (p, th(i := Missed a))"
| locked: "th i = Missed a \<Longrightarrow> getClient_locked a p = (c, p') \<Longrightarrow>
     client_step (p, th) (p', th(i := Returned a c))"

inductive_cases client_stepE: "client_step s s'"

text \<open>
  Every caller that has returned holds the client of the pool for its address, the pool
  has one client for each address and never two addresses for one client, and no client
  was created that is not in it.
\<close>

definition calls_ok :: "calls \<Rightarrow> bool" where
  "calls_ok s \<longleftrightarrow>
     (\<forall>i a c. snd s i = Returned a c \<longrightarrow> pclients (fst s) a = Some c) \<and>
     inj_on (pclients (fst s)) (dom (pclients (fst s))) \<and>
     ran (pclients (fst s)) = {..<made (fst s)}"

lemma calls_ok_start: "calls_ok (empty_pool, \<lambda>i. Looking (want i))"
  by (simp add: calls_ok_def empty_pool_def)

lemma ran_upd_fresh: "m a = None \<Longrightarrow> ran (m(a \<mapsto> b)) = insert b (ran m)"
  by simp

lemma inj_upd_fresh:
  assumes "inj_on m (dom m)" and "m a = None" and "b \<notin> ran m"
  shows "inj_on (m(a \<mapsto> b)) (dom (m(a \<mapsto> b)))"
proof (rule inj_onI)
  fix x y
  assume "x \<in> dom (m(a \<mapsto> b))" "y \<in> dom (m(a \<mapsto> b))" "(m(a \<mapsto> b)) x = (m(a \<mapsto> b)) y"
  then show "x = y"
    using assms by (auto simp: ran_def inj_on_def split: if_splits)
qed

lemma calls_ok_step:
  assumes "client_step s s'" and "calls_ok s"
  shows "calls_ok s'"
  using assms
proof (induction rule: client_step.induct)
  case (hit th i a p c)
  then show ?case by (auto simp: calls_ok_def getClient_read_def)
next
  case (miss th i a p)
  then show ?case by (auto simp: calls_ok_def)
next
  case (locked th i a p c p')
  show ?case
  proof (cases "pclients p a")
    case None
    with locked have p': "c = made p" "pclients p' = (pclients p)(a \<mapsto> made p)" "made p' = made p + 1"
      by (auto simp: getClient_locked_def Let_def)
    have "made p \<notin> ran (pclients p)" using locked by (simp add: calls_ok_def)
    then have "inj_on (pclients p') (dom (pclients p'))"
      using inj_upd_fresh [of "pclients p" a "made p"] None locked.prems p'(2) by (simp add: calls_ok_def)
    moreover have "ran (pclients p') = {..<made p'}"
      using ran_upd_fresh [of "pclients p" a "made p"] None locked.prems p' by (auto simp: calls_ok_def)
    moreover have "pclients p' x = Some y" if "pclients p x = Some y" for x y
      using that None p'(2) by auto
    ultimately show ?thesis using locked.prems p' by (simp add: calls_ok_def)
  next
    case (Some c')
    with locked have "c = c'" "p' = p" by (auto simp: getClient_locked_def)
    with Some locked.prems show ?thesis by (auto simp: calls_ok_def)
  qed
qed

lemma calls_ok_reachable: "client_step\<^sup>*\<^sup>* s s' \<Longrightarrow> calls_ok s \<Longrightarrow> calls_ok s'"
  by (induction rule: rtranclp_induct) (auto intro: calls_ok_step)

text \<open>A caller that has not returned can always take its next step, and has at most two to go.\<close>

primrec steps_left :: "caller \<Rightarrow> nat" where
  "steps_left (Looking a) = 2"
| "steps_left (Missed a) = 1"
| "steps_left (Returned a c) = 0"

lemma caller_moves:
  assumes "0 < steps_left (th i)"
  shows "\<exists>p' cl. client_step (p, th) (p', th(i := cl)) \<and> steps_left cl < steps_left (th i)"
proof (cases "th i")
  case (Looking a)
  then show ?thesis
    by (cases "getClient_read a p") (force intro: client_step.intros)+
next
  case (Missed a)
  obtain c p' where "getClient_locked a p = (c, p')" by fastforce
  with Missed show ?thesis by (force intro: client_step.locked)
qed (use assms in simp)

text \<open>
  C19: However concurrent calls of \<open>getClient\<close> interleave, all callers for one address get
  the same client, callers for different addresses get different ones, exactly one client
  is created for each address that has one (none is leaked), and a caller that has not
  returned can always move on and is done after at most two of its own steps.
\<close>

theorem one_client_per_address:
  assumes "client_step\<^sup>*\<^sup>* (empty_pool, \<lambda>i. Looking (want i)) (p, th)"
  shows "(\<forall>i j a b c c'. th i = Returned a c \<and> th j = Returned b c' \<longrightarrow> (c = c') = (a = b)) \<and>
    made p = card (dom (pclients p)) \<and>
    (\<forall>i. 0 < steps_left (th i) \<longrightarrow>
       (\<exists>p' cl. client_step (p, th) (p', th(i := cl)) \<and> steps_left cl < steps_left (th i)))"
proof -
  have ok: "calls_ok (p, th)"
    by (rule calls_ok_reachable [OF assms calls_ok_start])
  have same: "(c = c') = (a = b)" if "th i = Returned a c" "th j = Returned b c'" for i j a b c c'
  proof -
    have "pclients p a = Some c" "pclients p b = Some c'" "inj_on (pclients p) (dom (pclients p))"
      using ok that by (auto simp: calls_ok_def)
    then show ?thesis by (metis domI inj_onD option.inject)
  qed
  have all: "made p = card (dom (pclients p))"
  proof -
    have "card (pclients p ` dom (pclients p)) = card (dom (pclients p))"
      using ok by (intro card_image) (simp add: calls_ok_def)
    moreover have "pclients p ` dom (pclients p) = Some ` ran (pclients p)"
      by (auto simp: ran_def dom_def image_def)
    ultimately show ?thesis using ok by (simp add: calls_ok_def card_image)
  qed
  show ?thesis using same by (intro conjI allI impI all caller_moves) blast+
qed

text \<open>
  Two callers race for one address: both miss, the first creates the client, the second
  finds it under the write lock.
\<close>

definition race :: "nat \<Rightarrow> caller" where
  "race = (\<lambda>i. Looking ''a'')"

theorem one_client_per_address_witness:
  "\<exists>p th. client_step\<^sup>*\<^sup>* (empty_pool, race) (p, th) \<and> th 0 = Returned ''a'' 0 \<and> th 1 = Returned ''a'' 0 \<and>
     (\<forall>j c. th j = Returned ''a'' c \<longrightarrow> c = 0) \<and> steps_left (th 2) = 2"
proof -
  let ?p = "\<lparr>pclients = [''a'' \<mapsto> 0], made = 1\<rparr>"
  let ?t = "race(0 := Returned ''a'' 0, 1 := Returned ''a'' 0)"
  note step = rtranclp.rtrancl_into_rtrancl [of client_step]
  have s1: "client_step (empty_pool, race) (empty_pool, race(0 := Missed ''a''))"
    by (rule client_step.miss) (simp_all add: race_def getClient_read_def empty_pool_def)
  have s2: "client_step (empty_pool, race(0 := Missed ''a'')) (empty_pool, race(0 := Missed ''a'', 1 := Missed ''a''))"
    by (rule client_step.miss) (simp_all add: race_def getClient_read_def empty_pool_def)
  have s3: "client_step (empty_pool, race(0 := Missed ''a'', 1 := Missed ''a''))
      (?p, race(0 := Missed ''a'', 1 := Missed ''a'', 0 := Returned ''a'' 0))"
    by (rule client_step.locked) (simp_all add: getClient_locked_def empty_pool_def)
  have s4: "client_step (?p, race(0 := Missed ''a'', 1 := Missed ''a'', 0 := Returned ''a'' 0))
      (?p, race(0 := Missed ''a'', 1 := Missed ''a'', 0 := Returned ''a'' 0, 1 := Returned ''a'' 0))"
    by (rule client_step.locked) (simp_all add: getClient_locked_def)
  have t: "race(0 := Missed ''a'', 1 := Missed ''a'', 0 := Returned ''a'' 0, 1 := Returned ''a'' 0) = ?t"
    by (rule ext) simp
  have "client_step\<^sup>*\<^sup>* (empty_pool, race) (?p, ?t)"
    using step [OF step [OF step [OF r_into_rtranclp [of client_step, OF s1] s2] s3] s4]
    by (simp only: t)
  moreover from this have "\<forall>j c. ?t j = Returned ''a'' c \<longrightarrow> c = 0"
    using one_client_per_address [of "\<lambda>_. ''a''" ?p ?t] unfolding race_def by (metis fun_upd_same)
  ultimately show ?thesis by (intro exI [of _ ?p] exI [of _ ?t]) (simp add: race_def)
qed

end
