(* ===== verification/Gossip.thy ===== *)
theory Gossip
  imports Strconv Options
begin

text \<open>
  The gossip node of \<open>cluster/gossip.go\<close>: how its configuration is made from the address it is
  given, and what becomes of the member list it creates. The \<open>memberlist\<close> library is a
  parameter: creating a list from a configuration, joining it to peers, and the address and
  port it is bound to.
\<close>

section \<open>net.SplitHostPort\<close>

definition split_error :: "bytes \<Rightarrow> bytes \<Rightarrow> err" where
  "split_error adr why = Errf (''address '' @ adr @ '': '' @ why)"

text \<open>The text before and after the last colon.\<close>

fun split_last_colon :: "bytes \<Rightarrow> (bytes \<times> bytes) option" where
  "split_last_colon [] = None"
| "split_last_colon (c # s) =
     (case split_last_colon s of
        Some (a, b) \<Rightarrow> Some (c # a, b)
      | None \<Rightarrow> if c = CHR '':'' then Some ([], s) else None)"

text \<open>
  The port starts after the last colon. An address that starts with a bracket has the host
  up to the first closing bracket, which has to stand right before that colon; any other
  host may not contain a colon. No further brackets may occur.
\<close>

definition SplitHostPort :: "bytes \<Rightarrow> err + (bytes \<times> bytes)" where
  "SplitHostPort hp =
     (case split_last_colon hp of
        None \<Rightarrow> Inl (split_error hp ''missing port in address'')
      | Some (front, port) \<Rightarrow>
          if take 1 hp = ''['' then
            (case dropWhile (\<lambda>c. c \<noteq> CHR '']'') hp of
               [] \<Rightarrow> Inl (split_error hp ''missing ']' in address'')
             | _ # after \<Rightarrow>
                 (let host = takeWhile (\<lambda>c. c \<noteq> CHR '']'') (tl hp) in
                  if after = [] then Inl (split_error hp ''missing port in address'')
                  else if length front = length host + 2 then
                    (if CHR ''['' \<in> set (tl hp) then Inl (split_error hp ''unexpected '[' in address'')
                     else if CHR '']'' \<in> set after then Inl (split_error hp ''unexpected ']' in address'')
                     else Inr (host, port))
                  else if hd after = CHR '':'' then Inl (split_error hp ''too many colons in address'')
                  else Inl (split_error hp ''missing port in address'')))
          else if CHR '':'' \<in> set front then Inl (split_error hp ''too many colons in address'')
          else if CHR ''['' \<in> set hp then Inl (split_error hp ''unexpected '[' in address'')
          else if CHR '']'' \<in> set hp then Inl (split_error hp ''unexpected ']' in address'')
          else Inr (front, port))"

section \<open>The node\<close>

record 'w mconfig =
  Name :: bytes
  BindAddr :: bytes
  BindPort :: int
  LogOutput :: "'w option"

record ('m, 'w) memberlist =
  ml_create :: "'w mconfig \<Rightarrow> err + 'm"
  ml_join :: "'m \<Rightarrow> bytes list \<Rightarrow> err option"
  ml_local :: "'m \<Rightarrow> bytes \<times> int"

text \<open>The text of an \<open>Atoi\<close> error; the quoting is that of plain ASCII text.\<close>

definition atoi_error :: "bytes \<Rightarrow> num_err \<Rightarrow> err" where
  "atoi_error s e =
     Errf (''strconv.Atoi: parsing '' @ [CHR 0x22] @ s @ [CHR 0x22] @
       (case e of NumSyntax \<Rightarrow> '': invalid syntax'' | NumRange \<Rightarrow> '': value out of range''))"

text \<open>
  The part the two constructors share: parse the address, create the list, join the peers;
  when joining fails the list is shut down. Besides the result, the lists created and the
  lists shut down.
\<close>

definition start_gossip ::
  "('m, 'w) memberlist \<Rightarrow> 'w option \<Rightarrow> bytes \<Rightarrow> bytes \<Rightarrow> bytes list \<Rightarrow> (err + 'm) \<times> 'm list \<times> 'm list" where
  "start_gossip M log bindAddr nodeName joinAddrs =
     (case SplitHostPort bindAddr of
        Inl e \<Rightarrow> (Inl e, [], [])
      | Inr (host, portStr) \<Rightarrow>
          (case atoi portStr of
             (_, Some e) \<Rightarrow> (Inl (atoi_error portStr e), [], [])
           | (port, None) \<Rightarrow>
               (case ml_create M \<lparr>Name = nodeName, BindAddr = host, BindPort = port, LogOutput = log\<rparr> of
                  Inl e \<Rightarrow> (Inl e, [], [])
                | Inr list \<Rightarrow>
                    if joinAddrs \<noteq> [] then
                      (case ml_join M list joinAddrs of
                         Some e \<Rightarrow> (Inl e, [list], [list])
                       | None \<Rightarrow> (Inr list, [list], []))
                    else (Inr list, [list], []))))"

text \<open>Without options the library's default writer stays.\<close>

definition NewGossip ::
  "('m, 'w) memberlist \<Rightarrow> bytes \<Rightarrow> bytes \<Rightarrow> bytes list \<Rightarrow> (err + 'm) \<times> 'm list \<times> 'm list" where
  "NewGossip M bindAddr nodeName joinAddrs = start_gossip M None bindAddr nodeName joinAddrs"

definition NewGossipWithOptions ::
  "('m, 'w) memberlist \<Rightarrow> 'w \<Rightarrow> bytes \<Rightarrow> bytes \<Rightarrow> bytes list \<Rightarrow> 'w gossip_Option option list \<Rightarrow>
   (err + 'm) \<times> 'm list \<times> 'm list" where
  "NewGossipWithOptions M discard bindAddr nodeName joinAddrs opts =
     start_gossip M (gossip_logOutput (gossip_resolveOptions discard opts)) bindAddr nodeName joinAddrs"

definition gossip_BindAddr :: "('m, 'w) memberlist \<Rightarrow> 'm \<Rightarrow> bytes" where
  "gossip_BindAddr M g = fst (ml_local M g) @ '':'' @ formatInt (snd (ml_local M g))"

section \<open>Lemmas\<close>

lemma split_last_colon_none: "split_last_colon s = None \<longleftrightarrow> CHR '':'' \<notin> set s"
  by (induction s) (auto split: option.splits)

lemma split_last_colon_app: "CHR '':'' \<notin> set p \<Longrightarrow> split_last_colon (h @ CHR '':'' # p) = Some (h, p)"
  by (induction h) (simp_all add: split_last_colon_none [THEN iffD2])

lemma formatInt_chars: "c \<in> set (formatInt v) \<Longrightarrow> is_digit c \<or> c = CHR ''-''"
  using format_nat_digits by (auto simp: formatInt_def list_all_iff split: if_splits)

text \<open>Texts that may stand on either side of the colon.\<close>

definition plain_text :: "bytes \<Rightarrow> bool" where
  "plain_text s \<longleftrightarrow> CHR '':'' \<notin> set s \<and> CHR ''['' \<notin> set s \<and> CHR '']'' \<notin> set s"

lemma SplitHostPort_plain:
  assumes "plain_text h" and "plain_text p"
  shows "SplitHostPort (h @ CHR '':'' # p) = Inr (h, p)"
proof -
  have "take 1 (h @ CHR '':'' # p) \<noteq> ''[''" using assms(1) by (cases h) (auto simp: plain_text_def)
  with assms show ?thesis by (auto simp: SplitHostPort_def split_last_colon_app plain_text_def)
qed

text \<open>A host in brackets may contain colons.\<close>

lemma SplitHostPort_brackets:
  assumes "CHR ''['' \<notin> set h" and "CHR '']'' \<notin> set h" and "plain_text p"
  shows "SplitHostPort (CHR ''['' # h @ CHR '']'' # CHR '':'' # p) = Inr (h, p)"
proof -
  have "split_last_colon (CHR ''['' # h @ CHR '']'' # CHR '':'' # p) = Some (CHR ''['' # h @ '']'', p)"
    using split_last_colon_app [of p "CHR ''['' # h @ '']''"] assms(3) by (simp add: plain_text_def)
  moreover have "takeWhile (\<lambda>c. c \<noteq> CHR '']'') (h @ CHR '']'' # r) = h" for r
    using assms(2) by (subst takeWhile_append2) auto
  moreover have "dropWhile (\<lambda>c. c \<noteq> CHR '']'') (h @ CHR '']'' # r) = CHR '']'' # r" for r
    using assms(2) by (subst dropWhile_append2) auto
  ultimately show ?thesis using assms by (auto simp: SplitHostPort_def plain_text_def)
qed

text \<open>
  The gossip node binds where it is told and leaks nothing. For an address made of a host
  (plain, or in brackets) and a decimal port, the configuration has that host, that port and
  the node's name. Whatever happens, a member list that was created is either returned or
  shut down, never both, and a node that was returned has joined the peers it was given.
\<close>

theorem gossip_binds_and_cleans_up:
  assumes "plain_text h \<and> adr = h @ CHR '':'' # formatInt port \<or>
      CHR ''['' \<notin> set h \<and> CHR '']'' \<notin> set h \<and> adr = CHR ''['' # h @ CHR '']'' # CHR '':'' # formatInt port"
    and "in_int64 port" and "NewGossipWithOptions M discard adr name peers opts = (res, created, closed)"
  shows "(case ml_create M \<lparr>Name = name, BindAddr = h, BindPort = port,
              LogOutput = gossip_logOutput (gossip_resolveOptions discard opts)\<rparr> of
      Inl e \<Rightarrow> res = Inl e \<and> created = [] \<and> closed = []
    | Inr l \<Rightarrow> created = [l] \<and>
        (case res of
           Inl e \<Rightarrow> closed = [l] \<and> ml_join M l peers = Some e
         | Inr g \<Rightarrow> g = l \<and> closed = [] \<and> (peers \<noteq> [] \<longrightarrow> ml_join M l peers = None)))"
proof -
  have "plain_text (formatInt port)"
    using formatInt_chars [of _ port] by (fastforce simp: plain_text_def is_digit_def)
  with assms(1) have "SplitHostPort adr = Inr (h, formatInt port)"
    by (auto simp: SplitHostPort_plain SplitHostPort_brackets)
  moreover have "atoi (formatInt port) = (port, None)"
    using assms(2) by (simp add: atoi_eq_parseInt parseInt_formatInt)
  ultimately show ?thesis
    using assms(3) by (auto simp: NewGossipWithOptions_def start_gossip_def split: sum.splits if_splits option.splits)
qed

text \<open>A library whose lists are the configurations and whose joins all fail.\<close>

definition ref_memberlist :: "(bytes \<times> bytes \<times> int, unit) memberlist" where
  "ref_memberlist =
     \<lparr>ml_create = (\<lambda>c. Inr (Name c, BindAddr c, BindPort c)), ml_join = (\<lambda>m peers. Some (ErrExt ''timeout'')),
      ml_local = (\<lambda>(name, adr, port). (adr, port))\<rparr>"

theorem gossip_binds_and_cleans_up_witness:
  "NewGossipWithOptions ref_memberlist () ''0.0.0.0:7946'' ''n1'' [''p''] [] =
     (Inl (ErrExt ''timeout''), [(''n1'', ''0.0.0.0'', 7946)], [(''n1'', ''0.0.0.0'', 7946)])"
proof -
  obtain res created closed where
    run: "NewGossipWithOptions ref_memberlist () ''0.0.0.0:7946'' ''n1'' [''p''] [] = (res, created, closed)"
    by (metis prod_cases3)
  have "formatInt 7946 = ''7946''" by code_simp
  then have "plain_text ''0.0.0.0'' \<and> ''0.0.0.0:7946'' = ''0.0.0.0'' @ CHR '':'' # formatInt 7946 \<or>
      CHR ''['' \<notin> set ''0.0.0.0'' \<and> CHR '']'' \<notin> set ''0.0.0.0'' \<and>
      ''0.0.0.0:7946'' = CHR ''['' # ''0.0.0.0'' @ CHR '']'' # CHR '':'' # formatInt 7946"
    by (simp add: plain_text_def)
  from gossip_binds_and_cleans_up [OF this _ run] show ?thesis
    unfolding run by (cases res) (simp_all add: ref_memberlist_def in_int64_def)
qed

end
