(* ===== verification/Boot.thy ===== *)
theory Boot
  imports Server
begin

text \<open>
  Starting a node (\<open>main.go\<close>) and joining it to a Raft cluster: the settings read from the
  environment, the order in which the parts are started with the exits in between, the loop
  that asks the leader to be added, and the leader's side of it, \<open>handleRaftJoin\<close>.
\<close>

section \<open>Settings\<close>

definition getEnvOrDefault :: "(bytes \<Rightarrow> bytes option) \<Rightarrow> bytes \<Rightarrow> bytes \<Rightarrow> bytes" where
  "getEnvOrDefault vars key fallback = (case vars key of Some v \<Rightarrow> v | None \<Rightarrow> fallback)"

text \<open>\<open>strings.Split\<close> with a separator of one byte.\<close>

fun split_on :: "char \<Rightarrow> bytes \<Rightarrow> bytes list" where
  "split_on sep [] = [[]]"
| "split_on sep (c # s) =
     (if c = sep then [] # split_on sep s
      else (case split_on sep s of [] \<Rightarrow> [[c]] | w # ws \<Rightarrow> (c # w) # ws))"

record settings =
  verbose :: bool
  port :: bytes
  nodeID :: bytes
  gossipPort :: bytes
  raftPort :: bytes
  shard :: bytes
  joinList :: "bytes list"
  dbPath :: bytes
  leaderAdminPort :: bytes

definition main_settings :: "(bytes \<Rightarrow> bytes option) \<Rightarrow> settings" where
  "main_settings vars =
     (let port = getEnvOrDefault vars ''BADIS_PORT'' '':6379'';
          joinAddrs = getEnvOrDefault vars ''BADIS_JOIN'' []
      in \<lparr>verbose = (getEnvOrDefault vars ''BADIS_VERBOSE'' [] = ''1''),
          port = (if prefix '':'' port then port else '':'' @ port),
          nodeID = getEnvOrDefault vars ''BADIS_NODE_ID'' ''local-node'',
          gossipPort = getEnvOrDefault vars ''BADIS_GOSSIP_PORT'' ''7946'',
          raftPort = getEnvOrDefault vars ''BADIS_RAFT_PORT'' ''8300'',
          shard = getEnvOrDefault vars ''BADIS_SHARD_ID'' ''shard-1'',
          joinList = (if joinAddrs \<noteq> [] then split_on CHR '','' joinAddrs else []),
          dbPath = getEnvOrDefault vars ''BADIS_DATA_DIR'' ''badis-data'',
          leaderAdminPort = getEnvOrDefault vars ''BADIS_LEADER_ADMIN_PORT'' ''8400''\<rparr>)"

text \<open>The address a node gives for its Raft traffic, and the request by which it asks to join.\<close>

definition raft_addr :: "settings \<Rightarrow> bytes" where
  "raft_addr cfg = ''127.0.0.1:'' @ raftPort cfg"


section \<open>The sequence of main\<close>


text \<open>Up to ten requests, one after the other, until one is answered with status 200.\<close>

function join_loop :: "(nat \<Rightarrow> err + int) \<Rightarrow> nat \<Rightarrow> nat" where
  "join_loop resp i =
     (if i < 10 then (if resp i = Inr 200 then i + 1 else join_loop resp (i + 1)) else i)"
  by auto
termination
  by (relation "measure (\<lambda>(_, i). 10 - i)") auto

declare join_loop.simps [simp del]



section \<open>Lemmas\<close>

lemma split_on_ne [simp]: "split_on sep s \<noteq> []"
  by (induction s) (simp_all split: list.split)







lemma join_loop_none:
  assumes "\<And>j. i \<le> j \<Longrightarrow> j < 10 \<Longrightarrow> resp j \<noteq> Inr 200" and "i \<le> 10"
  shows "join_loop resp i = 10"
  using assms
proof (induction resp i rule: join_loop.induct)
  case (1 resp i)
  then show ?case by (subst join_loop.simps) auto
qed





section \<open>Properties\<close>




section \<open>Joining a cluster\<close>

definition known :: "bytes \<Rightarrow> bytes \<Rightarrow> (bytes \<times> bytes) list \<Rightarrow> bool" where
  "known i a ms \<longleftrightarrow> i \<in> fst ` set ms \<or> a \<in> snd ` set ms"

text \<open>
  The contract of \<open>AddVoter\<close>: when it succeeds for a server whose identifier and address are
  both new, the configuration has it as a further member.
\<close>

definition voter_added :: "raft_admin \<Rightarrow> bool" where
  "voter_added A \<longleftrightarrow>
     (\<forall>ms i a ms'. \<not> known i a ms \<longrightarrow> addVoter A ms i a = Inr ms' \<longrightarrow> ms' = ms @ [(i, a)])"

text \<open>Join requests one after the other, each with the state of the Raft node at that time.\<close>

primrec join_all :: "(raft_admin \<times> bytes \<times> bytes) list \<Rightarrow> (bytes \<times> bytes) list \<Rightarrow> (bytes \<times> bytes) list" where
  "join_all [] ms = ms"
| "join_all (r # rs) ms = join_all rs (snd (handleRaftJoin (fst r) (fst (snd r)) (snd (snd r)) ms))"

lemma known_member: "list_ex (\<lambda>(i', a'). i' = i \<or> a' = a) ms \<longleftrightarrow> known i a ms"
  by (induction ms) (auto simp: known_def)

lemma handleRaftJoin_known: "known i a ms \<Longrightarrow> snd (handleRaftJoin A i a ms) = ms"
  by (simp add: handleRaftJoin_def known_member split: option.split)

lemma handleRaftJoin_cases:
  assumes "voter_added A"
  obtains (kept) "snd (handleRaftJoin A i a ms) = ms" "fst (fst (handleRaftJoin A i a ms)) = 200 \<longrightarrow> known i a ms"
  | (added) "snd (handleRaftJoin A i a ms) = ms @ [(i, a)]" "\<not> known i a ms"
proof (cases "isLeader A \<and> confErr A = None \<and> \<not> known i a ms")
  case True
  then show thesis
  proof (cases "addVoter A ms i a")
    case (Inl e)
    with True that(1) show thesis by (simp add: handleRaftJoin_def known_member)
  next
    case (Inr ms')
    with assms True have "ms' = ms @ [(i, a)]" by (simp add: voter_added_def)
    with Inr True that(2) show thesis by (simp add: handleRaftJoin_def known_member)
  qed
next
  case False
  then have "snd (handleRaftJoin A i a ms) = ms \<and> (fst (fst (handleRaftJoin A i a ms)) = 200 \<longrightarrow> known i a ms)"
    by (auto simp: handleRaftJoin_def known_member split: option.split)
  with that(1) show thesis by simp
qed

text \<open>
  C36: however often and in whatever order nodes ask to join, at whatever leaders and with
  whatever failures, no two members of the configuration share an identifier or an address,
  nobody is dropped, and a node that is told \<open>200\<close> has its identifier or its address in the
  configuration; asking again changes nothing.
\<close>

theorem joins_keep_members_apart:
  assumes "\<And>r. r \<in> set reqs \<Longrightarrow> voter_added (fst r)" and "voter_added A"
    and "distinct (map fst ms)" and "distinct (map snd ms)"
  shows "let ms' = join_all reqs ms; (resp, ms'') = handleRaftJoin A i a ms' in
    distinct (map fst ms') \<and> distinct (map snd ms') \<and> set ms \<subseteq> set ms' \<and>
    (fst resp = 200 \<longrightarrow> known i a ms'' \<and> snd (handleRaftJoin A i a ms'') = ms'')"
proof -
  have "distinct (map fst (join_all reqs ms)) \<and> distinct (map snd (join_all reqs ms)) \<and> set ms \<subseteq> set (join_all reqs ms)"
    using assms(1,3,4)
  proof (induction reqs arbitrary: ms)
    case (Cons r reqs)
    let ?ms = "snd (handleRaftJoin (fst r) (fst (snd r)) (snd (snd r)) ms)"
    have va: "voter_added (fst r)" using Cons.prems(1) by simp
    have "distinct (map fst ?ms) \<and> distinct (map snd ?ms) \<and> set ms \<subseteq> set ?ms"
      by (rule handleRaftJoin_cases [OF va, of "fst (snd r)" "snd (snd r)" ms])
        (use Cons.prems(2,3) in \<open>auto simp: known_def\<close>)
    with Cons.IH [of ?ms] Cons.prems(1) show ?case by auto
  qed simp
  moreover have "fst (fst (handleRaftJoin A i a m)) = 200 \<longrightarrow> known i a (snd (handleRaftJoin A i a m))" for m
    by (cases rule: handleRaftJoin_cases [OF assms(2), of i a m]) (auto simp: known_def)
  moreover obtain resp ms'' where "handleRaftJoin A i a (join_all reqs ms) = (resp, ms'')" by fastforce
  ultimately show ?thesis using handleRaftJoin_known [of i a ms'' A] by (simp add: Let_def) (metis fst_conv snd_conv)
qed

definition ref_leader :: raft_admin where
  "ref_leader = \<lparr>isLeader = True, confErr = None, addVoter = (\<lambda>ms i a. Inr (ms @ [(i, a)]))\<rparr>"

lemma ref_leader_adds: "voter_added ref_leader"
  by (simp add: voter_added_def ref_leader_def)

theorem joins_keep_members_apart_witness:
  "let ms = join_all [(ref_leader, ''n2'', ''b''), (ref_leader, ''n2'', ''c''), (ref_leader, ''n3'', ''d'')] [(''n1'', ''a'')]
   in distinct (map fst ms) \<and> ms = [(''n1'', ''a''), (''n2'', ''b''), (''n3'', ''d'')]"
  using joins_keep_members_apart [of "[(ref_leader, ''n2'', ''b''), (ref_leader, ''n2'', ''c''), (ref_leader, ''n3'', ''d'')]"
      ref_leader "[(''n1'', ''a'')]" "''n3''" "''d''"] ref_leader_adds
  by (auto simp: Let_def handleRaftJoin_def ref_leader_def)

text \<open>
  C37: nodes on different hosts that use the same Raft port do not form a cluster. Every node gives
  \<open>127.0.0.1\<close> with its port as its Raft address, so the leader takes a node with the port of a
  member for that member: it answers \<open>200\<close>, which ends the join loop, and adds nobody.
\<close>

theorem same_raft_port_never_joins:
  assumes "isLeader A" and "confErr A = None"
    and "raftPort (main_settings vars) = raftPort (main_settings vars')"
    and "(nodeID (main_settings vars'), raft_addr (main_settings vars')) \<in> set ms"
  shows "handleRaftJoin A (nodeID (main_settings vars)) (raft_addr (main_settings vars)) ms = ((200, []), ms) \<and>
    (resp 0 = Inr (fst (fst (handleRaftJoin A (nodeID (main_settings vars)) (raft_addr (main_settings vars)) ms))) \<longrightarrow>
      join_loop resp 0 = 1)"
proof -
  have "list_ex (\<lambda>(i, a). i = nodeID (main_settings vars) \<or> a = raft_addr (main_settings vars)) ms"
    using assms(3,4) by (auto simp: list_ex_iff raft_addr_def)
  with assms(1,2) show ?thesis by (auto simp: handleRaftJoin_def join_loop.simps [of _ 0])
qed

text \<open>Two hosts with default settings but for the identifiers.\<close>

theorem same_raft_port_never_joins_witness:
  "handleRaftJoin ref_leader ''n2'' ''127.0.0.1:8300'' [(''n1'', ''127.0.0.1:8300'')] =
     ((200, []), [(''n1'', ''127.0.0.1:8300'')])"
proof -
  have cfg: "nodeID (main_settings [''BADIS_NODE_ID'' \<mapsto> n]) = n"
      "raftPort (main_settings [''BADIS_NODE_ID'' \<mapsto> n]) = ''8300''"
      "raft_addr (main_settings [''BADIS_NODE_ID'' \<mapsto> n]) = ''127.0.0.1:8300''" for n
    by (simp_all add: main_settings_def getEnvOrDefault_def raft_addr_def Let_def)
  have "isLeader ref_leader" "confErr ref_leader = None" by (simp_all add: ref_leader_def)
  from same_raft_port_never_joins [OF this, of "[''BADIS_NODE_ID'' \<mapsto> ''n2'']" "[''BADIS_NODE_ID'' \<mapsto> ''n1'']"
      "[(''n1'', ''127.0.0.1:8300'')]"]
  show ?thesis by (simp add: cfg)
qed

end
