(* ===== verification/Snapshot.thy ===== *)
theory Snapshot
  imports FsmProps
begin

text \<open>
  Snapshots of the state machine (\<open>store/fsm.go\<close>: \<open>Snapshot\<close>, \<open>Persist\<close>, \<open>Release\<close>,
  \<open>Restore\<close>). Badger's \<open>Backup\<close> and \<open>Load\<close> and the sink Raft hands to \<open>Persist\<close> are parameters.
\<close>

section \<open>Backup, load and the sink\<close>

text \<open>
  \<open>'w\<close> is the state of the sink and \<open>'r\<close> what a reader of a finished snapshot reads.
\<close>

record ('d, 'w, 'r) dump =
  db_Backup :: "'d \<Rightarrow> 'w \<Rightarrow> (err + unit) \<times> 'w"
  db_Load :: "'r \<Rightarrow> 'd \<Rightarrow> (err + unit) \<times> 'd"
  sink_Cancel :: "'w \<Rightarrow> 'w"
  sink_Close :: "'w \<Rightarrow> (err + unit) \<times> 'w"

section \<open>The methods\<close>

text \<open>
  \<open>fsmSnapshot\<close> holds the handle of the node's database and nothing of its contents; in a
  model that passes the database along, the handle carries no data, and \<open>Persist\<close> gets the
  database as it is when it runs.
\<close>

datatype fsmSnapshot = FsmSnapshot

definition Snapshot :: "err + fsmSnapshot" where
  "Snapshot = Inr FsmSnapshot"

definition Persist :: "('d, 'w, 'r) dump \<Rightarrow> fsmSnapshot \<Rightarrow> 'd \<Rightarrow> 'w \<Rightarrow> (err + unit) \<times> 'w" where
  "Persist K s d sink =
     (case db_Backup K d sink of
        (Inl e, sink') \<Rightarrow> (Inl e, sink_Cancel K sink')
      | (Inr _, sink') \<Rightarrow> sink_Close K sink')"

text \<open>The deferred \<open>rc.Close()\<close> closes the reader, whose state nobody reads afterwards, and its error is dropped.\<close>

definition Restore :: "('d, 'w, 'r) dump \<Rightarrow> 'r \<Rightarrow> 'd \<Rightarrow> (err + unit) \<times> 'd" where
  "Restore K rc d = db_Load K rc d"

section \<open>The contract\<close>

text \<open>
  A backup that was written and closed without an error loads without one into an empty
  database, which then has the entries the backed-up one had, with their expiry; an entry
  that had expired may be missing. \<open>finished w\<close> is what a reader of the closed sink reads.
\<close>

locale dumps =
  fixes K :: "('d, 'w, 'r) dump" and B :: "('d, 't) badger"
    and contents :: "'t \<Rightarrow> bytes \<Rightarrow> item option" and finished :: "'w \<Rightarrow> 'r"
    and now :: int
  assumes load_back:
    "db_Backup K d w = (Inr (), w1) \<Longrightarrow> sink_Close K w1 = (Inr (), w2) \<Longrightarrow>
     contents (b_begin B d0) = Map.empty \<Longrightarrow>
     \<exists>d'. db_Load K (finished w2) d0 = (Inr (), d') \<and>
       (\<forall>k. contents (b_begin B d') k = contents (b_begin B d) k \<or>
            contents (b_begin B d') k = None \<and> live now (contents (b_begin B d) k) = None)"
begin

lemma persisted:
  assumes "Persist K s d w = (Inr (), w2)"
  obtains w1 where "db_Backup K d w = (Inr (), w1)" and "sink_Close K w1 = (Inr (), w2)"
  using assms by (auto simp: Persist_def split: prod.splits sum.splits)

lemma restored:
  assumes "Persist K s d w = (Inr (), w2)" and "contents (b_begin B d0) = Map.empty"
  obtains d' where "Restore K (finished w2) d0 = (Inr (), d')"
    and "\<And>k. live now (contents (b_begin B d') k) = live now (contents (b_begin B d) k)"
proof -
  from assms(1) obtain w1 where "db_Backup K d w = (Inr (), w1)" "sink_Close K w1 = (Inr (), w2)"
    by (rule persisted)
  from load_back [OF this assms(2)] obtain d' where d': "db_Load K (finished w2) d0 = (Inr (), d')"
    and c: "\<And>k. contents (b_begin B d') k = contents (b_begin B d) k \<or>
       contents (b_begin B d') k = None \<and> live now (contents (b_begin B d) k) = None"
    by blast
  have "live now (contents (b_begin B d') k) = live now (contents (b_begin B d) k)" for k
    using c [of k] by auto
  then show ?thesis using d' by (intro that [of d']) (simp_all add: Restore_def)
qed

end

lemma keyspace_live_cong:
  assumes "\<And>k. live (clock E) (c k) = live (clock E) (c' k)"
  shows "keyspace E c = keyspace E c'"
  by (rule ext) (simp add: keyspace_def seen_type_def assms cong: option.case_cong)

section \<open>A counter\<close>

text \<open>What \<open>INCR\<close> does to a key that holds a number without expiry, or to a missing key.\<close>

lemma incr_update:
  assumes "store B contents E" and "Op cmd = ''INCR''"
    and "num_at (keyspace E (contents (b_begin B d))) (Key cmd) = Inr (i, 0)" and "wrap64 (i + 1) = j"
  obtains d' where "Apply B E L n (\<lambda>_. Inr cmd) data d = Some (Inr (GInt64 j), d')"
    and "keyspace E (contents (b_begin B d')) (Key cmd) = Some (RStr (formatInt j), 0)"
proof -
  obtain r d' where u: "db_update B (applyPlain B E cmd) d = (r, d')" by fastforce
  have spec: "spec_plain B E cmd popped m = spec_incr B E cmd m" for popped m
    using assms(2) by (simp add: spec_plain_def)
  have "(map_sum id norm r, keyspace E (contents (b_begin B d'))) =
      spec_incr B E cmd (keyspace E (contents (b_begin B d)))"
    using store.update_refines [OF assms(1), of cmd d] u
    by (auto simp: store.view_def [OF assms(1)] spec)
  then have "map_sum id norm r = Inr (GInt64 j)"
    and ks: "keyspace E (contents (b_begin B d')) (Key cmd) = Some (RStr (formatInt j), 0)"
    using assms(2-4) by (simp_all add: spec_incr_def counterDelta_def put_0 Let_def)
  then have "r = Inr (GInt64 j)"
    by (cases r) (auto elim: norm.elims)
  moreover have "Apply B E L n (\<lambda>_. Inr cmd) data d = Some (r, d')"
    using assms(2) u by (subst Apply_plain [where cmd = cmd]) (simp_all add: lua_ops_def)
  ultimately show ?thesis using ks that by blast
qed

section \<open>A backup to run the properties on\<close>

text \<open>The sink keeps the association list of the reference store, expired entries and all.\<close>

definition ref_dump :: "(refdb, refdb, refdb) dump" where
  "ref_dump =
     \<lparr>db_Backup = (\<lambda>d w. (Inr (), d)), db_Load = (\<lambda>r d. (Inr (), r @ d)),
      sink_Cancel = (\<lambda>w. []), sink_Close = (\<lambda>w. (Inr (), w))\<rparr>"

interpretation refd: dumps ref_dump ref_badger map_of "\<lambda>w. w" tm for tm
proof
  fix d w w1 w2 d0 :: refdb
  assume w: "db_Backup ref_dump d w = (Inr (), w1)" "sink_Close ref_dump w1 = (Inr (), w2)"
    and "map_of (b_begin ref_badger d0) = Map.empty"
  then have "w2 = d" "map_of d0 = Map.empty" by (auto simp: ref_dump_def ref_badger_def)
  then show "\<exists>d'. db_Load ref_dump w2 d0 = (Inr (), d') \<and>
      (\<forall>k. map_of (b_begin ref_badger d') k = map_of (b_begin ref_badger d) k \<or>
        map_of (b_begin ref_badger d') k = None \<and> live tm (map_of (b_begin ref_badger d) k) = None)"
    by (simp add: ref_dump_def ref_badger_def)
qed

section \<open>Properties\<close>

text \<open>
  C20: a snapshot is not the state at the time \<open>Snapshot\<close> was called. An \<open>INCR\<close> that is applied
  after \<open>Snapshot\<close> and before \<open>Persist\<close> is in the snapshot; a node that restores it and then
  applies the entries that follow the snapshot, this one included, counts it twice, and its
  key space differs from that of the node that took the snapshot.
\<close>

theorem snapshot_is_not_frozen:
  assumes "store B contents E" and "dumps K B contents finished (clock E)"
    and "\<And>d w. \<exists>w1 w2. db_Backup K d w = (Inr (), w1) \<and> sink_Close K w1 = (Inr (), w2)"
    and "keyspace E (contents (b_begin B d)) key = None"
    and "contents (b_begin B d0) = Map.empty"
    and "Op cmd = ''INCR''" and "Key cmd = key"
  shows "\<exists>s d1 w' d2 d3. Snapshot = Inr s \<and>
    Apply B E L n (\<lambda>_. Inr cmd) data d = Some (Inr (GInt64 1), d1) \<and>
    Persist K s d1 w = (Inr (), w') \<and> Restore K (finished w') d0 = (Inr (), d2) \<and>
    Apply B E L n (\<lambda>_. Inr cmd) data d2 = Some (Inr (GInt64 2), d3) \<and>
    keyspace E (contents (b_begin B d1)) key = Some (RStr ''1'', 0) \<and>
    keyspace E (contents (b_begin B d3)) key = Some (RStr ''2'', 0)"
proof -
  have one: "wrap64 (0 + 1) = 1" "wrap64 (1 + 1) = 2" "formatInt 1 = ''1''" "formatInt 2 = ''2''"
    "parseInt ''1'' = (1, None)"
    by code_simp+
  have "num_at (keyspace E (contents (b_begin B d))) (Key cmd) = Inr (0, 0)"
    using assms(4,7) by (simp add: num_at_def str_at_def)
  then obtain d1 where a1: "Apply B E L n (\<lambda>_. Inr cmd) data d = Some (Inr (GInt64 1), d1)"
    and k1: "keyspace E (contents (b_begin B d1)) (Key cmd) = Some (RStr (formatInt 1), 0)"
    using one(1) by (rule incr_update [OF assms(1,6)])
  obtain w' where p: "Persist K FsmSnapshot d1 w = (Inr (), w')"
    using assms(3) [of d1 w] by (auto simp: Persist_def)
  then obtain d2 where r: "Restore K (finished w') d0 = (Inr (), d2)"
    and live: "\<And>k. live (clock E) (contents (b_begin B d2) k) = live (clock E) (contents (b_begin B d1) k)"
    using assms(5) by (rule dumps.restored [OF assms(2)]) simp
  have "keyspace E (contents (b_begin B d2)) = keyspace E (contents (b_begin B d1))"
    using live by (rule keyspace_live_cong)
  then have "num_at (keyspace E (contents (b_begin B d2))) (Key cmd) = Inr (1, 0)"
    using k1 by (simp add: one num_at_def str_at_def)
  then obtain d3 where "Apply B E L n (\<lambda>_. Inr cmd) data d2 = Some (Inr (GInt64 2), d3)"
    and "keyspace E (contents (b_begin B d3)) (Key cmd) = Some (RStr (formatInt 2), 0)"
    using one(2) by (rule incr_update [OF assms(1,6)])
  with a1 k1 p r show ?thesis unfolding Snapshot_def one assms(7) by blast
qed

theorem snapshot_is_not_frozen_witness:
  "\<exists>d1 w' d2 d3. Apply ref_badger (ref_env 0) ref_lua 0 (\<lambda>_. Inr (ref_cmd ''INCR'' ''c'' [] 0)) [] [] =
      Some (Inr (GInt64 1), d1) \<and>
    Persist ref_dump FsmSnapshot d1 [] = (Inr (), w') \<and> Restore ref_dump w' [] = (Inr (), d2) \<and>
    Apply ref_badger (ref_env 0) ref_lua 0 (\<lambda>_. Inr (ref_cmd ''INCR'' ''c'' [] 0)) [] d2 =
      Some (Inr (GInt64 2), d3)"
proof -
  have ok: "\<exists>w1 w2. db_Backup ref_dump d w = (Inr (), w1) \<and> sink_Close ref_dump w1 = (Inr (), w2)" for d w
    by (simp add: ref_dump_def)
  have start: "keyspace (ref_env 0) (map_of (b_begin ref_badger [])) ''c'' = None"
    "map_of (b_begin ref_badger []) = Map.empty"
    by (simp_all add: ref_empty) (simp add: ref_badger_def)
  from snapshot_is_not_frozen [OF ref_store refd.dumps_axioms ok start,
      where cmd = "ref_cmd ''INCR'' ''c'' [] 0" and L = ref_lua and n = 0 and data = "[]" and w = "[]"]
  show ?thesis by (auto simp: ref_cmd_def Snapshot_def)
qed

end
