(* ===== verification/Spec2Isabelle.thy ===== *)
theory Spec2Isabelle
  imports Router Glob ScriptProps ExpiryProps EndToEnd Clients Gossip Boot Replication Snapshot
begin

text \<open>
  \<^bold>\<open>Verification of badis\<close>, a Redis-compatible server that keeps its data in BadgerDB and
  replicates its commands with Raft.

  \<^bold>\<open>The program.\<close> A client's request comes in at \<open>server.handleCmd\<close>. It asks the router for the slot
  of the first key and for the node that owns the slot, and either forwards the words of the
  request to that node through a cached client, or passes them to the handler of the command.
  A handler of a read asks the state machine (\<open>store.FSM\<close>) in a read transaction; a handler of a
  write builds a \<open>store.Command\<close> and submits it through Raft, or straight to the state machine
  when the node has no Raft. Raft calls \<open>FSM.Apply\<close> with every committed entry, which runs the
  command, or a Lua script that calls commands, in one Badger transaction. The same database
  holds Raft's log and its stable records. \<open>main\<close> reads the settings, joins the gossip ring, opens
  the store, sets up Raft, bootstraps or joins a cluster, and serves.

  \<^bold>\<open>How the code is represented.\<close> Go strings and byte slices are lists of characters (\<open>bytes\<close>), a
  slice that may be nil is a \<open>bytes option\<close>, \<open>int\<close> and \<open>int64\<close> are \<open>int\<close> with \<open>wrap64\<close> where the code
  computes, \<open>uint16\<close> and \<open>uint64\<close> are words, a Go map is an association list whose keys are
  distinct, and the order of a \<open>range\<close> over a map is a parameter. An error is a value of \<open>err\<close>; a
  run-time panic is one of them (\<open>GoPanic\<close>), so that it can be proved absent. A transaction step
  has the type \<open>tx\<close>: it takes the transaction and returns an error or a result with the
  transaction after it. A handler returns \<open>Done\<close> with the session after it, \<open>Panicked\<close> or \<open>Hangs\<close>.

  \<^bold>\<open>What the code relies on\<close> is a parameter, with its documented behaviour as the assumptions of a
  locale, and the theorems hold for everything that satisfies them:
  \<^item> \<open>badger_txn\<close>, \<open>badger_live\<close>, \<open>badger_bounded\<close> (\<open>Badger\<close>): Badger transactions, with storage
    faults, without them, and with a limit on the size of a transaction; expiry, iteration in key
    order, commit;
  \<^item> \<open>msgpack\<close>, \<open>store\<close> (\<open>FsmBase\<close>): the MessagePack codec and the clock, and both together;
  \<^item> \<open>typed_coll\<close> (\<open>FsmTyped\<close>): what the hash, list and set commands share;
  \<^item> \<open>key_region\<close>, \<open>two_regions\<close> (\<open>KeyLayout\<close>): the disjoint key regions;
  \<^item> \<open>int_text\<close> (\<open>Strconv\<close>), \<open>slot_table\<close> (\<open>SlotMap\<close>): printing and reading numbers; the slot table;
  \<^item> \<open>serve_mux\<close> (\<open>Redcon\<close>): the command multiplexer;
  \<^item> \<open>log_options\<close> (\<open>Options\<close>): the two option packages, one proof for both;
  \<^item> \<open>direct_node\<close> (\<open>CrashProps\<close>): a node that applies its own commands;
  \<^item> \<open>dumps\<close> (\<open>Snapshot\<close>): Badger's backup and load.
  The locales are interpreted on the model's definitions where the model provides them, and the
  outside ones on a store, a codec and a script interpreter that compute (\<open>RefBadger\<close>, \<open>RefStore\<close>),
  on which the concrete instances of the theorems are evaluated.

  \<^bold>\<open>The theories\<close>, from the bottom up.
  \<^item> \<open>Prelude\<close>, \<open>Strconv\<close>, \<open>Float64\<close>: shared lemmas and collections; \<open>strconv.ParseInt\<close>, \<open>Atoi\<close>,
    \<open>FormatInt\<close>; the rounding of \<open>Duration.Seconds\<close> to a \<open>float64\<close>, on which \<open>TTL\<close> depends.
  \<^item> \<open>SlotMap\<close> (\<open>config/slotmap.go\<close>), \<open>Router\<close> (\<open>router/router.go\<close>): slot ownership and routing. The CRC is
    the remainder of polynomial division; a key is located where its slot was last assigned.
  \<^item> \<open>Badger\<close>, \<open>KeyLayout\<close>: the storage contract; \<open>userKey\<close>, \<open>typeKey\<close>, \<open>logKey\<close>, \<open>stableKey\<close>.
  \<^item> \<open>Glob\<close>: \<open>redisGlobMatch\<close> decides the language of its pattern, for every byte string; what a
    class denotes is defined by its ranges.
  \<^item> \<open>FsmBase\<close>, \<open>FsmString\<close>, \<open>FsmTyped\<close>, \<open>FsmList\<close>, \<open>FsmHash\<close>, \<open>FsmSet\<close> (\<open>store/fsm.go\<close>, \<open>store/encoding.go\<close>):
    each case of \<open>applyCmdInTxn\<close> and each read method, a specification of each on the abstract key
    space (a partial map from keys to typed values with an expiry), and that the code
    implements it.
  \<^item> \<open>Dispatch\<close>, \<open>Fsm\<close>: the switch, scripts, \<open>Apply\<close>; which entries of the database a command can touch.
  \<^item> \<open>RaftStore\<close> (\<open>store/raft_store.go\<close>): Raft's log and stable store; a range of the log is deleted
    when it fits into one transaction, and otherwise not at all.
  \<^item> \<open>Sha1\<close>, \<open>Lua\<close> (\<open>store/lua.go\<close>): script commands, \<open>redis.call\<close>, the conversions of values.
  \<^item> \<open>FsmProps\<close>, \<open>ReadProps\<close>, \<open>ScriptProps\<close>, \<open>ExpiryProps\<close>: the properties of the state machine. \<open>Apply\<close>
    refines the key-space specification; \<open>SPOP\<close> takes replicas apart; a loaded script is run by
    its digest; reads return what the key space holds, \<open>TTL\<close> up to the rounding of a
    \<open>float64\<close>; rewriting a key keeps its expiry up to a second, and the seconds add up.
  \<^item> \<open>TypedStore\<close>: the invariant that ties a value to its type entry, over all runs of a node.
  \<^item> \<open>Replication\<close>: two nodes that apply the same log, with time passing and keys expiring between
    the entries, give the same replies and hold the same key space ever after.
  \<^item> \<open>Snapshot\<close>: \<open>Snapshot\<close>, \<open>Persist\<close>, \<open>Restore\<close>; a snapshot holds what was applied after it was
    asked for.
  \<^item> \<open>Options\<close>, \<open>Redcon\<close>, \<open>Handlers\<close>, \<open>Server\<close>, \<open>Clients\<close> (\<open>server/options.go\<close>, \<open>server/server.go\<close>,
    \<open>server/lua_handlers.go\<close>): every handler, the handler table, \<open>handleCmd\<close>, the client cache with
    its double-checked lock as a step relation, the admin endpoint.
  \<^item> \<open>ServerProps\<close>, \<open>CrashProps\<close>, \<open>RequestProps\<close>, \<open>EndToEnd\<close>: the properties of requests. Each gets one
    complete reply (\<open>HELLO\<close> and \<open>SMISMEMBER\<close> apart), none but a script or an absurd \<open>SRANDMEMBER\<close>
    count can bring a node down, an error means that nothing was written, a request goes to
    the owner of its key, the options of \<open>SET\<close> are read as README says, and the one-key
    writes implement the specification from the words of the request to the reply.
  \<^item> \<open>Gossip\<close> (\<open>cluster/gossip.go\<close>, \<open>cluster/options.go\<close>), \<open>Boot\<close> (\<open>main.go\<close>): start-up and joining.

  \<^bold>\<open>Bounds.\<close> Three recursions of the code need not end. \<open>delete_loop\<close>, \<open>script_loop\<close> and \<open>luaToGoValues\<close>
  are partial functions whose value is \<open>None\<close> when they do not return. The loop of \<open>DeleteRange\<close> wraps
  around when its bound is the largest index; it is shown to return for every other bound, and
  for every bound on a store that limits the size of a transaction. The conversion of a script's
  result returns on every value but the tables that contain themselves. \<open>applyCmdInTxn\<close> takes the depth to which scripts may start
  scripts: a command that runs no script needs none, and a larger number never changes a result
  (\<open>applyCmdInTxn_more\<close>). The join loop makes at most ten requests, as the code does. Everything
  else is total.

  \<^bold>\<open>Not modelled.\<close> The insides of Badger, Raft, \<open>memberlist\<close>, \<open>redcon\<close>, \<open>go-redis\<close>, the MessagePack codec and
  the Lua interpreter, which are not part of the repository: they are the parameters above.
  \<open>NewFSM\<close> and \<open>Close\<close>, \<open>StartAdmin\<close>, \<open>Members\<close> and \<open>Shutdown\<close>, which open, close or list what those
  libraries own. Logging, sleeping, signals and the query parsing of the HTTP library. The
  mutex of the slot map, whose operations are single steps. The time that passes while one
  command runs: a command reads one clock value. The exhaustion of memory, by the slice of
  \<open>SRANDMEMBER\<close> with a large negative count in particular. The commit of \<open>SCRIPT FLUSH\<close>, beyond that
  it is open which scripts are left: the code deletes under a key the iterator overwrites,
  so the commit can reach another key of the same length, 47 bytes. A join request that
  arrives before \<open>SetupRaft\<close> has set the Raft node. The tests, the container and the cluster
  descriptions.
\<close>

end
